(* ===== verification/Prelude.thy ===== *)
theory Prelude
  imports Main
begin

text \<open>
  Shared material of the development: the fact collections that the component
  theories fill and that carry their proofs, the type names of the model, and the
  generic facts about \<open>find\<close>, \<open>filter\<close>, \<open>distinct\<close> and \<open>min\<close> that the storage
  and edit-distance theories both need. Nothing here models a line of the program.
\<close>

section \<open>Fact collections\<close>

named_theorems js_eval
  \<open>equations that evaluate the JavaScript built-ins on concrete strings\<close>
named_theorems run_simps
  \<open>how a promise built from the combinators runs on a world\<close>
named_theorems handler_defs
  \<open>the definitions of the resolvers and of their callbacks\<close>
named_theorems store_defs
  \<open>the definitions of the storage operations\<close>
named_theorems inv_defs
  \<open>the definitions of the invariants\<close>

section \<open>Type names\<close>

text \<open>
  A JavaScript string is modelled as a \<open>string\<close>, one \<open>char\<close> per UTF-16 code unit.
  This is exact for strings whose code units are below 256; the case maps of theory
  \<open>JsString\<close> are exact for ASCII.
\<close>

type_synonym js_string = string

text \<open>The minimum of three numbers, the step of the edit-distance recursion.\<close>

definition min3 :: "nat \<Rightarrow> nat \<Rightarrow> nat \<Rightarrow> nat" where
  "min3 a b c = min (min a b) c"

section \<open>Lists: first match, filters, distinctness\<close>

lemma find_append:
  "find P (xs @ ys) = (case find P xs of Some x \<Rightarrow> Some x | None \<Rightarrow> find P ys)"
  by (induction xs) auto

lemma find_snoc_None [simp]:
  "find P xs = None \<Longrightarrow> find P (xs @ [x]) = (if P x then Some x else None)"
  by (simp add: find_append)

lemma find_snoc_Some [simp]:
  "find P xs = Some y \<Longrightarrow> find P (xs @ [x]) = Some y"
  by (simp add: find_append)

lemma find_Some_holds: "find P xs = Some x \<Longrightarrow> P x \<and> x \<in> set xs"
  by (induction xs) (auto split: if_splits)

lemma find_None_set: "find P xs = None \<longleftrightarrow> (\<forall>x \<in> set xs. \<not> P x)"
  by (induction xs) auto

lemma find_cong_set: "(\<And>x. x \<in> set xs \<Longrightarrow> P x = Q x) \<Longrightarrow> find P xs = find Q xs"
  by (induction xs) auto

lemma find_unique:
  assumes "distinct (map f xs)" and "x \<in> set xs"
  shows "find (\<lambda>y. f y = f x) xs = Some x"
  using assms
proof (induction xs)
  case Nil
  then show ?case by simp
next
  case (Cons a xs)
  show ?case
  proof (cases "a = x")
    case True
    then show ?thesis by simp
  next
    case False
    with Cons.prems have "x \<in> set xs" and "f a \<noteq> f x"
      by (auto simp: image_iff)
    with Cons show ?thesis by simp
  qed
qed

lemma distinct_map_snoc:
  "distinct (map f (xs @ [x])) \<longleftrightarrow> distinct (map f xs) \<and> f x \<notin> f ` set xs"
  by auto

lemma filter_snoc: "filter P (xs @ [x]) = (if P x then filter P xs @ [x] else filter P xs)"
  by simp

section \<open>Arithmetic: the minimum of three\<close>

lemma min3_le [simp]: "min3 a b c \<le> a" "min3 a b c \<le> b" "min3 a b c \<le> c"
  by (simp_all add: min3_def)

lemma min3_cases:
  obtains "min3 a b c = a" | "min3 a b c = b" | "min3 a b c = c"
  unfolding min3_def by (metis min_def)

lemma min3_greatest: "d \<le> a \<Longrightarrow> d \<le> b \<Longrightarrow> d \<le> c \<Longrightarrow> d \<le> min3 a b c"
  by (simp add: min3_def)

lemma min3_swap12: "min3 a b c = min3 b a c"
  by (simp add: min3_def min.commute)

lemma min3_mono: "a \<le> a' \<Longrightarrow> b \<le> b' \<Longrightarrow> c \<le> c' \<Longrightarrow> min3 a b c \<le> min3 a' b' c'"
  unfolding min3_def by (meson min.mono)

end
