(* ===== verification/Storage.thy ===== *)
theory Storage
  imports Prelude
begin

text \<open>
  The table of account records behind the model \<open>User\<close> (\<open>models/userModel\<close>, required
  in line 18 of \<open>src/schema/schema.js\<close>). The shapes of the data are the source's: the
  fields of a record are those of \<open>UserType\<close> (lines 45--54), the values handed to
  \<open>User.create\<close> are the object of lines 186--191, and a filter is the \<open>where\<close> object
  of lines 81--86. The operations \<open>findAll\<close>, \<open>findOne\<close> and \<open>create\<close> are not under
  \<open>src/\<close>; they follow the specification's repository gateway: the table is a
  sequence in storage order, \<open>findOne\<close> returns the first record that satisfies the
  filter, \<open>create\<close> appends a record under a fresh identifier and refuses an account
  number that is already stored.

  The lemmas give each operation's result on every branch, the invariant \<open>db_ok\<close>
  (account numbers and identifiers are unique, identifiers are below the counter) with
  its preservation, the round trip from \<open>create\<close> to \<open>findOne\<close>, and the refinement of
  a finite map from account numbers to records (\<open>accounts\<close>).
\<close>

section \<open>Records, filters and the table\<close>

record user_values =
  user_account_number :: js_string
  user_bank_code :: js_string
  user_account_name :: "js_string option"
  is_verified :: bool

record user = user_values +
  user_id :: nat

record where_clause =
  where_user_account_number :: js_string
  where_user_bank_code :: "js_string option"

record db =
  rows :: "user list"
  next_id :: nat

datatype db_error = UniqueConstraintError | ConnectionError

section \<open>Operations\<close>

text \<open>A filter constrains the account number and, when it names one, the bank code.\<close>

definition matches :: "where_clause \<Rightarrow> user \<Rightarrow> bool" where
  "matches w r \<longleftrightarrow>
     user_account_number r = where_user_account_number w \<and>
     (case where_user_bank_code w of None \<Rightarrow> True | Some b \<Rightarrow> user_bank_code r = b)"

definition findAll :: "db \<Rightarrow> user list" where
  "findAll d = rows d"

definition findOne :: "where_clause \<Rightarrow> db \<Rightarrow> user option" where
  "findOne w d = find (matches w) (rows d)"

definition taken :: "js_string \<Rightarrow> db \<Rightarrow> bool" where
  "taken n d \<longleftrightarrow> list_ex (\<lambda>r. user_account_number r = n) (rows d)"

definition new_row :: "user_values \<Rightarrow> nat \<Rightarrow> user" where
  "new_row v i =
     \<lparr>user_account_number = user_account_number v, user_bank_code = user_bank_code v,
      user_account_name = user_account_name v, is_verified = is_verified v, user_id = i\<rparr>"

definition create :: "user_values \<Rightarrow> db \<Rightarrow> db_error + user \<times> db" where
  "create v d =
     (if taken (user_account_number v) d then Inl UniqueConstraintError
      else Inr (new_row v (next_id d),
                d\<lparr>rows := rows d @ [new_row v (next_id d)], next_id := Suc (next_id d)\<rparr>))"

lemmas storage_defs [store_defs] =
  matches_def findAll_def findOne_def taken_def new_row_def create_def

section \<open>Invariant\<close>

definition db_ok :: "db \<Rightarrow> bool" where
  "db_ok d \<longleftrightarrow>
     distinct (map user_account_number (rows d)) \<and>
     distinct (map user_id (rows d)) \<and>
     list_all (\<lambda>r. user_id r < next_id d) (rows d)"

definition empty_db :: db where
  "empty_db = \<lparr>rows = [], next_id = 1\<rparr>"

text \<open>The abstract view of the table: a finite map from account numbers to records.\<close>

definition accounts :: "db \<Rightarrow> js_string \<rightharpoonup> user" where
  "accounts d = map_of (map (\<lambda>r. (user_account_number r, r)) (rows d))"

lemmas [inv_defs] = db_ok_def

section \<open>Results of the operations\<close>

lemma taken_iff: "taken n d \<longleftrightarrow> n \<in> user_account_number ` set (rows d)"
  by (auto simp: taken_def list_ex_iff)

lemma not_taken_iff: "\<not> taken n d \<longleftrightarrow> (\<forall>r \<in> set (rows d). user_account_number r \<noteq> n)"
  by (auto simp: taken_def list_ex_iff)

lemma new_row_simps [simp]:
  "user_account_number (new_row v i) = user_account_number v"
  "user_bank_code (new_row v i) = user_bank_code v"
  "user_account_name (new_row v i) = user_account_name v"
  "is_verified (new_row v i) = is_verified v"
  "user_id (new_row v i) = i"
  by (simp_all add: new_row_def)

lemma findOne_Some: "findOne w d = Some r \<Longrightarrow> matches w r \<and> r \<in> set (rows d)"
  by (simp add: findOne_def find_Some_holds)

lemma findOne_None: "findOne w d = None \<longleftrightarrow> (\<forall>r \<in> set (rows d). \<not> matches w r)"
  by (simp add: findOne_def find_None_set)

lemma findOne_number_only:
  "findOne \<lparr>where_user_account_number = n, where_user_bank_code = None\<rparr> d = None
     \<longleftrightarrow> \<not> taken n d"
  by (auto simp: findOne_None matches_def taken_iff)

lemma create_taken: "taken (user_account_number v) d \<Longrightarrow> create v d = Inl UniqueConstraintError"
  by (simp add: create_def)

lemma create_fresh:
  "\<not> taken (user_account_number v) d \<Longrightarrow>
     create v d = Inr (new_row v (next_id d),
       d\<lparr>rows := rows d @ [new_row v (next_id d)], next_id := Suc (next_id d)\<rparr>)"
  by (simp add: create_def)

lemma create_Inr:
  "create v d = Inr (r, d') \<longleftrightarrow>
     \<not> taken (user_account_number v) d \<and> r = new_row v (next_id d) \<and>
     d' = d\<lparr>rows := rows d @ [r], next_id := Suc (next_id d)\<rparr>"
  by (auto simp: create_def)

lemma create_Inl: "create v d = Inl e \<longleftrightarrow> taken (user_account_number v) d \<and> e = UniqueConstraintError"
  by (auto simp: create_def)

section \<open>Preservation of the invariant\<close>

lemma db_ok_empty: "db_ok empty_db"
  by (simp add: db_ok_def empty_db_def)

lemma db_ok_append:
  assumes "db_ok d" and "\<not> taken (user_account_number v) d"
  shows "db_ok (d\<lparr>rows := rows d @ [new_row v (next_id d)], next_id := Suc (next_id d)\<rparr>)"
proof -
  from assms(1) have "next_id d \<notin> user_id ` set (rows d)"
    by (auto simp: db_ok_def list_all_iff)
  moreover from assms(1) have "list_all (\<lambda>r. user_id r < Suc (next_id d)) (rows d)"
    by (auto simp: db_ok_def list_all_iff less_Suc_eq)
  ultimately show ?thesis
    using assms by (simp add: db_ok_def taken_iff)
qed

lemma create_db_ok: "db_ok d \<Longrightarrow> create v d = Inr (r, d') \<Longrightarrow> db_ok d'"
  by (auto simp: create_Inr db_ok_append)

lemma create_id_fresh:
  "db_ok d \<Longrightarrow> create v d = Inr (r, d') \<Longrightarrow> user_id r \<notin> user_id ` set (rows d)"
  by (auto simp: create_Inr db_ok_def list_all_iff)

section \<open>Round trips\<close>

lemma findOne_after_create:
  assumes "create v d = Inr (r, d')"
  shows "findOne \<lparr>where_user_account_number = user_account_number v,
                  where_user_bank_code = Some (user_bank_code v)\<rparr> d' = Some r"
proof -
  from assms have fresh: "\<not> taken (user_account_number v) d"
    and r: "r = new_row v (next_id d)" and d': "rows d' = rows d @ [r]"
    by (auto simp: create_Inr)
  from fresh have "find (matches \<lparr>where_user_account_number = user_account_number v,
      where_user_bank_code = Some (user_bank_code v)\<rparr>) (rows d) = None"
    by (auto simp: find_None_set matches_def not_taken_iff)
  then show ?thesis
    by (simp add: findOne_def d' r matches_def)
qed

lemma findOne_create_other:
  assumes "create v d = Inr (r, d')" and "where_user_account_number w \<noteq> user_account_number v"
  shows "findOne w d' = findOne w d"
proof -
  from assms have "rows d' = rows d @ [r]" and "\<not> matches w r"
    by (auto simp: create_Inr matches_def)
  then show ?thesis
    by (simp add: findOne_def find_append split: option.split)
qed

lemma findAll_create: "create v d = Inr (r, d') \<Longrightarrow> findAll d' = findAll d @ [r]"
  by (auto simp: create_Inr findAll_def)

section \<open>Refinement of a finite map keyed by account number\<close>

text \<open>
  Abstractly the table is a partial map from account numbers to records. Under the
  invariant, \<open>findOne\<close> by account number is the lookup of that map, and a successful
  \<open>create\<close> is the update at a key outside its domain.
\<close>

lemma dom_accounts: "dom (accounts d) = user_account_number ` set (rows d)"
  by (force simp: accounts_def dom_map_of_conv_image_fst)

lemma map_of_keyed_find:
  "map_of (map (\<lambda>r. (f r, r)) xs) k = find (\<lambda>r. f r = k) xs"
  by (induction xs) auto

lemma accounts_find: "accounts d k = find (\<lambda>r. user_account_number r = k) (rows d)"
  by (simp add: accounts_def map_of_keyed_find)

lemma findOne_refines_lookup:
  "findOne \<lparr>where_user_account_number = n, where_user_bank_code = None\<rparr> d = accounts d n"
  by (simp add: findOne_def accounts_find matches_def [abs_def])

lemma taken_refines_dom: "taken n d \<longleftrightarrow> n \<in> dom (accounts d)"
  by (simp add: taken_iff dom_accounts)

lemma create_refines_update:
  assumes "create v d = Inr (r, d')"
  shows "accounts d' = (accounts d)(user_account_number v \<mapsto> r)"
proof
  fix k
  from assms have d': "rows d' = rows d @ [r]" and r: "user_account_number r = user_account_number v"
    and fresh: "find (\<lambda>r. user_account_number r = user_account_number v) (rows d) = None"
    by (auto simp: create_Inr not_taken_iff find_None_set)
  show "accounts d' k = ((accounts d)(user_account_number v \<mapsto> r)) k"
    using fresh r
    by (cases "k = user_account_number v")
       (auto simp: accounts_find d' find_append split: option.split)
qed

end
