(* ===== verification/Effects.thy ===== *)
theory Effects
  imports Storage "HOL-Library.Sublist"
begin

text \<open>
  The world outside the resolvers and the way a resolver acts on it.

  \<^item> The bank-resolution service: a request is the \<open>options\<close> object the source builds
    (\<open>src/schema/schema.js\<close>, lines 99--109 and 165--175), a success carries what the
    resolvers read of it (\<open>response.data.data.account_name\<close>, lines 114 and 179), a
    failure what the \<open>catch\<close> of lines 205--217 inspects (\<open>error.response\<close>, its
    \<open>status\<close> and \<open>data.status\<close>).
  \<^item> \<open>js_error\<close>: the values a rejected promise carries: an \<open>Error\<close> with one of
    the messages of \<open>errorName\<close>, a \<open>TypeError\<close> raised by a property access or a method
    call on \<open>null\<close> or \<open>undefined\<close>, a failure of the HTTP client, a failure of the
    storage layer.
  \<^item> \<open>world\<close>: the table, the service as a function of the request, the environment
    variable holding the credential, and the trace of the external calls made so
    far. Whether the storage layer is reachable is a function of the position in the
    trace (\<open>db_fault\<close>), so every pattern of connectivity failures is an input of the
    model and nothing in it is random.
  \<^item> A promise is a function from the world to its settlement and the world after it;
    \<open>promise_then\<close> and \<open>promise_catch\<close> are \<open>Promise.prototype.then\<close> and
    \<open>Promise.prototype.catch\<close> for callbacks that return promises. A synchronous
    \<open>throw\<close> inside a resolver or a callback is a rejected promise, which is how GraphQL
    and \<open>then\<close> treat it.

  The lemmas are the laws of the combinators, the result of each primitive call, and
  the rules of \<open>across\<close>: a relation between the world before and after that is
  reflexive and transitive holds across a composed promise when it holds across the
  primitive calls in it. The resolvers' frame and invariant properties are instances.
\<close>

section \<open>The bank-resolution service\<close>

record axios_options =
  http_method :: js_string
  url :: js_string
  params_account_number :: js_string
  params_bank_code :: js_string
  headers_Authorization :: js_string

record axios_response =
  account_name :: "js_string option"

datatype error_data = NoData | Data "bool option"

record error_response =
  status :: nat
  data :: error_data

record axios_error =
  response :: "error_response option"

section \<open>Errors and settlements\<close>

datatype error_name =
    ACCOUNT_NUMBER_LENGTH_ERROR
  | USER_DOESNT_EXIST
  | USER_ALREADY_EXISTS
  | INVALID_BANK_DETAILS
  | SERVER_ERROR

datatype js_error =
    Error error_name
  | TypeError
  | AxiosError axios_error
  | SequelizeError db_error

datatype 'a settled = Fulfilled 'a | Rejected js_error

section \<open>The world\<close>

datatype call =
    FindAll
  | FindOne where_clause
  | Create user_values
  | Axios axios_options
  | ConsoleError js_error
  | ConsoleLog

record world =
  database :: db
  db_fault :: "nat \<Rightarrow> bool"
  paystack :: "axios_options \<Rightarrow> axios_error + axios_response"
  PAYSTACK_SECRET_KEY :: "js_string option"
  trace :: "call list"

type_synonym 'a promise = "world \<Rightarrow> 'a settled \<times> world"

section \<open>Promise combinators\<close>

definition promise_resolve :: "'a \<Rightarrow> 'a promise" where
  "promise_resolve v w = (Fulfilled v, w)"

definition promise_reject :: "js_error \<Rightarrow> 'a promise" where
  "promise_reject e w = (Rejected e, w)"

definition promise_then :: "'a promise \<Rightarrow> ('a \<Rightarrow> 'b promise) \<Rightarrow> 'b promise" where
  "promise_then p f w =
     (case p w of (Fulfilled v, w') \<Rightarrow> f v w' | (Rejected e, w') \<Rightarrow> (Rejected e, w'))"

definition promise_catch :: "'a promise \<Rightarrow> (js_error \<Rightarrow> 'a promise) \<Rightarrow> 'a promise" where
  "promise_catch p h w =
     (case p w of (Fulfilled v, w') \<Rightarrow> (Fulfilled v, w') | (Rejected e, w') \<Rightarrow> h e w')"

section \<open>Primitive calls\<close>

definition record_call :: "call \<Rightarrow> world \<Rightarrow> world" where
  "record_call c w = w\<lparr>trace := trace w @ [c]\<rparr>"

definition faulty :: "world \<Rightarrow> bool" where
  "faulty w = db_fault w (length (trace w))"

definition User_findAll :: "user list promise" where
  "User_findAll w =
     (if faulty w then (Rejected (SequelizeError ConnectionError), record_call FindAll w)
      else (Fulfilled (findAll (database w)), record_call FindAll w))"

definition User_findOne :: "where_clause \<Rightarrow> user option promise" where
  "User_findOne wh w =
     (if faulty w then (Rejected (SequelizeError ConnectionError), record_call (FindOne wh) w)
      else (Fulfilled (findOne wh (database w)), record_call (FindOne wh) w))"

definition User_create :: "user_values \<Rightarrow> user promise" where
  "User_create v w =
     (if faulty w then (Rejected (SequelizeError ConnectionError), record_call (Create v) w)
      else case create v (database w) of
        Inl e \<Rightarrow> (Rejected (SequelizeError e), record_call (Create v) w)
      | Inr (r, d) \<Rightarrow> (Fulfilled r, record_call (Create v) (w\<lparr>database := d\<rparr>)))"

definition axios :: "axios_options \<Rightarrow> axios_response promise" where
  "axios opts w =
     (case paystack w opts of
        Inl e \<Rightarrow> (Rejected (AxiosError e), record_call (Axios opts) w)
      | Inr r \<Rightarrow> (Fulfilled r, record_call (Axios opts) w))"

definition console_error :: "js_error \<Rightarrow> unit promise" where
  "console_error e w = (Fulfilled (), record_call (ConsoleError e) w)"

definition console_log :: "unit promise" where
  "console_log w = (Fulfilled (), record_call ConsoleLog w)"

lemmas promise_defs = promise_resolve_def promise_reject_def promise_then_def promise_catch_def

lemmas call_defs =
  record_call_def faulty_def User_findAll_def User_findOne_def User_create_def axios_def
  console_error_def console_log_def

section \<open>Relations that hold across a promise\<close>

definition across :: "(world \<Rightarrow> world \<Rightarrow> bool) \<Rightarrow> 'a promise \<Rightarrow> bool" where
  "across R p \<longleftrightarrow> (\<forall>w. R w (snd (p w)))"

definition preorder_on_worlds :: "(world \<Rightarrow> world \<Rightarrow> bool) \<Rightarrow> bool" where
  "preorder_on_worlds R \<longleftrightarrow> (\<forall>w. R w w) \<and> (\<forall>u v w. R u v \<longrightarrow> R v w \<longrightarrow> R u w)"

text \<open>The environment is never written, and the trace only grows.\<close>

definition frame :: "world \<Rightarrow> world \<Rightarrow> bool" where
  "frame w w' \<longleftrightarrow>
     db_fault w' = db_fault w \<and> paystack w' = paystack w \<and>
     PAYSTACK_SECRET_KEY w' = PAYSTACK_SECRET_KEY w \<and> prefix (trace w) (trace w')"

text \<open>The table is not written.\<close>

definition same_table :: "world \<Rightarrow> world \<Rightarrow> bool" where
  "same_table w w' \<longleftrightarrow> database w' = database w"

text \<open>Records are only ever added, at the end: none is updated or deleted.\<close>

definition table_grows :: "world \<Rightarrow> world \<Rightarrow> bool" where
  "table_grows w w' \<longleftrightarrow> prefix (rows (database w)) (rows (database w'))"

text \<open>The invariant of the table is kept.\<close>

definition keeps_ok :: "world \<Rightarrow> world \<Rightarrow> bool" where
  "keeps_ok w w' \<longleftrightarrow> (db_ok (database w) \<longrightarrow> db_ok (database w'))"

lemmas relation_defs = frame_def same_table_def table_grows_def keeps_ok_def

section \<open>Running the combinators\<close>

lemma run_resolve [run_simps]: "promise_resolve v w = (Fulfilled v, w)"
  by (simp add: promise_resolve_def)

lemma run_reject [run_simps]: "promise_reject e w = (Rejected e, w)"
  by (simp add: promise_reject_def)

lemma run_then_Fulfilled [run_simps]:
  "p w = (Fulfilled v, w') \<Longrightarrow> promise_then p f w = f v w'"
  by (simp add: promise_then_def)

lemma run_then_Rejected [run_simps]:
  "p w = (Rejected e, w') \<Longrightarrow> promise_then p f w = (Rejected e, w')"
  by (simp add: promise_then_def)

lemma run_catch_Fulfilled [run_simps]:
  "p w = (Fulfilled v, w') \<Longrightarrow> promise_catch p h w = (Fulfilled v, w')"
  by (simp add: promise_catch_def)

lemma run_catch_Rejected [run_simps]:
  "p w = (Rejected e, w') \<Longrightarrow> promise_catch p h w = h e w'"
  by (simp add: promise_catch_def)

lemma settled_cases:
  obtains v w' where "p w = (Fulfilled v, w')" | e w' where "p w = (Rejected e, w')"
  by (cases "p w") (metis settled.exhaust)

section \<open>Laws of the combinators\<close>

lemma then_resolve_left [simp]: "promise_then (promise_resolve v) f = f v"
  by (rule ext) (simp add: promise_defs)

lemma then_resolve_right [simp]: "promise_then p promise_resolve = p"
  by (rule ext) (simp add: promise_defs split: prod.split settled.split)

lemma then_reject [simp]: "promise_then (promise_reject e) f = promise_reject e"
  by (rule ext) (simp add: promise_defs)

lemma then_assoc:
  "promise_then (promise_then p f) g = promise_then p (\<lambda>v. promise_then (f v) g)"
  by (rule ext) (simp add: promise_defs split: prod.split settled.split)

lemma catch_resolve [simp]: "promise_catch (promise_resolve v) h = promise_resolve v"
  by (rule ext) (simp add: promise_defs)

lemma catch_reject [simp]: "promise_catch (promise_reject e) h = h e"
  by (rule ext) (simp add: promise_defs)

lemma catch_reject_right [simp]: "promise_catch p promise_reject = p"
  by (rule ext) (simp add: promise_defs split: prod.split settled.split)

section \<open>Results of the primitive calls\<close>

lemma trace_record_call [simp]: "trace (record_call c w) = trace w @ [c]"
  and database_record_call [simp]: "database (record_call c w) = database w"
  and db_fault_record_call [simp]: "db_fault (record_call c w) = db_fault w"
  and paystack_record_call [simp]: "paystack (record_call c w) = paystack w"
  and secret_record_call [simp]: "PAYSTACK_SECRET_KEY (record_call c w) = PAYSTACK_SECRET_KEY w"
  by (simp_all add: record_call_def)

lemma record_call_database_update:
  "record_call c (w\<lparr>database := d\<rparr>) = (record_call c w)\<lparr>database := d\<rparr>"
  by (simp add: record_call_def)

lemma User_findOne_ok [run_simps]:
  "\<not> faulty w \<Longrightarrow> User_findOne wh w = (Fulfilled (findOne wh (database w)), record_call (FindOne wh) w)"
  by (simp add: User_findOne_def)

lemma User_findOne_fault [run_simps]:
  "faulty w \<Longrightarrow> User_findOne wh w = (Rejected (SequelizeError ConnectionError), record_call (FindOne wh) w)"
  by (simp add: User_findOne_def)

lemma User_findAll_ok [run_simps]:
  "\<not> faulty w \<Longrightarrow> User_findAll w = (Fulfilled (findAll (database w)), record_call FindAll w)"
  by (simp add: User_findAll_def)

lemma User_findAll_fault [run_simps]:
  "faulty w \<Longrightarrow> User_findAll w = (Rejected (SequelizeError ConnectionError), record_call FindAll w)"
  by (simp add: User_findAll_def)

lemma User_create_fault [run_simps]:
  "faulty w \<Longrightarrow> User_create v w = (Rejected (SequelizeError ConnectionError), record_call (Create v) w)"
  by (simp add: User_create_def)

lemma User_create_taken [run_simps]:
  "\<not> faulty w \<Longrightarrow> taken (user_account_number v) (database w) \<Longrightarrow>
     User_create v w = (Rejected (SequelizeError UniqueConstraintError), record_call (Create v) w)"
  by (simp add: User_create_def create_taken)

lemma User_create_fresh [run_simps]:
  "\<not> faulty w \<Longrightarrow> \<not> taken (user_account_number v) (database w) \<Longrightarrow>
     User_create v w =
       (Fulfilled (new_row v (next_id (database w))),
        record_call (Create v)
          (w\<lparr>database := (database w)\<lparr>rows := rows (database w) @ [new_row v (next_id (database w))],
                                     next_id := Suc (next_id (database w))\<rparr>\<rparr>))"
  by (simp add: User_create_def create_fresh)

lemma axios_ok [run_simps]:
  "paystack w opts = Inr r \<Longrightarrow> axios opts w = (Fulfilled r, record_call (Axios opts) w)"
  by (simp add: axios_def)

lemma axios_fail [run_simps]:
  "paystack w opts = Inl e \<Longrightarrow> axios opts w = (Rejected (AxiosError e), record_call (Axios opts) w)"
  by (simp add: axios_def)

lemma faulty_record_call: "faulty (record_call c w) = db_fault w (Suc (length (trace w)))"
  by (simp add: faulty_def)

section \<open>Rules for relations across promises\<close>

lemma acrossI: "(\<And>w. R w (snd (p w))) \<Longrightarrow> across R p"
  by (simp add: across_def)

lemma acrossD: "across R p \<Longrightarrow> R w (snd (p w))"
  by (simp add: across_def)

lemma across_resolve: "preorder_on_worlds R \<Longrightarrow> across R (promise_resolve v)"
  by (simp add: across_def preorder_on_worlds_def promise_resolve_def)

lemma across_reject: "preorder_on_worlds R \<Longrightarrow> across R (promise_reject e)"
  by (simp add: across_def preorder_on_worlds_def promise_reject_def)

lemma across_then:
  assumes R: "preorder_on_worlds R" and p: "across R p" and f: "\<And>v. across R (f v)"
  shows "across R (promise_then p f)"
proof (rule acrossI)
  fix w
  show "R w (snd (promise_then p f w))"
  proof (cases rule: settled_cases [of p w])
    case (1 v w')
    with p f [of v] have "R w w'" and "R w' (snd (f v w'))"
      by (auto dest: acrossD [where w = w] acrossD [where w = w'])
    with R 1 show ?thesis
      unfolding preorder_on_worlds_def by (auto simp: promise_then_def)
  next
    case (2 e w')
    with p show ?thesis
      by (auto simp: promise_then_def dest: acrossD [where w = w])
  qed
qed

lemma across_catch:
  assumes R: "preorder_on_worlds R" and p: "across R p" and h: "\<And>e. across R (h e)"
  shows "across R (promise_catch p h)"
proof (rule acrossI)
  fix w
  show "R w (snd (promise_catch p h w))"
  proof (cases rule: settled_cases [of p w])
    case (1 v w')
    with p show ?thesis
      by (auto simp: promise_catch_def dest: acrossD [where w = w])
  next
    case (2 e w')
    with p h [of e] have "R w w'" and "R w' (snd (h e w'))"
      by (auto dest: acrossD [where w = w] acrossD [where w = w'])
    with R 2 show ?thesis
      unfolding preorder_on_worlds_def by (auto simp: promise_catch_def)
  qed
qed

lemma across_with_world:
  "(\<And>w. across R (f w)) \<Longrightarrow> across R (\<lambda>w. f w w)"
  by (simp add: across_def)

lemmas across_intros = across_then across_catch across_resolve across_reject

section \<open>The four relations are preorders and hold across the primitive calls\<close>

lemma preorder_frame: "preorder_on_worlds frame"
  by (auto simp: preorder_on_worlds_def frame_def)

lemma preorder_same_table: "preorder_on_worlds same_table"
  by (auto simp: preorder_on_worlds_def same_table_def)

lemma preorder_table_grows: "preorder_on_worlds table_grows"
  by (auto simp: preorder_on_worlds_def table_grows_def)

lemma preorder_keeps_ok: "preorder_on_worlds keeps_ok"
  by (auto simp: preorder_on_worlds_def keeps_ok_def)

lemmas preorders = preorder_frame preorder_same_table preorder_table_grows preorder_keeps_ok

lemma frame_calls:
  "across frame User_findAll" "across frame (User_findOne wh)"
  "across frame (User_create v)" "across frame (axios opts)"
  "across frame (console_error e)" "across frame console_log"
  by (auto simp: across_def frame_def call_defs split: sum.split prod.split)

lemma same_table_calls:
  "across same_table User_findAll" "across same_table (User_findOne wh)"
  "across same_table (axios opts)"
  "across same_table (console_error e)" "across same_table console_log"
  by (auto simp: across_def same_table_def call_defs split: sum.split)

lemma table_grows_calls:
  "across table_grows User_findAll" "across table_grows (User_findOne wh)"
  "across table_grows (User_create v)" "across table_grows (axios opts)"
  "across table_grows (console_error e)" "across table_grows console_log"
  by (auto simp: across_def table_grows_def call_defs create_Inr split: sum.split prod.split)

lemma keeps_ok_calls:
  "across keeps_ok User_findAll" "across keeps_ok (User_findOne wh)"
  "across keeps_ok (User_create v)" "across keeps_ok (axios opts)"
  "across keeps_ok (console_error e)" "across keeps_ok console_log"
  by (auto simp: across_def keeps_ok_def call_defs split: sum.split prod.split
      dest: create_db_ok)

lemmas across_calls = frame_calls same_table_calls table_grows_calls keeps_ok_calls

end
