(* ===== verification/JsString.thy ===== *)
theory JsString
  imports Prelude
begin

text \<open>
  The string built-ins the resolvers call: \<open>String.prototype.toLowerCase\<close> (called in
  \<open>src/schema/schema.js\<close>, lines 180 and 182) and the helper \<open>toTitleCase\<close> of
  \<open>utils/titleCase\<close> (called in lines 95 and 113). Neither is defined under \<open>src/\<close>:
  the case maps follow ECMAScript on the ASCII letters and leave every other code unit
  alone, and \<open>toTitleCase\<close> follows the specification's words, "each word
  capitalized", with words separated by spaces. The lemmas are the algebra of the case
  maps that the name matcher and the query resolver rely on: they keep the length,
  are idempotent and absorb each other.
\<close>

section \<open>Case maps on one code unit\<close>

definition is_upper_ascii :: "char \<Rightarrow> bool" where
  "is_upper_ascii c = (let n = (of_char c :: nat) in 65 \<le> n \<and> n \<le> 90)"

definition is_lower_ascii :: "char \<Rightarrow> bool" where
  "is_lower_ascii c = (let n = (of_char c :: nat) in 97 \<le> n \<and> n \<le> 122)"

definition toLowerCase_char :: "char \<Rightarrow> char" where
  "toLowerCase_char c = (if is_upper_ascii c then char_of ((of_char c :: nat) + 32) else c)"

definition toUpperCase_char :: "char \<Rightarrow> char" where
  "toUpperCase_char c = (if is_lower_ascii c then char_of ((of_char c :: nat) - 32) else c)"

section \<open>Case maps on strings\<close>

definition toLowerCase :: "js_string \<Rightarrow> js_string" where
  "toLowerCase s = map toLowerCase_char s"

definition toUpperCase :: "js_string \<Rightarrow> js_string" where
  "toUpperCase s = map toUpperCase_char s"

text \<open>
  Title case: the first code unit of every word in upper case, the others in lower
  case; a word is a maximal run of code units other than the space. The flag says
  whether the next code unit starts a word.
\<close>

fun titleCase_from :: "bool \<Rightarrow> js_string \<Rightarrow> js_string" where
  "titleCase_from b [] = []"
| "titleCase_from b (c # cs) =
     (if c = CHR '' '' then c # titleCase_from True cs
      else (if b then toUpperCase_char c else toLowerCase_char c) # titleCase_from False cs)"

definition toTitleCase :: "js_string \<Rightarrow> js_string" where
  "toTitleCase s = titleCase_from True s"

section \<open>Evaluation on concrete strings\<close>

lemmas char_eval [js_eval] =
  is_upper_ascii_def is_lower_ascii_def toLowerCase_char_def toUpperCase_char_def
  char_of_def bit_Suc_0_iff Let_def

lemmas string_eval [js_eval] = toLowerCase_def toUpperCase_def toTitleCase_def

section \<open>Algebra of the case maps\<close>

lemma char_of_small_eq: "n < 256 \<Longrightarrow> char_of (n::nat) = c \<longleftrightarrow> n = of_char c"
  by (auto simp: char_of_eq_iff take_bit_eq_mod)

lemma is_upper_not_lower: "is_upper_ascii c \<Longrightarrow> \<not> is_lower_ascii c"
  by (simp add: is_upper_ascii_def is_lower_ascii_def Let_def)

lemma toLowerCase_char_not_upper [simp]: "\<not> is_upper_ascii (toLowerCase_char c)"
  by (auto simp: toLowerCase_char_def is_upper_ascii_def Let_def)

lemma toUpperCase_char_not_lower [simp]: "\<not> is_lower_ascii (toUpperCase_char c)"
  by (auto simp: toUpperCase_char_def is_lower_ascii_def Let_def)

lemma toLowerCase_char_idem [simp]: "toLowerCase_char (toLowerCase_char c) = toLowerCase_char c"
  by (simp add: toLowerCase_char_def [of "toLowerCase_char c"])

lemma toUpperCase_char_idem [simp]: "toUpperCase_char (toUpperCase_char c) = toUpperCase_char c"
  by (simp add: toUpperCase_char_def [of "toUpperCase_char c"])

lemma of_char_toUpperCase_char:
  "is_lower_ascii c \<Longrightarrow> of_char (toUpperCase_char c) = (of_char c :: nat) - 32"
  by (auto simp: toUpperCase_char_def is_lower_ascii_def Let_def less_imp_diff_less)

lemma of_char_toLowerCase_char:
  "is_upper_ascii c \<Longrightarrow> of_char (toLowerCase_char c) = (of_char c :: nat) + 32"
  by (auto simp: toLowerCase_char_def is_upper_ascii_def Let_def)

lemma toLowerCase_char_upper [simp]: "toLowerCase_char (toUpperCase_char c) = toLowerCase_char c"
proof (cases "is_lower_ascii c")
  case True
  then have n: "of_char (toUpperCase_char c) = (of_char c :: nat) - 32"
    by (rule of_char_toUpperCase_char)
  from True have "is_upper_ascii (toUpperCase_char c)" and "\<not> is_upper_ascii c"
    by (auto simp: is_upper_ascii_def [of "toUpperCase_char c"] n is_lower_ascii_def
        is_upper_ascii_def [of c] Let_def)
  moreover from True have "(of_char c :: nat) - 32 + 32 = of_char c"
    by (auto simp: is_lower_ascii_def Let_def)
  ultimately show ?thesis
    by (simp add: toLowerCase_char_def n)
next
  case False
  then show ?thesis by (simp add: toUpperCase_char_def)
qed

lemma toUpperCase_char_lower [simp]: "toUpperCase_char (toLowerCase_char c) = toUpperCase_char c"
proof (cases "is_upper_ascii c")
  case True
  then have n: "of_char (toLowerCase_char c) = (of_char c :: nat) + 32"
    by (rule of_char_toLowerCase_char)
  from True have "is_lower_ascii (toLowerCase_char c)" and "\<not> is_lower_ascii c"
    by (auto simp: is_lower_ascii_def [of "toLowerCase_char c"] n is_upper_ascii_def
        is_lower_ascii_def [of c] Let_def)
  then show ?thesis
    by (simp add: toUpperCase_char_def n)
next
  case False
  then show ?thesis by (simp add: toLowerCase_char_def)
qed

lemma toLowerCase_char_space [simp]:
  "toLowerCase_char c = CHR '' '' \<longleftrightarrow> c = CHR '' ''"
  by (auto simp: toLowerCase_char_def is_upper_ascii_def Let_def char_of_small_eq)

lemma toUpperCase_char_space [simp]:
  "toUpperCase_char c = CHR '' '' \<longleftrightarrow> c = CHR '' ''"
  by (auto simp: toUpperCase_char_def is_lower_ascii_def Let_def char_of_small_eq
      less_imp_diff_less)

lemma toLowerCase_simps [simp]:
  "toLowerCase [] = []"
  "toLowerCase (c # cs) = toLowerCase_char c # toLowerCase cs"
  "toLowerCase (s @ t) = toLowerCase s @ toLowerCase t"
  by (simp_all add: toLowerCase_def)

lemma toUpperCase_simps [simp]:
  "toUpperCase [] = []"
  "toUpperCase (c # cs) = toUpperCase_char c # toUpperCase cs"
  "toUpperCase (s @ t) = toUpperCase s @ toUpperCase t"
  by (simp_all add: toUpperCase_def)

lemma length_toLowerCase [simp]: "length (toLowerCase s) = length s"
  by (simp add: toLowerCase_def)

lemma length_toUpperCase [simp]: "length (toUpperCase s) = length s"
  by (simp add: toUpperCase_def)

lemma toLowerCase_idem [simp]: "toLowerCase (toLowerCase s) = toLowerCase s"
  by (induction s) simp_all

lemma toLowerCase_toUpperCase [simp]: "toLowerCase (toUpperCase s) = toLowerCase s"
  by (induction s) simp_all

lemma toUpperCase_toLowerCase [simp]: "toUpperCase (toLowerCase s) = toUpperCase s"
  by (induction s) simp_all

section \<open>Title case\<close>

lemma length_titleCase_from [simp]: "length (titleCase_from b s) = length s"
  by (induction s arbitrary: b) simp_all

lemma length_toTitleCase [simp]: "length (toTitleCase s) = length s"
  by (simp add: toTitleCase_def)

lemma titleCase_from_idem [simp]:
  "titleCase_from b (titleCase_from b s) = titleCase_from b s"
  by (induction s arbitrary: b) simp_all

lemma toTitleCase_idem [simp]: "toTitleCase (toTitleCase s) = toTitleCase s"
  by (simp add: toTitleCase_def)

lemma titleCase_from_lower [simp]:
  "titleCase_from b (toLowerCase s) = titleCase_from b s"
  by (induction s arbitrary: b) simp_all

lemma toTitleCase_toLowerCase [simp]: "toTitleCase (toLowerCase s) = toTitleCase s"
  by (simp add: toTitleCase_def)

lemma toLowerCase_titleCase_from [simp]:
  "toLowerCase (titleCase_from b s) = toLowerCase s"
  by (induction s arbitrary: b) simp_all

lemma toLowerCase_toTitleCase [simp]: "toLowerCase (toTitleCase s) = toLowerCase s"
  by (simp add: toTitleCase_def)

lemma toTitleCase_Nil_iff [simp]: "toTitleCase s = [] \<longleftrightarrow> s = []"
  by (metis length_0_conv length_toTitleCase)

end
