(* ===== verification/Levenshtein.thy ===== *)
theory Levenshtein
  imports Prelude
begin

text \<open>
  The edit distance that \<open>src/schema/schema.js\<close> obtains from the package
  \<open>js-levenshtein\<close> (line 3, called in line 183). The package is not under \<open>src/\<close>; it
  is modelled from its contract, the Levenshtein distance: the least number of
  insertions, deletions and substitutions of one element that turn the first sequence
  into the second.

  \<^item> \<open>lev\<close> is the reference definition, the textbook recursion.
  \<^item> \<open>levenshtein\<close> is the routine the model calls: it fills the table row by row,
    each row from its right end, so that it evaluates on concrete names in a number of
    steps proportional to the product of the lengths. \<open>levenshtein_eq_lev\<close> proves it
    equal to the reference; all other facts are proved once, about \<open>lev\<close>.
  \<^item> The metric laws (\<open>lev_eq_0_iff\<close>, \<open>lev_sym\<close>, \<open>lev_triangle\<close>) and the bounds by the
    lengths are what the name matcher's properties rest on.
\<close>

section \<open>Reference definition\<close>

fun lev :: "'a list \<Rightarrow> 'a list \<Rightarrow> nat" where
  "lev [] ys = length ys"
| "lev (x # xs) [] = Suc (length xs)"
| "lev (x # xs) (y # ys) =
     min3 (Suc (lev xs (y # ys))) (Suc (lev (x # xs) ys))
          ((if x = y then 0 else 1) + lev xs ys)"

section \<open>Row-based routine\<close>

text \<open>
  \<open>tails ys\<close> lists the suffixes of \<open>ys\<close>, longest first. A row of the table holds the
  distances from one suffix of the first sequence to every suffix of the second.
\<close>

fun tails :: "'a list \<Rightarrow> 'a list list" where
  "tails [] = [[]]"
| "tails (y # ys) = (y # ys) # tails ys"

fun base_row :: "'a list \<Rightarrow> nat list" where
  "base_row [] = [0]"
| "base_row (y # ys) = Suc (length ys) # base_row ys"

definition lev_cell :: "bool \<Rightarrow> nat \<Rightarrow> nat \<Rightarrow> nat list \<Rightarrow> nat list" where
  "lev_cell same d e row = min3 (Suc d) (Suc (hd row)) ((if same then 0 else 1) + e) # row"

fun lev_row :: "'a \<Rightarrow> 'a list \<Rightarrow> nat list \<Rightarrow> nat list" where
  "lev_row x (y # ys) (d # e # r) = lev_cell (x = y) d e (lev_row x ys (e # r))"
| "lev_row x ys r = map Suc r"

definition levenshtein :: "'a list \<Rightarrow> 'a list \<Rightarrow> nat" where
  "levenshtein xs ys = hd (foldr (\<lambda>x row. lev_row x ys row) xs (base_row ys))"

section \<open>The routine computes the reference\<close>

lemma lev_Nil2 [simp]: "lev xs [] = length xs"
  by (cases xs) simp_all

lemma hd_map_tails [simp]: "hd (map f (tails ys)) = f ys"
  by (cases ys) simp_all

lemma base_row_eq: "base_row ys = map (lev []) (tails ys)"
  by (induction ys) simp_all

lemma lev_row_Cons_tails:
  "lev_row x (y # ys) (d # map f (tails ys)) =
     lev_cell (x = y) d (f ys) (lev_row x ys (map f (tails ys)))"
  by (cases ys) simp_all

lemma lev_row_tails:
  "lev_row x ys (map (lev xs) (tails ys)) = map (lev (x # xs)) (tails ys)"
  by (induction ys) (simp_all add: lev_row_Cons_tails lev_cell_def)

lemma foldr_lev_row:
  "foldr (\<lambda>x row. lev_row x ys row) xs (base_row ys) = map (lev xs) (tails ys)"
  by (induction xs) (simp_all add: base_row_eq lev_row_tails)

lemma levenshtein_eq_lev: "levenshtein xs ys = lev xs ys"
  by (simp add: levenshtein_def foldr_lev_row)

section \<open>Metric laws\<close>

lemma lev_refl [simp]: "lev xs xs = 0"
  by (induction xs) (simp_all add: min3_def)

lemma lev_sym: "lev xs ys = lev ys xs"
  by (induction xs ys rule: lev.induct) (simp_all add: min3_swap12 eq_commute)

lemma lev_ge_length_diff: "length xs - length ys \<le> lev xs ys"
proof (induction xs ys rule: lev.induct)
  case (3 x xs y ys)
  then show ?case
    by (cases rule: min3_cases
        [of "Suc (lev xs (y # ys))" "Suc (lev (x # xs) ys)" "(if x = y then 0 else 1) + lev xs ys"])
      (simp_all del: min3_le)
qed simp_all

lemma lev_ge_length_diff2: "length ys - length xs \<le> lev xs ys"
  by (subst lev_sym) (rule lev_ge_length_diff)

lemma lev_le_max_length: "lev xs ys \<le> max (length xs) (length ys)"
proof (induction xs ys rule: lev.induct)
  case (3 x xs y ys)
  have "lev (x # xs) (y # ys) \<le> (if x = y then 0 else 1) + lev xs ys"
    by simp
  also have "\<dots> \<le> Suc (max (length xs) (length ys))"
    using "3.IH"(3) by simp
  finally show ?case by simp
qed simp_all

lemma lev_eq_0_iff [simp]: "lev xs ys = 0 \<longleftrightarrow> xs = ys"
proof
  show "lev xs ys = 0 \<Longrightarrow> xs = ys"
  proof (induction xs ys rule: lev.induct)
    case (3 x xs y ys)
    from "3.prems" have "(if x = y then 0 else 1) + lev xs ys = 0"
      by (cases rule: min3_cases
          [of "Suc (lev xs (y # ys))" "Suc (lev (x # xs) ys)" "(if x = y then 0 else 1) + lev xs ys"])
        simp_all
    then have "x = y" and "lev xs ys = 0"
      by (simp_all split: if_splits)
    with "3.IH"(3) show ?case by simp
  qed simp_all
qed simp

text \<open>One more element on either side changes the distance by at most one.\<close>

lemma lev_Cons1_le: "lev (x # xs) ys \<le> Suc (lev xs ys)"
proof (induction ys arbitrary: xs)
  case Nil
  show ?case by simp
next
  case (Cons y ys)
  then show ?case by simp
qed

lemma lev_Cons2_le: "lev xs (y # ys) \<le> Suc (lev xs ys)"
  using lev_Cons1_le [of y ys xs] by (simp add: lev_sym)

text \<open>
  The triangle inequality. Its arithmetic core is stated over plain numbers: \<open>c\<close> is
  the distance to bound, \<open>A\<close> and \<open>B\<close> the two given distances as the recursion
  computes them, and the other premises are the induction hypotheses.
\<close>

lemma triangle_core:
  fixes a1 a2 a3 b1 b2 b3 c :: nat
  assumes "c \<le> Suc p1" "c \<le> Suc p2" "c \<le> cxz + p3"
    and "p1 \<le> a1 + B" "p2 \<le> A + b2" "c \<le> a2 + b1"
    and "p2 \<le> a2 + b3" "p1 \<le> a3 + b1" "p3 \<le> a3 + b3"
    and "cxz \<le> cxy + cyz"
    and "A = min3 (Suc a1) (Suc a2) (cxy + a3)" "B = min3 (Suc b1) (Suc b2) (cyz + b3)"
  shows "c \<le> A + B"
  using assms unfolding min3_def by (auto simp: min_def split: if_splits)

lemma lev_triangle: "lev xs zs \<le> lev xs ys + lev ys zs"
proof (induction "length xs + length ys + length zs" arbitrary: xs ys zs rule: less_induct)
  case less
  show ?case
  proof (cases xs)
    case Nil
    then show ?thesis using lev_ge_length_diff2 [where xs = ys and ys = zs] by simp
  next
    case xs: (Cons x xs')
    show ?thesis
    proof (cases zs)
      case Nil
      then show ?thesis using lev_ge_length_diff [where xs = xs and ys = ys] by simp
    next
      case zs: (Cons z zs')
      show ?thesis
      proof (cases ys)
        case Nil
        then show ?thesis using lev_le_max_length [where xs = xs and ys = zs] by simp
      next
        case ys: (Cons y ys')
        have "lev xs zs \<le> Suc (lev xs' zs)" "lev xs zs \<le> Suc (lev xs zs')"
          "lev xs zs \<le> (if x = z then 0 else 1) + lev xs' zs'"
          by (simp_all add: xs zs)
        moreover
        have "lev xs' zs \<le> lev xs' ys + lev ys zs" "lev xs zs' \<le> lev xs ys + lev ys zs'"
          "lev xs zs \<le> lev xs ys' + lev ys' zs" "lev xs zs' \<le> lev xs ys' + lev ys' zs'"
          "lev xs' zs \<le> lev xs' ys' + lev ys' zs" "lev xs' zs' \<le> lev xs' ys' + lev ys' zs'"
          by (rule less; simp add: xs ys zs)+
        moreover have "(if x = z then 0 else 1)
            \<le> (if x = y then 0 else 1) + (if y = z then 0 else (1::nat))"
          by simp
        ultimately show ?thesis
          by (rule triangle_core [where ?p1.0 = "lev xs' zs" and ?p2.0 = "lev xs zs'"
                and ?p3.0 = "lev xs' zs'"]) (simp_all add: xs ys zs)
      qed
    qed
  qed
qed

section \<open>Distances under a map\<close>

text \<open>
  Applying one function to every element of both sequences cannot increase the
  distance: elements that were equal stay equal.
\<close>

lemma lev_map_le: "lev (map f xs) (map f ys) \<le> lev xs ys"
proof (induction xs ys rule: lev.induct)
  case (3 x xs y ys)
  have "(if f x = f y then 0 else 1) + lev (map f xs) (map f ys)
      \<le> (if x = y then 0 else 1) + lev xs ys"
    using "3.IH"(3) by simp
  with "3.IH"(1,2) show ?case
    by (simp only: list.map lev.simps) (rule min3_mono; simp)
qed simp_all

lemma lev_le_sum_length: "lev xs ys \<le> length xs + length ys"
  using lev_le_max_length [of xs ys] by simp

section \<open>Evaluation on concrete sequences\<close>

lemmas lev_eval [js_eval] = levenshtein_def lev_cell_def min3_def

end
