(* ===== verification/Schema.thy ===== *)
theory Schema
  imports Effects JsString Levenshtein
begin

text \<open>
  The resolvers of \<open>src/schema/schema.js\<close>, one definition per function of the source
  and composed as the source composes them:

  \<^item> \<open>users_resolve\<close> (lines 62--64), \<open>user_resolve\<close> (lines 73--127) with its callbacks
    \<open>user_found\<close> (the \<open>then\<close> of line 86), \<open>user_resolved\<close> (the \<open>then\<close> of line 112) and
    \<open>user_failed\<close> (the \<open>catch\<close> of line 121);
  \<^item> \<open>addUser_resolve\<close> (lines 143--219) with \<open>addUser_checked\<close> (the \<open>then\<close> of line
    160), \<open>addUser_resolved\<close> (the \<open>then\<close> of line 178), \<open>addUser_created\<close> (the \<open>then\<close>
    of lines 191 and 200) and \<open>addUser_failed\<close> (the \<open>catch\<close> of line 205);
  \<^item> \<open>execute\<close>: the schema of lines 224--227 as a dispatch over the three operations.

  Arguments are nullable where the source itself decides what a missing value does: the
  account number (a method call on it in lines 77 and 152) and the claimed name (a
  method call in line 180). A name the service's reply does not hold is \<open>None\<close> in
  \<open>account_name\<close>; \<open>toTitleCase\<close> and \<open>toLowerCase\<close> on it raise a \<open>TypeError\<close>.
\<close>

section \<open>Arguments\<close>

record user_args =
  user_account_number_arg :: "js_string option"
  user_bank_code_arg :: js_string

record addUser_args = user_args +
  user_account_name_arg :: "js_string option"
  is_verified_arg :: bool

section \<open>Checks and objects the resolvers build\<close>

text \<open>Line 77 and line 152: \<^verbatim>\<open>user_account_number.toString().length !== 10\<close>.\<close>

definition account_number_length_invalid :: "js_string \<Rightarrow> bool" where
  "account_number_length_invalid n \<longleftrightarrow> length n \<noteq> 10"

text \<open>Line 91: the truth value of a stored name; \<open>null\<close> and the empty string are false.\<close>

fun truthy :: "js_string option \<Rightarrow> bool" where
  "truthy None = False"
| "truthy (Some s) = (s \<noteq> [])"

definition user_where :: "js_string \<Rightarrow> js_string \<Rightarrow> where_clause" where
  "user_where n b = \<lparr>where_user_account_number = n, where_user_bank_code = Some b\<rparr>"

definition addUser_where :: "js_string \<Rightarrow> where_clause" where
  "addUser_where n = \<lparr>where_user_account_number = n, where_user_bank_code = None\<rparr>"

text \<open>Lines 107 and 173: the template literal with the environment variable.\<close>

definition authorization_header :: "world \<Rightarrow> js_string" where
  "authorization_header w =
     ''Bearer '' @ (case PAYSTACK_SECRET_KEY w of None \<Rightarrow> ''undefined'' | Some k \<Rightarrow> k)"

definition user_options :: "user \<Rightarrow> world \<Rightarrow> axios_options" where
  "user_options user w =
     \<lparr>http_method = ''GET'', url = ''https://api.paystack.co/bank/resolve'',
      params_account_number = user_account_number user,
      params_bank_code = user_bank_code user,
      headers_Authorization = authorization_header w\<rparr>"

definition addUser_options :: "js_string \<Rightarrow> js_string \<Rightarrow> world \<Rightarrow> axios_options" where
  "addUser_options n b w =
     \<lparr>http_method = ''GET'', url = ''https://api.paystack.co/bank/resolve'',
      params_account_number = n, params_bank_code = b,
      headers_Authorization = authorization_header w\<rparr>"

text \<open>Lines 180--183: the distance between the two names in lower case.\<close>

definition ld :: "js_string \<Rightarrow> js_string \<Rightarrow> nat" where
  "ld claimed resolvedAccountName =
     levenshtein (toLowerCase claimed) (toLowerCase resolvedAccountName)"

section \<open>Query \<open>users\<close>\<close>

definition users_resolve :: "user list promise" where
  "users_resolve = User_findAll"

section \<open>Query \<open>user\<close>\<close>

definition user_resolved :: "user \<Rightarrow> axios_response \<Rightarrow> user option promise" where
  "user_resolved user res =
     (case account_name res of
        None \<Rightarrow> promise_reject TypeError
      | Some resolved \<Rightarrow>
          promise_resolve (Some (user\<lparr>user_account_name := Some (toTitleCase resolved)\<rparr>)))"

definition user_failed :: "js_error \<Rightarrow> user option promise" where
  "user_failed error = promise_then (console_error error) (\<lambda>_. promise_resolve None)"

definition user_found :: "user option \<Rightarrow> user option promise" where
  "user_found found =
     (case found of
        None \<Rightarrow> promise_reject (Error USER_DOESNT_EXIST)
      | Some user \<Rightarrow>
          if truthy (user_account_name user)
          then promise_resolve
                 (Some (user\<lparr>user_account_name := map_option toTitleCase (user_account_name user)\<rparr>))
          else promise_catch
                 (promise_then (\<lambda>w. axios (user_options user w) w) (user_resolved user))
                 user_failed)"

definition user_resolve :: "user_args \<Rightarrow> user option promise" where
  "user_resolve args =
     (case user_account_number_arg args of
        None \<Rightarrow> promise_reject TypeError
      | Some n \<Rightarrow>
          if account_number_length_invalid n
          then promise_reject (Error ACCOUNT_NUMBER_LENGTH_ERROR)
          else promise_then (User_findOne (user_where n (user_bank_code_arg args))) user_found)"

section \<open>Mutation \<open>addUser\<close>\<close>

definition addUser_created :: "user \<Rightarrow> user promise" where
  "addUser_created user = promise_resolve (user\<lparr>user_id := user_id user\<rparr>)"

definition addUser_resolved :: "addUser_args \<Rightarrow> js_string \<Rightarrow> axios_response \<Rightarrow> user promise" where
  "addUser_resolved args n res =
     (case account_name res of
        None \<Rightarrow> promise_reject TypeError
      | Some resolvedAccountName \<Rightarrow>
         (case user_account_name_arg args of
            None \<Rightarrow> promise_reject TypeError
          | Some claimed \<Rightarrow>
              if ld claimed resolvedAccountName \<le> 2
              then promise_then
                     (User_create \<lparr>user_account_number = n,
                        user_bank_code = user_bank_code_arg args,
                        user_account_name = Some claimed, is_verified = True\<rparr>)
                     addUser_created
              else promise_then
                     (User_create \<lparr>user_account_number = n,
                        user_bank_code = user_bank_code_arg args,
                        user_account_name = Some claimed,
                        is_verified = is_verified_arg args\<rparr>)
                     addUser_created))"

fun error_of_failure :: "js_error \<Rightarrow> js_error" where
  "error_of_failure (AxiosError e) =
     (case response e of
        None \<Rightarrow> Error SERVER_ERROR
      | Some r \<Rightarrow>
          if status r = 422
          then (case data r of
                  NoData \<Rightarrow> TypeError
                | Data s \<Rightarrow> if s = Some False then Error INVALID_BANK_DETAILS else Error SERVER_ERROR)
          else Error SERVER_ERROR)"
| "error_of_failure _ = Error SERVER_ERROR"

definition addUser_failed :: "js_error \<Rightarrow> user promise" where
  "addUser_failed error =
     promise_then (console_error error)
       (\<lambda>_. promise_then console_log (\<lambda>_. promise_reject (error_of_failure error)))"

definition addUser_checked :: "addUser_args \<Rightarrow> js_string \<Rightarrow> user option \<Rightarrow> user promise" where
  "addUser_checked args n existingUser =
     (case existingUser of
        Some _ \<Rightarrow> promise_reject (Error USER_ALREADY_EXISTS)
      | None \<Rightarrow>
          promise_catch
            (promise_then (\<lambda>w. axios (addUser_options n (user_bank_code_arg args) w) w)
               (addUser_resolved args n))
            addUser_failed)"

definition addUser_resolve :: "addUser_args \<Rightarrow> user promise" where
  "addUser_resolve args =
     (case user_account_number_arg args of
        None \<Rightarrow> promise_reject TypeError
      | Some n \<Rightarrow>
          if account_number_length_invalid n
          then promise_reject (Error ACCOUNT_NUMBER_LENGTH_ERROR)
          else promise_then (User_findOne (addUser_where n)) (addUser_checked args n))"

section \<open>The schema\<close>

datatype operation = Users | User user_args | AddUser addUser_args

datatype result = UserList "user list" | UserResult "user option"

fun execute :: "operation \<Rightarrow> result promise" where
  "execute Users = promise_then users_resolve (\<lambda>us. promise_resolve (UserList us))"
| "execute (User args) = promise_then (user_resolve args) (\<lambda>u. promise_resolve (UserResult u))"
| "execute (AddUser args) =
     promise_then (addUser_resolve args) (\<lambda>u. promise_resolve (UserResult (Some u)))"

text \<open>Requests served one after the other, each on the world the previous one left.\<close>

fun serve :: "operation list \<Rightarrow> world \<Rightarrow> result settled list \<times> world" where
  "serve [] w = ([], w)"
| "serve (op # ops) w =
     (case execute op w of (r, w') \<Rightarrow> (case serve ops w' of (rs, w'') \<Rightarrow> (r # rs, w'')))"

section \<open>The calls a request makes\<close>

text \<open>
  \<open>new_calls p w\<close> is what running \<open>p\<close> on \<open>w\<close> appends to the trace, and \<open>kind_of\<close>
  forgets the arguments of a call.
\<close>

datatype call_kind = KFindAll | KFindOne | KCreate | KAxios | KConsoleError | KConsoleLog

fun kind_of :: "call \<Rightarrow> call_kind" where
  "kind_of FindAll = KFindAll"
| "kind_of (FindOne _) = KFindOne"
| "kind_of (Create _) = KCreate"
| "kind_of (Axios _) = KAxios"
| "kind_of (ConsoleError _) = KConsoleError"
| "kind_of ConsoleLog = KConsoleLog"

definition new_calls :: "'a promise \<Rightarrow> world \<Rightarrow> call list" where
  "new_calls p w = drop (length (trace w)) (trace (snd (p w)))"

section \<open>A concrete world\<close>

text \<open>
  The theorems with hypotheses are instantiated on this world: a table of three
  records (one with a stored name, one without, one with an empty name), a service
  that knows bank \<open>058\<close>, rejects bank \<open>000\<close> as invalid and is unreachable for any
  other bank, and that refuses a request that is not the authorised \<open>GET\<close> of the
  resolution endpoint.
\<close>

definition example_rows :: "user list" where
  "example_rows =
     [\<lparr>user_account_number = ''1111111111'', user_bank_code = ''058'',
       user_account_name = Some ''ada   obi'', is_verified = True, user_id = 1\<rparr>,
      \<lparr>user_account_number = ''2222222222'', user_bank_code = ''058'',
       user_account_name = None, is_verified = False, user_id = 2\<rparr>,
      \<lparr>user_account_number = ''3333333333'', user_bank_code = ''999'',
       user_account_name = Some [], is_verified = False, user_id = 3\<rparr>]"

definition example_paystack :: "axios_options \<Rightarrow> axios_error + axios_response" where
  "example_paystack opts =
     (if http_method opts \<noteq> ''GET'' \<or> url opts \<noteq> ''https://api.paystack.co/bank/resolve''
         \<or> headers_Authorization opts \<noteq> ''Bearer sk_test_1''
      then Inl \<lparr>response = Some \<lparr>status = 401, data = Data (Some False)\<rparr>\<rparr>
      else if params_bank_code opts = ''058'' then Inr \<lparr>account_name = Some ''JOHN DOE''\<rparr>
      else if params_bank_code opts = ''000''
      then Inl \<lparr>response = Some \<lparr>status = 422, data = Data (Some False)\<rparr>\<rparr>
      else Inl \<lparr>response = None\<rparr>)"

definition example_world :: world where
  "example_world =
     \<lparr>database = \<lparr>rows = example_rows, next_id = 4\<rparr>, db_fault = (\<lambda>_. False),
      paystack = example_paystack, PAYSTACK_SECRET_KEY = Some ''sk_test_1'', trace = []\<rparr>"

definition example_args :: "js_string \<Rightarrow> js_string \<Rightarrow> js_string \<Rightarrow> bool \<Rightarrow> addUser_args" where
  "example_args n b name v =
     \<lparr>user_account_number_arg = Some n, user_bank_code_arg = b,
      user_account_name_arg = Some name, is_verified_arg = v\<rparr>"

definition example_query :: "js_string \<Rightarrow> js_string \<Rightarrow> user_args" where
  "example_query n b = \<lparr>user_account_number_arg = Some n, user_bank_code_arg = b\<rparr>"

lemmas resolver_defs [handler_defs] =
  users_resolve_def user_resolve_def user_found_def user_resolved_def user_failed_def
  addUser_resolve_def addUser_checked_def addUser_resolved_def addUser_created_def
  addUser_failed_def

lemmas object_defs [handler_defs] =
  account_number_length_invalid_def user_where_def addUser_where_def
  authorization_header_def user_options_def addUser_options_def

lemmas run_defs = resolver_defs object_defs promise_defs call_defs create_def new_row_def

lemmas example_defs =
  example_rows_def example_paystack_def example_world_def example_args_def example_query_def
  taken_def findOne_def matches_def

section \<open>Shared facts\<close>

lemma findOne_fresh [simp]:
  "\<not> taken n d \<Longrightarrow>
     findOne \<lparr>where_user_account_number = n, where_user_bank_code = None\<rparr> d = None"
  by (simp add: findOne_number_only)

lemma not_taken_lookup:
  "findOne \<lparr>where_user_account_number = n, where_user_bank_code = None\<rparr> d = None
     \<Longrightarrow> taken n d = False"
  by (simp add: findOne_number_only)

lemma findOne_taken:
  "taken n d \<Longrightarrow>
     \<exists>u. findOne \<lparr>where_user_account_number = n, where_user_bank_code = None\<rparr> d = Some u"
  using findOne_number_only [of n d] by auto

lemma error_of_failure_range:
  "error_of_failure e \<in> {TypeError, Error INVALID_BANK_DETAILS, Error SERVER_ERROR}"
  by (cases e) (simp_all split: option.split error_data.split)

lemma addUser_failed_run:
  "addUser_failed e w =
     (Rejected (error_of_failure e), w\<lparr>trace := trace w @ [ConsoleError e, ConsoleLog]\<rparr>)"
  by (simp add: run_defs)

lemma user_failed_run:
  "user_failed e w = (Fulfilled None, w\<lparr>trace := trace w @ [ConsoleError e]\<rparr>)"
  by (simp add: run_defs)

lemma addUser_created_run: "addUser_created u w = (Fulfilled u, w)"
  by (simp add: run_defs)

section \<open>The name matcher\<close>

text \<open>
  The distance the mutation compares with 2 is the Levenshtein distance, as the
  reference recursion defines it, between the two names in lower case: the row-based
  routine that computes it is equal to the reference on all inputs.
\<close>

theorem ld_is_edit_distance: "ld a b = lev (toLowerCase a) (toLowerCase b)"
  by (simp add: ld_def levenshtein_eq_lev)

lemmas ld_lev = ld_def levenshtein_eq_lev

text \<open>
  C18: The matcher is symmetric: the distance from the claimed name to the resolved
  name is the distance from the resolved name to the claimed one.
\<close>

theorem ld_symmetric: "ld a b = ld b a"
  by (simp add: ld_lev lev_sym)

text \<open>
  C19: The matcher is case-insensitive: putting either name in upper case or in lower
  case does not change the distance. The case maps of the model are those of
  ECMAScript on ASCII letters; for a letter whose upper case is longer than one code
  unit the claim about upper case does not carry over.
\<close>

theorem ld_case_insensitive:
  "ld (toUpperCase a) b = ld a b \<and> ld a (toUpperCase b) = ld a b \<and>
   ld (toLowerCase a) b = ld a b \<and> ld a (toLowerCase b) = ld a b"
  by (simp add: ld_lev)

text \<open>
  The distance satisfies the triangle inequality, so two names that both match a
  third are at distance at most 4 from each other.
\<close>

theorem ld_triangle: "ld a c \<le> ld a b + ld b c"
  by (simp add: ld_lev lev_triangle)

text \<open>
  C20: The distance is 0 exactly when the two names are equal up to the case of their
  letters.
\<close>

theorem ld_zero_iff: "ld a b = 0 \<longleftrightarrow> toLowerCase a = toLowerCase b"
  by (simp add: ld_lev)

lemma ld_ge_length_diff: "length a - length b \<le> ld a b" "length b - length a \<le> ld a b"
  using lev_ge_length_diff [where xs = "toLowerCase a" and ys = "toLowerCase b"]
    lev_ge_length_diff2 [where xs = "toLowerCase a" and ys = "toLowerCase b"]
  by (simp_all add: ld_lev)

lemma ld_le_raw: "ld a b \<le> lev a b"
  by (simp add: ld_lev toLowerCase_def lev_map_le)

text \<open>
  Two names whose lengths differ by more than two are never matched: their
  distance exceeds the threshold.
\<close>

theorem ld_length_gap:
  assumes "length a + 2 < length b \<or> length b + 2 < length a"
  shows "\<not> ld a b \<le> 2"
  using assms ld_ge_length_diff [where a = a and b = b] by auto

lemma ld_examples:
  "ld ''John Doe'' ''JOHN DOE'' = 0" "ld ''Jon Doe'' ''John Doe'' = 1"
  "ld ''Alice Smith'' ''Bob Jones'' = 10" "ld ''Jon Doe'' ''JOHN DOE'' = 1"
  "ld ''Alice Smith'' ''JOHN DOE'' = 10"
  by (simp_all add: ld_def js_eval)

theorem ld_length_gap_witness: "\<not> ld ''Al'' ''JOHN DOE'' \<le> 2"
  using ld_length_gap [of "''Al''" "''JOHN DOE''"] by simp

text \<open>
  The specification's three examples of the matcher: \<open>John Doe\<close> against
  \<open>JOHN DOE\<close> matches at distance 0, \<open>Jon Doe\<close> against \<open>John Doe\<close> matches at
  distance 1, \<open>Alice Smith\<close> against \<open>Bob Jones\<close> does not match.
\<close>

theorem matcher_examples:
  "ld ''John Doe'' ''JOHN DOE'' = 0 \<and> ld ''Jon Doe'' ''John Doe'' = 1 \<and>
   \<not> ld ''Alice Smith'' ''Bob Jones'' \<le> 2"
  by (simp add: ld_def js_eval)

section \<open>Mutation \<open>addUser\<close>: every branch\<close>

text \<open>
  C1: When the account number has ten characters and is not yet stored, the service
  resolves a name within distance 2 of the claimed one and the storage layer is
  reachable, the mutation fulfils with a record that holds the arguments, a fresh
  identifier and \<open>is_verified = true\<close>, whatever flag the caller passed; the record is
  appended to the table, and the calls made are the lookup, the service call and the
  creation, in this order.
\<close>

theorem addUser_auto_verifies:
  assumes "user_account_number_arg a = Some n" and "length n = 10"
    and "user_account_name_arg a = Some claimed"
    and "\<not> taken n (database w)"
    and "paystack w (addUser_options n (user_bank_code_arg a) w) = Inr res"
    and "account_name res = Some resolved" and "ld claimed resolved \<le> 2"
    and "\<not> db_fault w (length (trace w))" and "\<not> db_fault w (length (trace w) + 2)"
  shows "addUser_resolve a w =
    (Fulfilled \<lparr>user_account_number = n, user_bank_code = user_bank_code_arg a,
        user_account_name = Some claimed, is_verified = True, user_id = next_id (database w)\<rparr>,
     w\<lparr>database := (database w)\<lparr>rows := rows (database w) @
            [\<lparr>user_account_number = n, user_bank_code = user_bank_code_arg a,
              user_account_name = Some claimed, is_verified = True,
              user_id = next_id (database w)\<rparr>],
          next_id := Suc (next_id (database w))\<rparr>,
        trace := trace w @
          [FindOne (addUser_where n), Axios (addUser_options n (user_bank_code_arg a) w),
           Create \<lparr>user_account_number = n, user_bank_code = user_bank_code_arg a,
              user_account_name = Some claimed, is_verified = True\<rparr>]\<rparr>)"
  using assms by (simp add: run_defs)

theorem addUser_auto_verifies_witness:
  "fst (addUser_resolve (example_args ''1234567890'' ''058'' ''Jon Doe'' False) example_world) =
     Fulfilled \<lparr>user_account_number = ''1234567890'', user_bank_code = ''058'',
        user_account_name = Some ''Jon Doe'', is_verified = True, user_id = 4\<rparr>"
  using addUser_auto_verifies [where a = "example_args ''1234567890'' ''058'' ''Jon Doe'' False"
      and w = example_world and n = "''1234567890''" and claimed = "''Jon Doe''"
      and res = "\<lparr>account_name = Some ''JOHN DOE''\<rparr>" and resolved = "''JOHN DOE''"]
  by (simp add: example_defs object_defs ld_examples)

text \<open>
  C10: Under the same conditions but with a resolved name at distance more than 2, the
  record is created with the flag the caller passed.
\<close>

theorem addUser_unverified_keeps_flag:
  assumes "user_account_number_arg a = Some n" and "length n = 10"
    and "user_account_name_arg a = Some claimed"
    and "\<not> taken n (database w)"
    and "paystack w (addUser_options n (user_bank_code_arg a) w) = Inr res"
    and "account_name res = Some resolved" and "2 < ld claimed resolved"
    and "\<not> db_fault w (length (trace w))" and "\<not> db_fault w (length (trace w) + 2)"
  shows "fst (addUser_resolve a w) =
    Fulfilled \<lparr>user_account_number = n, user_bank_code = user_bank_code_arg a,
        user_account_name = Some claimed, is_verified = is_verified_arg a,
        user_id = next_id (database w)\<rparr>"
  using assms by (simp add: run_defs)

theorem addUser_unverified_keeps_flag_witness:
  "fst (addUser_resolve (example_args ''1234567890'' ''058'' ''Alice Smith'' False) example_world) =
     Fulfilled \<lparr>user_account_number = ''1234567890'', user_bank_code = ''058'',
        user_account_name = Some ''Alice Smith'', is_verified = False, user_id = 4\<rparr>"
  using addUser_unverified_keeps_flag
      [where a = "example_args ''1234567890'' ''058'' ''Alice Smith'' False"
      and w = example_world and n = "''1234567890''" and claimed = "''Alice Smith''"
      and res = "\<lparr>account_name = Some ''JOHN DOE''\<rparr>" and resolved = "''JOHN DOE''"]
  by (simp add: example_defs object_defs ld_examples)

text \<open>
  C2: An account number that is already stored makes the mutation fail with
  \<open>USER_ALREADY_EXISTS\<close>, whatever the other arguments are; the only call made is the
  lookup, so the service is not called and the table is unchanged.
\<close>

theorem addUser_rejects_duplicate:
  assumes "user_account_number_arg a = Some n" and "length n = 10"
    and "taken n (database w)" and "\<not> db_fault w (length (trace w))"
  shows "addUser_resolve a w =
    (Rejected (Error USER_ALREADY_EXISTS), w\<lparr>trace := trace w @ [FindOne (addUser_where n)]\<rparr>)"
  using assms findOne_taken [of n "database w"] by (auto simp: run_defs)

theorem addUser_rejects_duplicate_witness:
  "fst (addUser_resolve (example_args ''1111111111'' ''044'' ''Someone Else'' True) example_world) =
     Rejected (Error USER_ALREADY_EXISTS)"
  using addUser_rejects_duplicate
      [where a = "example_args ''1111111111'' ''044'' ''Someone Else'' True"
      and w = example_world and n = "''1111111111''"]
  by (simp add: example_defs)

text \<open>
  C3: An account number whose length is not 10 makes the mutation fail with
  \<open>ACCOUNT_NUMBER_LENGTH_ERROR\<close> and leaves the world as it was: no storage call and
  no service call is made.
\<close>

theorem addUser_invalid_length:
  assumes "user_account_number_arg a = Some n" and "length n \<noteq> 10"
  shows "addUser_resolve a w = (Rejected (Error ACCOUNT_NUMBER_LENGTH_ERROR), w)"
  using assms by (simp add: run_defs)

theorem addUser_invalid_length_witness:
  "addUser_resolve (example_args ''12345'' ''058'' ''Jon Doe'' False) example_world =
     (Rejected (Error ACCOUNT_NUMBER_LENGTH_ERROR), example_world)"
  using addUser_invalid_length [where a = "example_args ''12345'' ''058'' ''Jon Doe'' False"
      and n = "''12345''" and w = example_world]
  by (simp add: example_args_def)

text \<open>
  C5: When the service rejects the bank details (a response with status 422 whose
  body has \<open>status: false\<close>), the mutation fails with \<open>INVALID_BANK_DETAILS\<close>; the calls
  made are the lookup, the service call and the two console calls, so nothing is
  created.
\<close>

theorem addUser_invalid_bank_details:
  assumes "user_account_number_arg a = Some n" and "length n = 10"
    and "\<not> taken n (database w)" and "\<not> db_fault w (length (trace w))"
    and "paystack w (addUser_options n (user_bank_code_arg a) w) = Inl e"
    and "response e = Some r" and "status r = 422" and "data r = Data (Some False)"
  shows "addUser_resolve a w =
    (Rejected (Error INVALID_BANK_DETAILS),
     w\<lparr>trace := trace w @
        [FindOne (addUser_where n), Axios (addUser_options n (user_bank_code_arg a) w),
         ConsoleError (AxiosError e), ConsoleLog]\<rparr>)"
  using assms by (simp add: run_defs)

theorem addUser_invalid_bank_details_witness:
  "fst (addUser_resolve (example_args ''1234567890'' ''000'' ''Jon Doe'' False) example_world) =
     Rejected (Error INVALID_BANK_DETAILS) \<and>
   database (snd (addUser_resolve (example_args ''1234567890'' ''000'' ''Jon Doe'' False)
     example_world)) = database example_world"
  using addUser_invalid_bank_details
      [where a = "example_args ''1234567890'' ''000'' ''Jon Doe'' False"
      and w = example_world and n = "''1234567890''"
      and e = "\<lparr>response = Some \<lparr>status = 422, data = Data (Some False)\<rparr>\<rparr>"
      and r = "\<lparr>status = 422, data = Data (Some False)\<rparr>"]
  by (simp add: example_defs object_defs)

text \<open>
  C21: Any other failure of the service call (no response at all, a status other than
  422, or a 422 whose body does not say \<open>status: false\<close>) makes the mutation fail
  with \<open>SERVER_ERROR\<close>, and nothing is created.
\<close>

theorem addUser_upstream_failure:
  assumes "user_account_number_arg a = Some n" and "length n = 10"
    and "\<not> taken n (database w)" and "\<not> db_fault w (length (trace w))"
    and "paystack w (addUser_options n (user_bank_code_arg a) w) = Inl e"
    and "case response e of None \<Rightarrow> True
         | Some r \<Rightarrow> status r \<noteq> 422 \<or> (\<exists>s. data r = Data s \<and> s \<noteq> Some False)"
  shows "addUser_resolve a w =
    (Rejected (Error SERVER_ERROR),
     w\<lparr>trace := trace w @
        [FindOne (addUser_where n), Axios (addUser_options n (user_bank_code_arg a) w),
         ConsoleError (AxiosError e), ConsoleLog]\<rparr>)"
  using assms by (auto simp: run_defs split: option.splits)

theorem addUser_upstream_failure_witness:
  "fst (addUser_resolve (example_args ''1234567890'' ''999'' ''Jon Doe'' False) example_world) =
     Rejected (Error SERVER_ERROR)"
  using addUser_upstream_failure
      [where a = "example_args ''1234567890'' ''999'' ''Jon Doe'' False"
      and w = example_world and n = "''1234567890''" and e = "\<lparr>response = None\<rparr>"]
  by (simp add: example_defs object_defs)

text \<open>
  C22: When the creation itself fails because the storage layer is unreachable, the
  \<open>catch\<close> of the service call receives the storage error and the mutation fails with
  \<open>SERVER_ERROR\<close>; the table is unchanged.
\<close>

theorem addUser_create_failure:
  assumes "user_account_number_arg a = Some n" and "length n = 10"
    and "user_account_name_arg a = Some claimed"
    and "\<not> taken n (database w)" and "\<not> db_fault w (length (trace w))"
    and "paystack w (addUser_options n (user_bank_code_arg a) w) = Inr res"
    and "account_name res = Some resolved"
    and "db_fault w (length (trace w) + 2)"
  shows "fst (addUser_resolve a w) = Rejected (Error SERVER_ERROR)
     \<and> database (snd (addUser_resolve a w)) = database w"
  using assms by (simp add: run_defs)

theorem addUser_create_failure_witness:
  "fst (addUser_resolve (example_args ''1234567890'' ''058'' ''Jon Doe'' False)
     (example_world\<lparr>db_fault := (\<lambda>i. i = 2)\<rparr>)) = Rejected (Error SERVER_ERROR)"
  using addUser_create_failure
      [where a = "example_args ''1234567890'' ''058'' ''Jon Doe'' False"
      and w = "example_world\<lparr>db_fault := (\<lambda>i. i = 2)\<rparr>" and n = "''1234567890''"
      and claimed = "''Jon Doe''"
      and res = "\<lparr>account_name = Some ''JOHN DOE''\<rparr>" and resolved = "''JOHN DOE''"]
  by (simp add: example_defs object_defs)

text \<open>
  C23: A request without a claimed name passes the length check and the duplicate
  check, calls the service, and only then fails, with \<open>SERVER_ERROR\<close>: the method call
  on the missing name raises inside the \<open>then\<close> callback, and the \<open>catch\<close> reports
  every error that is not a rejection by the service as a server error.
\<close>

theorem addUser_missing_name:
  assumes "user_account_number_arg a = Some n" and "length n = 10"
    and "user_account_name_arg a = None"
    and "\<not> taken n (database w)" and "\<not> db_fault w (length (trace w))"
    and "paystack w (addUser_options n (user_bank_code_arg a) w) = Inr res"
  shows "addUser_resolve a w =
    (Rejected (Error SERVER_ERROR),
     w\<lparr>trace := trace w @
        [FindOne (addUser_where n), Axios (addUser_options n (user_bank_code_arg a) w),
         ConsoleError TypeError, ConsoleLog]\<rparr>)"
  using assms by (simp add: run_defs split: option.split)

theorem addUser_missing_name_witness:
  "fst (addUser_resolve
     ((example_args ''1234567890'' ''058'' [] False)\<lparr>user_account_name_arg := None\<rparr>)
     example_world) = Rejected (Error SERVER_ERROR)"
  using addUser_missing_name
      [where a = "(example_args ''1234567890'' ''058'' [] False)\<lparr>user_account_name_arg := None\<rparr>"
      and w = example_world and n = "''1234567890''"
      and res = "\<lparr>account_name = Some ''JOHN DOE''\<rparr>"]
  by (simp add: example_defs object_defs)

text \<open>
  When the duplicate lookup fails because the storage layer is unreachable, the
  mutation rejects with the storage layer's own error, not with one of the messages
  of \<open>errorName\<close>: the lookup is outside the \<open>catch\<close>. No service call is made.
\<close>

theorem addUser_lookup_failure:
  assumes "user_account_number_arg a = Some n" and "length n = 10"
    and "db_fault w (length (trace w))"
  shows "addUser_resolve a w =
    (Rejected (SequelizeError ConnectionError),
     w\<lparr>trace := trace w @ [FindOne (addUser_where n)]\<rparr>)"
  using assms by (simp add: run_defs)

theorem addUser_lookup_failure_witness:
  "fst (addUser_resolve (example_args ''1234567890'' ''058'' ''Jon Doe'' False)
     (example_world\<lparr>db_fault := (\<lambda>i. i = 0)\<rparr>)) = Rejected (SequelizeError ConnectionError)"
  using addUser_lookup_failure
      [where a = "example_args ''1234567890'' ''058'' ''Jon Doe'' False"
      and w = "example_world\<lparr>db_fault := (\<lambda>i. i = 0)\<rparr>" and n = "''1234567890''"]
  by (simp add: example_defs)

text \<open>
  C34: A response with status 422 and no body makes the \<open>catch\<close> callback itself
  raise: the mutation rejects with a \<open>TypeError\<close>, which is none of the messages of
  \<open>errorName\<close>.
\<close>

theorem addUser_malformed_rejection:
  assumes "user_account_number_arg a = Some n" and "length n = 10"
    and "\<not> taken n (database w)" and "\<not> db_fault w (length (trace w))"
    and "paystack w (addUser_options n (user_bank_code_arg a) w) = Inl e"
    and "response e = Some r" and "status r = 422" and "data r = NoData"
  shows "fst (addUser_resolve a w) = Rejected TypeError"
  using assms by (simp add: run_defs)

theorem addUser_malformed_rejection_witness:
  "fst (addUser_resolve (example_args ''1234567890'' ''058'' ''Jon Doe'' False)
     (example_world\<lparr>paystack := (\<lambda>_. Inl \<lparr>response = Some \<lparr>status = 422, data = NoData\<rparr>\<rparr>)\<rparr>))
   = Rejected TypeError"
  using addUser_malformed_rejection
      [where a = "example_args ''1234567890'' ''058'' ''Jon Doe'' False"
      and w = "example_world\<lparr>paystack := (\<lambda>_. Inl \<lparr>response = Some \<lparr>status = 422, data = NoData\<rparr>\<rparr>)\<rparr>"
      and n = "''1234567890''"
      and e = "\<lparr>response = Some \<lparr>status = 422, data = NoData\<rparr>\<rparr>"
      and r = "\<lparr>status = 422, data = NoData\<rparr>"]
  by (simp add: example_defs)

section \<open>Mutation \<open>addUser\<close>: all branches at once\<close>

text \<open>
  The mutation in normal form: its settlement and the world it leaves, as one
  expression over the arguments, the table, the service's answer and the availability
  of the storage layer. Every path through the resolver and its four callbacks is one
  branch; the promise combinators are gone. The stored flag is the disjunction of
  "the names match" and the caller's flag, and the uniqueness check inside the
  creation is never the one that fails.
\<close>

lemma addUser_resolve_run:
  "addUser_resolve a w =
    (case user_account_number_arg a of
       None \<Rightarrow> (Rejected TypeError, w)
     | Some n \<Rightarrow>
        if length n \<noteq> 10 then (Rejected (Error ACCOUNT_NUMBER_LENGTH_ERROR), w)
        else if db_fault w (length (trace w))
        then (Rejected (SequelizeError ConnectionError),
              w\<lparr>trace := trace w @ [FindOne (addUser_where n)]\<rparr>)
        else if findOne (addUser_where n) (database w) \<noteq> None
        then (Rejected (Error USER_ALREADY_EXISTS),
              w\<lparr>trace := trace w @ [FindOne (addUser_where n)]\<rparr>)
        else (let opts = addUser_options n (user_bank_code_arg a) w;
                  failed = (\<lambda>e cs. (Rejected (error_of_failure e),
                     w\<lparr>trace := trace w @ [FindOne (addUser_where n), Axios opts] @ cs
                          @ [ConsoleError e, ConsoleLog]\<rparr>))
              in case paystack w opts of
                Inl e \<Rightarrow> failed (AxiosError e) []
              | Inr res \<Rightarrow>
                 (case (account_name res, user_account_name_arg a) of
                    (Some resolved, Some claimed) \<Rightarrow>
                      (let v = \<lparr>user_account_number = n, user_bank_code = user_bank_code_arg a,
                                user_account_name = Some claimed,
                                is_verified = (ld claimed resolved \<le> 2 \<or> is_verified_arg a)\<rparr>
                       in if db_fault w (length (trace w) + 2)
                          then failed (SequelizeError ConnectionError) [Create v]
                          else (Fulfilled (new_row v (next_id (database w))),
                                w\<lparr>database := (database w)\<lparr>rows := rows (database w) @
                                       [new_row v (next_id (database w))],
                                     next_id := Suc (next_id (database w))\<rparr>,
                                  trace := trace w @
                                    [FindOne (addUser_where n), Axios opts, Create v]\<rparr>))
                  | _ \<Rightarrow> failed TypeError [])))"
  by (simp add: run_defs Let_def not_taken_lookup split: option.split sum.split)

text \<open>
  C6: Creation is all or nothing. When the mutation fulfils with a record, the table
  is the old table with exactly that record appended and the counter advanced by one;
  when it rejects, for whatever reason, the table is unchanged.
\<close>

theorem addUser_all_or_nothing:
  "case addUser_resolve a w of
     (Fulfilled r, w') \<Rightarrow>
        database w' = (database w)\<lparr>rows := rows (database w) @ [r],
                                   next_id := Suc (next_id (database w))\<rparr>
   | (Rejected e, w') \<Rightarrow> database w' = database w"
  by (simp add: run_defs split: option.split sum.split)

lemma addUser_fulfilledE:
  assumes "addUser_resolve a w = (Fulfilled r, w')"
  obtains n claimed res resolved where
    "user_account_number_arg a = Some n" and "length n = 10"
    and "user_account_name_arg a = Some claimed"
    and "paystack w (addUser_options n (user_bank_code_arg a) w) = Inr res"
    and "account_name res = Some resolved"
    and "r = \<lparr>user_account_number = n, user_bank_code = user_bank_code_arg a,
           user_account_name = Some claimed,
           is_verified = (ld claimed resolved \<le> 2 \<or> is_verified_arg a),
           user_id = next_id (database w)\<rparr>"
    and "create \<lparr>user_account_number = n, user_bank_code = user_bank_code_arg a,
           user_account_name = Some claimed,
           is_verified = (ld claimed resolved \<le> 2 \<or> is_verified_arg a)\<rparr> (database w)
         = Inr (r, database w')"
    and "trace w' = trace w @ [FindOne (addUser_where n),
           Axios (addUser_options n (user_bank_code_arg a) w),
           Create \<lparr>user_account_number = n, user_bank_code = user_bank_code_arg a,
             user_account_name = Some claimed,
             is_verified = (ld claimed resolved \<le> 2 \<or> is_verified_arg a)\<rparr>]"
  using assms
  by (auto simp: addUser_resolve_run Let_def create_def new_row_def addUser_where_def
      not_taken_lookup split: option.splits sum.splits if_splits)

text \<open>
  C35: Auto-verification is sound. A record the mutation creates holds the arguments
  of the request, and its flag is true exactly when the claimed name is within
  distance 2 of the name the service resolved for the request's account number and
  bank code, or the caller passed the flag: a caller who passes \<open>false\<close> gets a
  verified record only for a matching name.
\<close>

theorem addUser_fulfilled_sound:
  assumes "fst (addUser_resolve a w) = Fulfilled r"
  shows "\<exists>n claimed res resolved.
     user_account_number_arg a = Some n \<and> length n = 10 \<and>
     user_account_name_arg a = Some claimed \<and>
     paystack w (addUser_options n (user_bank_code_arg a) w) = Inr res \<and>
     account_name res = Some resolved \<and>
     user_account_number r = n \<and> user_bank_code r = user_bank_code_arg a \<and>
     user_account_name r = Some claimed \<and>
     is_verified r = (ld claimed resolved \<le> 2 \<or> is_verified_arg a)"
proof -
  from assms have "addUser_resolve a w = (Fulfilled r, snd (addUser_resolve a w))"
    by (simp add: prod_eq_iff)
  then show ?thesis
    by (rule addUser_fulfilledE) fastforce
qed

lemma example_addUser:
  "addUser_resolve (example_args ''1234567890'' ''058'' ''Jon Doe'' False) example_world =
    (Fulfilled \<lparr>user_account_number = ''1234567890'', user_bank_code = ''058'',
        user_account_name = Some ''Jon Doe'', is_verified = True, user_id = 4\<rparr>,
     example_world\<lparr>database := \<lparr>rows = example_rows @
          [\<lparr>user_account_number = ''1234567890'', user_bank_code = ''058'',
            user_account_name = Some ''Jon Doe'', is_verified = True, user_id = 4\<rparr>],
          next_id = 5\<rparr>,
        trace := [FindOne (addUser_where ''1234567890''),
          Axios (addUser_options ''1234567890'' ''058'' example_world),
          Create \<lparr>user_account_number = ''1234567890'', user_bank_code = ''058'',
            user_account_name = Some ''Jon Doe'', is_verified = True\<rparr>]\<rparr>)"
  by (simp add: run_defs example_defs ld_examples)

theorem addUser_fulfilled_sound_witness:
  "\<exists>n claimed res resolved.
     user_account_number_arg (example_args ''1234567890'' ''058'' ''Jon Doe'' False) = Some n \<and>
     length n = 10 \<and>
     user_account_name_arg (example_args ''1234567890'' ''058'' ''Jon Doe'' False) = Some claimed \<and>
     paystack example_world (addUser_options n ''058'' example_world) = Inr res \<and>
     account_name res = Some resolved \<and> (ld claimed resolved \<le> 2 \<or> False)"
  using addUser_fulfilled_sound [where a = "example_args ''1234567890'' ''058'' ''Jon Doe'' False"
      and w = example_world
      and r = "\<lparr>user_account_number = ''1234567890'', user_bank_code = ''058'',
        user_account_name = Some ''Jon Doe'', is_verified = True, user_id = 4\<rparr>"]
  by (simp add: example_addUser) (simp add: example_args_def)

lemma addUser_errors_cases:
  "case fst (addUser_resolve a w) of
     Fulfilled r \<Rightarrow> True
   | Rejected e \<Rightarrow>
       e \<in> {TypeError, Error ACCOUNT_NUMBER_LENGTH_ERROR, Error USER_ALREADY_EXISTS,
            Error INVALID_BANK_DETAILS, Error SERVER_ERROR, SequelizeError ConnectionError}"
  using error_of_failure_range
  by (auto simp: addUser_resolve_run Let_def simp del: error_of_failure.simps
      split: option.split sum.split)

text \<open>
  C24: The errors the mutation can reject with: the four messages of \<open>errorName\<close> it
  throws, a \<open>TypeError\<close> (a missing account number, or a 422 without a body), and the
  storage layer's connection error from the duplicate lookup. In particular it never
  rejects with \<open>USER_DOESNT_EXIST\<close>, with a raw failure of the HTTP client or with a
  violation of the uniqueness constraint.
\<close>

theorem addUser_errors:
  assumes "fst (addUser_resolve a w) = Rejected e"
  shows "e \<in> {TypeError, Error ACCOUNT_NUMBER_LENGTH_ERROR, Error USER_ALREADY_EXISTS,
          Error INVALID_BANK_DETAILS, Error SERVER_ERROR, SequelizeError ConnectionError}"
  using assms addUser_errors_cases [of a w] by simp

theorem addUser_errors_witness:
  "fst (addUser_resolve (example_args ''12345'' ''058'' ''Jon Doe'' False) example_world) =
     Rejected (Error ACCOUNT_NUMBER_LENGTH_ERROR) \<and>
   Error ACCOUNT_NUMBER_LENGTH_ERROR \<in>
     {TypeError, Error ACCOUNT_NUMBER_LENGTH_ERROR, Error USER_ALREADY_EXISTS,
      Error INVALID_BANK_DETAILS, Error SERVER_ERROR, SequelizeError ConnectionError}"
  using addUser_errors [where a = "example_args ''12345'' ''058'' ''Jon Doe'' False"
      and w = example_world and e = "Error ACCOUNT_NUMBER_LENGTH_ERROR"]
  by (simp add: run_defs example_args_def)

text \<open>
  C26: The order of the external calls of the mutation. What one request appends to
  the trace is one of five sequences: nothing; the lookup alone; lookup, service call,
  creation; lookup, service call, the two console calls; lookup, service call,
  creation and the two console calls. So each request makes at most one service call,
  after the lookup, and at most one creation, after the service call.
\<close>

theorem addUser_call_order:
  "map kind_of (new_calls (addUser_resolve a) w) \<in>
     {[], [KFindOne], [KFindOne, KAxios, KCreate],
      [KFindOne, KAxios, KConsoleError, KConsoleLog],
      [KFindOne, KAxios, KCreate, KConsoleError, KConsoleLog]}"
  by (simp add: new_calls_def addUser_resolve_run Let_def split: option.split sum.split)

section \<open>Relations across the resolvers\<close>

lemma across_axios_with_world:
  "(\<And>opts. across R (axios opts)) \<Longrightarrow> across R (\<lambda>w. axios (f w) w)"
  by (simp add: across_def)

lemma across_users_resolve: "across R User_findAll \<Longrightarrow> across R users_resolve"
  by (simp add: users_resolve_def)

lemma across_user_resolve:
  assumes "preorder_on_worlds R" and "\<And>wh. across R (User_findOne wh)"
    and "\<And>opts. across R (axios opts)" and "\<And>e. across R (console_error e)"
  shows "across R (user_resolve a)"
  unfolding user_resolve_def user_found_def user_resolved_def user_failed_def
  by (auto split: option.split
      intro!: across_then across_catch across_resolve across_reject across_axios_with_world assms)

lemma across_addUser_resolve:
  assumes "preorder_on_worlds R" and "\<And>wh. across R (User_findOne wh)"
    and "\<And>v. across R (User_create v)"
    and "\<And>opts. across R (axios opts)" and "\<And>e. across R (console_error e)"
    and "across R console_log"
  shows "across R (addUser_resolve a)"
  unfolding addUser_resolve_def addUser_checked_def addUser_resolved_def addUser_failed_def
    addUser_created_def
  by (auto split: option.split
      intro!: across_then across_catch across_resolve across_reject across_axios_with_world assms)

lemma across_execute:
  assumes "preorder_on_worlds R" and "across R User_findAll"
    and "\<And>wh. across R (User_findOne wh)" and "\<And>v. across R (User_create v)"
    and "\<And>opts. across R (axios opts)" and "\<And>e. across R (console_error e)"
    and "across R console_log"
  shows "across R (execute op)"
  by (cases op)
     (auto intro!: across_then across_resolve across_users_resolve across_user_resolve
        across_addUser_resolve assms)

lemma serve_across:
  assumes R: "preorder_on_worlds R" and ex: "\<And>op. across R (execute op)"
  shows "R w (snd (serve ops w))"
proof (induction ops arbitrary: w)
  case Nil
  from R show ?case by (simp add: preorder_on_worlds_def)
next
  case (Cons op ops)
  obtain r w' where 1: "execute op w = (r, w')" by (cases "execute op w")
  obtain rs w'' where 2: "serve ops w' = (rs, w'')" by (cases "serve ops w'")
  from ex [of op] 1 have "R w w'" by (auto dest: acrossD [where w = w])
  moreover from Cons.IH [of w'] 2 have "R w' w''" by simp
  ultimately have "R w w''" using R unfolding preorder_on_worlds_def by blast
  with 1 2 show ?case by simp
qed

text \<open>
  The mutation keeps the invariant of the table on every branch: if account
  numbers and identifiers are unique and the identifiers are below the counter
  before the request, they are so after it.
\<close>

theorem addUser_keeps_db_ok:
  assumes "db_ok (database w)"
  shows "db_ok (database (snd (addUser_resolve a w)))"
  using assms across_addUser_resolve [of keeps_ok a, THEN acrossD, of w]
  by (simp add: preorders keeps_ok_calls keeps_ok_def)

lemma db_ok_example: "db_ok (database example_world)"
  by (simp add: example_world_def example_rows_def db_ok_def)

theorem addUser_keeps_db_ok_witness:
  "db_ok (database (snd (addUser_resolve
     (example_args ''1234567890'' ''058'' ''Jon Doe'' False) example_world)))"
  using addUser_keeps_db_ok [OF db_ok_example] .

section \<open>Query \<open>user\<close>\<close>

text \<open>
  The query in normal form: its settlement and the world it leaves, as one
  expression over the arguments, the table and the service's answer. Once a record is
  found the query always fulfils: with the record, or with \<open>null\<close> when the name
  could not be resolved.
\<close>

lemma user_resolve_run:
  "user_resolve a w =
    (case user_account_number_arg a of
       None \<Rightarrow> (Rejected TypeError, w)
     | Some n \<Rightarrow>
        if length n \<noteq> 10 then (Rejected (Error ACCOUNT_NUMBER_LENGTH_ERROR), w)
        else if db_fault w (length (trace w))
        then (Rejected (SequelizeError ConnectionError),
              w\<lparr>trace := trace w @ [FindOne (user_where n (user_bank_code_arg a))]\<rparr>)
        else (case findOne (user_where n (user_bank_code_arg a)) (database w) of
           None \<Rightarrow> (Rejected (Error USER_DOESNT_EXIST),
                    w\<lparr>trace := trace w @ [FindOne (user_where n (user_bank_code_arg a))]\<rparr>)
         | Some u \<Rightarrow>
            if truthy (user_account_name u)
            then (Fulfilled (Some (u\<lparr>user_account_name :=
                      map_option toTitleCase (user_account_name u)\<rparr>)),
                  w\<lparr>trace := trace w @ [FindOne (user_where n (user_bank_code_arg a))]\<rparr>)
            else (case paystack w (user_options u w) of
               Inl e \<Rightarrow> (Fulfilled None,
                    w\<lparr>trace := trace w @ [FindOne (user_where n (user_bank_code_arg a)),
                        Axios (user_options u w), ConsoleError (AxiosError e)]\<rparr>)
             | Inr res \<Rightarrow>
                (case account_name res of
                   None \<Rightarrow> (Fulfilled None,
                      w\<lparr>trace := trace w @ [FindOne (user_where n (user_bank_code_arg a)),
                        Axios (user_options u w), ConsoleError TypeError]\<rparr>)
                 | Some resolved \<Rightarrow>
                     (Fulfilled (Some (u\<lparr>user_account_name := Some (toTitleCase resolved)\<rparr>)),
                      w\<lparr>trace := trace w @ [FindOne (user_where n (user_bank_code_arg a)),
                        Axios (user_options u w)]\<rparr>)))))"
  by (simp add: run_defs split: option.split sum.split)

text \<open>
  C4: An account number whose length is not 10 makes the query fail with
  \<open>ACCOUNT_NUMBER_LENGTH_ERROR\<close> and leaves the world as it was: no storage call and
  no service call is made.
\<close>

theorem user_invalid_length:
  assumes "user_account_number_arg a = Some n" and "length n \<noteq> 10"
  shows "user_resolve a w = (Rejected (Error ACCOUNT_NUMBER_LENGTH_ERROR), w)"
  using assms by (simp add: run_defs)

theorem user_invalid_length_witness:
  "user_resolve (example_query ''12345678901'' ''058'') example_world =
     (Rejected (Error ACCOUNT_NUMBER_LENGTH_ERROR), example_world)"
  using user_invalid_length [where a = "example_query ''12345678901'' ''058''"
      and n = "''12345678901''" and w = example_world]
  by (simp add: example_query_def)

text \<open>
  C25: When no record has the account number and the bank code of the request, the
  query fails with \<open>USER_DOESNT_EXIST\<close> after the lookup; the service is not called.
\<close>

theorem user_not_found:
  assumes "user_account_number_arg a = Some n" and "length n = 10"
    and "\<not> db_fault w (length (trace w))"
    and "findOne (user_where n (user_bank_code_arg a)) (database w) = None"
  shows "user_resolve a w =
    (Rejected (Error USER_DOESNT_EXIST),
     w\<lparr>trace := trace w @ [FindOne (user_where n (user_bank_code_arg a))]\<rparr>)"
  using assms by (simp add: run_defs)

theorem user_not_found_witness:
  "fst (user_resolve (example_query ''1111111111'' ''044'') example_world) =
     Rejected (Error USER_DOESNT_EXIST)"
  using user_not_found [where a = "example_query ''1111111111'' ''044''"
      and n = "''1111111111''" and w = example_world]
  by (simp add: example_defs user_where_def)

text \<open>
  C9: When the record found carries a non-empty name, the query returns the record
  with that name in title case; the only call made is the lookup, so the service is
  not called.
\<close>

theorem user_stored_name:
  assumes "user_account_number_arg a = Some n" and "length n = 10"
    and "\<not> db_fault w (length (trace w))"
    and "findOne (user_where n (user_bank_code_arg a)) (database w) = Some u"
    and "user_account_name u = Some name" and "name \<noteq> []"
  shows "user_resolve a w =
    (Fulfilled (Some (u\<lparr>user_account_name := Some (toTitleCase name)\<rparr>)),
     w\<lparr>trace := trace w @ [FindOne (user_where n (user_bank_code_arg a))]\<rparr>)"
  using assms by (simp add: run_defs)

theorem user_stored_name_witness:
  "fst (user_resolve (example_query ''1111111111'' ''058'') example_world) =
     Fulfilled (Some \<lparr>user_account_number = ''1111111111'', user_bank_code = ''058'',
       user_account_name = Some ''Ada   Obi'', is_verified = True, user_id = 1\<rparr>)"
  using user_stored_name [where a = "example_query ''1111111111'' ''058''"
      and n = "''1111111111''" and w = example_world and u = "hd example_rows"
      and name = "''ada   obi''"]
  by (simp add: example_defs user_where_def js_eval)

text \<open>
  C7: When the record found carries no name (or an empty one) and the service resolves
  one, the query makes exactly one service call, for the stored account number and
  bank code, and returns the record with the resolved name in title case; the table
  is not written, so the resolved name is not persisted.
\<close>

theorem user_resolves_missing_name:
  assumes "user_account_number_arg a = Some n" and "length n = 10"
    and "\<not> db_fault w (length (trace w))"
    and "findOne (user_where n (user_bank_code_arg a)) (database w) = Some u"
    and "\<not> truthy (user_account_name u)"
    and "paystack w (user_options u w) = Inr res" and "account_name res = Some resolved"
  shows "user_resolve a w =
    (Fulfilled (Some (u\<lparr>user_account_name := Some (toTitleCase resolved)\<rparr>)),
     w\<lparr>trace := trace w @
        [FindOne (user_where n (user_bank_code_arg a)), Axios (user_options u w)]\<rparr>)"
  using assms by (simp add: run_defs)

theorem user_resolves_missing_name_witness:
  "fst (user_resolve (example_query ''2222222222'' ''058'') example_world) =
     Fulfilled (Some \<lparr>user_account_number = ''2222222222'', user_bank_code = ''058'',
       user_account_name = Some ''John Doe'', is_verified = False, user_id = 2\<rparr>)"
  using user_resolves_missing_name [where a = "example_query ''2222222222'' ''058''"
      and n = "''2222222222''" and w = example_world and u = "example_rows ! 1"
      and res = "\<lparr>account_name = Some ''JOHN DOE''\<rparr>" and resolved = "''JOHN DOE''"]
  by (simp add: example_defs object_defs js_eval)

text \<open>
  C8: When the record found carries no name and the service call fails, the query does
  not fail: it logs the error and fulfils with \<open>null\<close> in place of the record.
\<close>

theorem user_swallows_failure:
  assumes "user_account_number_arg a = Some n" and "length n = 10"
    and "\<not> db_fault w (length (trace w))"
    and "findOne (user_where n (user_bank_code_arg a)) (database w) = Some u"
    and "\<not> truthy (user_account_name u)"
    and "paystack w (user_options u w) = Inl e"
  shows "user_resolve a w =
    (Fulfilled None,
     w\<lparr>trace := trace w @
        [FindOne (user_where n (user_bank_code_arg a)), Axios (user_options u w),
         ConsoleError (AxiosError e)]\<rparr>)"
  using assms by (simp add: run_defs)

theorem user_swallows_failure_witness:
  "fst (user_resolve (example_query ''3333333333'' ''999'') example_world) = Fulfilled None"
  using user_swallows_failure [where a = "example_query ''3333333333'' ''999''"
      and n = "''3333333333''" and w = example_world and u = "example_rows ! 2"
      and e = "\<lparr>response = None\<rparr>"]
  by (simp add: example_defs object_defs)

text \<open>
  Once the lookup has found a record, the query always fulfils, with the record or
  with \<open>null\<close>: no failure of the service and no malformed reply makes it reject.
\<close>

theorem user_found_fulfils:
  assumes "user_account_number_arg a = Some n" and "length n = 10"
    and "\<not> db_fault w (length (trace w))"
    and "findOne (user_where n (user_bank_code_arg a)) (database w) = Some u"
  shows "\<exists>x. fst (user_resolve a w) = Fulfilled x"
  using assms by (simp add: user_resolve_run split: sum.split option.split)

theorem user_found_fulfils_witness:
  "\<exists>x. fst (user_resolve (example_query ''3333333333'' ''999'') example_world) = Fulfilled x"
  using user_found_fulfils [where a = "example_query ''3333333333'' ''999''"
      and n = "''3333333333''" and w = example_world and u = "example_rows ! 2"]
  by (simp add: example_defs user_where_def)


text \<open>
  C17: The query never writes the table, on any branch.
\<close>

theorem user_read_only: "database (snd (user_resolve a w)) = database w"
  using across_user_resolve [of same_table a, THEN acrossD, of w]
  by (simp add: preorders same_table_calls same_table_def)

text \<open>
  C27: The order of the external calls of the query. What one request appends to the
  trace is one of four sequences: nothing; the lookup alone; the lookup and the
  service call; the lookup, the service call and the console call.
\<close>

theorem user_call_order:
  "map kind_of (new_calls (user_resolve a) w) \<in>
     {[], [KFindOne], [KFindOne, KAxios], [KFindOne, KAxios, KConsoleError]}"
  by (simp add: new_calls_def user_resolve_run split: option.split sum.split)

section \<open>Query \<open>users\<close>\<close>

text \<open>
  With the storage layer reachable, the query \<open>users\<close> returns the whole table in
  storage order with one storage call.
\<close>

theorem users_lists_table:
  assumes "\<not> db_fault w (length (trace w))"
  shows "users_resolve w = (Fulfilled (rows (database w)), w\<lparr>trace := trace w @ [FindAll]\<rparr>)"
  using assms by (simp add: run_defs findAll_def)

theorem users_lists_table_witness:
  "fst (users_resolve example_world) = Fulfilled example_rows"
  using users_lists_table [of example_world] by (simp add: example_world_def)

section \<open>Missing account number\<close>

text \<open>
  C33: A request without an account number makes the query and the mutation reject
  with a \<open>TypeError\<close>, raised by the length check itself, before any call.
\<close>

theorem missing_account_number:
  assumes "user_account_number_arg a = None" and "user_account_number_arg b = None"
  shows "user_resolve a w = (Rejected TypeError, w) \<and> addUser_resolve b w = (Rejected TypeError, w)"
  using assms by (simp add: run_defs)

theorem missing_account_number_witness:
  "user_resolve ((example_query [] ''058'')\<lparr>user_account_number_arg := None\<rparr>) example_world
     = (Rejected TypeError, example_world)"
  using missing_account_number
      [where a = "(example_query [] ''058'')\<lparr>user_account_number_arg := None\<rparr>"
      and b = "(example_args [] ''058'' [] False)\<lparr>user_account_number_arg := None\<rparr>"
      and w = example_world]
  by (simp add: example_query_def example_args_def)

section \<open>Sequences of requests\<close>

text \<open>
  Serving any sequence of requests, one after the other, keeps the invariant of
  the table: account numbers stay unique whatever is requested and whatever the
  service and the storage layer answer.
\<close>

theorem serve_keeps_db_ok:
  assumes "db_ok (database w)"
  shows "db_ok (database (snd (serve ops w)))"
  using assms serve_across [of keeps_ok w ops]
  by (simp add: preorders keeps_ok_calls keeps_ok_def across_execute)

theorem serve_keeps_db_ok_witness:
  "db_ok (database (snd (serve
     [AddUser (example_args ''1234567890'' ''058'' ''Jon Doe'' False),
      AddUser (example_args ''1234567890'' ''058'' ''Jon Doe'' False), Users] example_world)))"
  using serve_keeps_db_ok [OF db_ok_example] .

text \<open>
  Records are only ever appended: after any sequence of requests the old table is
  a prefix of the new one, so no request updates or deletes a record.
\<close>

theorem serve_table_grows: "prefix (rows (database w)) (rows (database (snd (serve ops w))))"
  using serve_across [of table_grows w ops]
  by (simp add: preorders table_grows_calls table_grows_def across_execute)

text \<open>
  No sequence of requests changes the environment (the service, the credential,
  the availability of the storage layer), and the trace of calls only grows.
\<close>

theorem serve_frame:
  "db_fault (snd (serve ops w)) = db_fault w \<and> paystack (snd (serve ops w)) = paystack w \<and>
   PAYSTACK_SECRET_KEY (snd (serve ops w)) = PAYSTACK_SECRET_KEY w \<and>
   prefix (trace w) (trace (snd (serve ops w)))"
  using serve_across [of frame w ops]
  by (simp add: preorders frame_calls across_execute frame_def)

end
