(* ===== verification/Interleaving.thy ===== *)
theory Interleaving
  imports Schema
begin

text \<open>
  Requests in flight. Node runs one callback at a time, and a resolver gives up control
  at each call that returns a promise: \<open>User.findOne\<close> (lines 81 and 156 of
  \<open>src/schema/schema.js\<close>), \<open>axios\<close> (lines 111 and 177), \<open>User.create\<close> (lines 186 and
  195) and \<open>User.findAll\<close> (line 63). Between two such points the code of one request
  runs without interruption; at such a point any other request may run. Theory
  \<open>Schema\<close> runs each resolver from its first line to its settlement; this theory
  cuts the same code at its waiting points.

  \<^item> A \<open>task\<close> is a request together with the place where it waits: not started, waiting
    for the duplicate lookup, for the service, for the creation, or settled. \<open>resume\<close>
    completes the call a task waits for and runs the callback up to the next call;
    the call takes effect on the table at that moment.
  \<^item> A \<open>pool\<close> is the list of the tasks and the world they share. \<open>resumes\<close> lets any
    unfinished task take its next step, \<open>step\<close> also lets a new request arrive, and
    \<open>run\<close> follows a schedule given as a list of task indices.
  \<^item> The refinement theorem links the two theories: a task resumed four times in a row
    is the resolver of theory \<open>Schema\<close>. Four is the length of the longest chain:
    start, lookup, service, creation.
  \<^item> The invariants of the table hold in every pool that any interleaving reaches; every
    interleaving ends; a schedule that resumes every task four times settles them all;
    the schedule that serves the requests one after the other is \<open>serve\<close>.
  \<^item> The last section is the race of two mutations for one account number: both pass
    the duplicate lookup, the first creation wins, and the second is refused by the
    uniqueness constraint of the table and reported as \<open>SERVER_ERROR\<close>.
\<close>

section \<open>Tasks\<close>

text \<open>
  The waiting points of the three resolvers, with the variables the remaining callbacks
  still read: \<open>L_findAll\<close> is line 63; \<open>U_findOne\<close> line 81 and \<open>U_axios\<close> line 111 of
  the query; \<open>A_findOne\<close> line 156, \<open>A_axios\<close> line 177 and \<open>A_create\<close> lines 186 and
  195 of the mutation.
\<close>

datatype task =
    Pending operation
  | L_findAll
  | U_findOne user_args js_string
  | U_axios user axios_options
  | A_findOne addUser_args js_string
  | A_axios addUser_args js_string axios_options
  | A_create user_values
  | Done "result settled"

fun finished :: "task \<Rightarrow> bool" where
  "finished (Done r) = True"
| "finished t = False"

fun remaining :: "task \<Rightarrow> nat" where
  "remaining (Pending op) = 4"
| "remaining (A_findOne args n) = 3"
| "remaining (A_axios args n opts) = 2"
| "remaining (A_create v) = 1"
| "remaining (U_findOne args n) = 2"
| "remaining (U_axios u opts) = 1"
| "remaining L_findAll = 1"
| "remaining (Done r) = 0"

text \<open>The settlement of a resolver's promise as the last state of its task.\<close>

definition settle_as :: "('a \<Rightarrow> result) \<Rightarrow> 'a settled \<times> world \<Rightarrow> task \<times> world" where
  "settle_as f sw =
     (case sw of
        (Fulfilled v, w) \<Rightarrow> (Done (Fulfilled (f v)), w)
      | (Rejected e, w) \<Rightarrow> (Done (Rejected e), w))"

text \<open>
  The synchronous part of a resolver: the length test of lines 77 and 152, up to the
  first call that returns a promise.
\<close>

fun start :: "operation \<Rightarrow> task" where
  "start Users = L_findAll"
| "start (User args) =
     (case user_account_number_arg args of
        None \<Rightarrow> Done (Rejected TypeError)
      | Some n \<Rightarrow>
          if account_number_length_invalid n
          then Done (Rejected (Error ACCOUNT_NUMBER_LENGTH_ERROR))
          else U_findOne args n)"
| "start (AddUser args) =
     (case user_account_number_arg args of
        None \<Rightarrow> Done (Rejected TypeError)
      | Some n \<Rightarrow>
          if account_number_length_invalid n
          then Done (Rejected (Error ACCOUNT_NUMBER_LENGTH_ERROR))
          else A_findOne args n)"

text \<open>
  Lines 179--199: what the callback of the service call computes before it calls
  \<open>User.create\<close>: the values of the new record, or the error of a method call on a
  missing name.
\<close>

definition addUser_values :: "addUser_args \<Rightarrow> js_string \<Rightarrow> axios_response \<Rightarrow> js_error + user_values" where
  "addUser_values args n res =
     (case account_name res of
        None \<Rightarrow> Inl TypeError
      | Some resolvedAccountName \<Rightarrow>
         (case user_account_name_arg args of
            None \<Rightarrow> Inl TypeError
          | Some claimed \<Rightarrow>
              if ld claimed resolvedAccountName \<le> 2
              then Inr \<lparr>user_account_number = n, user_bank_code = user_bank_code_arg args,
                        user_account_name = Some claimed, is_verified = True\<rparr>
              else Inr \<lparr>user_account_number = n, user_bank_code = user_bank_code_arg args,
                        user_account_name = Some claimed,
                        is_verified = is_verified_arg args\<rparr>))"

definition user_mutation :: "user \<Rightarrow> result" where
  "user_mutation u = UserResult (Some u)"

text \<open>
  One resumption: the awaited call completes and its callback runs to the next call.
  The callbacks that make no further call are those of theory \<open>Schema\<close>.
\<close>

fun resume :: "task \<Rightarrow> world \<Rightarrow> task \<times> world" where
  "resume (Pending op) w = (start op, w)"
| "resume L_findAll w = settle_as UserList (users_resolve w)"
| "resume (U_findOne args n) w =
     (case User_findOne (user_where n (user_bank_code_arg args)) w of
        (Rejected e, w') \<Rightarrow> (Done (Rejected e), w')
      | (Fulfilled None, w') \<Rightarrow> (Done (Rejected (Error USER_DOESNT_EXIST)), w')
      | (Fulfilled (Some user), w') \<Rightarrow>
          if truthy (user_account_name user)
          then (Done (Fulfilled (UserResult (Some
                  (user\<lparr>user_account_name := map_option toTitleCase (user_account_name user)\<rparr>)))), w')
          else (U_axios user (user_options user w'), w'))"
| "resume (U_axios user opts) w =
     settle_as UserResult
       (promise_catch (promise_then (axios opts) (user_resolved user)) user_failed w)"
| "resume (A_findOne args n) w =
     (case User_findOne (addUser_where n) w of
        (Rejected e, w') \<Rightarrow> (Done (Rejected e), w')
      | (Fulfilled (Some existingUser), w') \<Rightarrow> (Done (Rejected (Error USER_ALREADY_EXISTS)), w')
      | (Fulfilled None, w') \<Rightarrow>
          (A_axios args n (addUser_options n (user_bank_code_arg args) w'), w'))"
| "resume (A_axios args n opts) w =
     (case axios opts w of
        (Rejected e, w') \<Rightarrow> settle_as user_mutation (addUser_failed e w')
      | (Fulfilled res, w') \<Rightarrow>
          (case addUser_values args n res of
             Inl e \<Rightarrow> settle_as user_mutation (addUser_failed e w')
           | Inr v \<Rightarrow> (A_create v, w')))"
| "resume (A_create v) w =
     settle_as user_mutation
       (promise_catch (promise_then (User_create v) addUser_created) addUser_failed w)"
| "resume (Done r) w = (Done r, w)"

text \<open>A task resumed four times in a row, with no other task in between.\<close>

definition resume_pair :: "task \<times> world \<Rightarrow> task \<times> world" where
  "resume_pair tw = resume (fst tw) (snd tw)"

definition complete :: "task \<Rightarrow> world \<Rightarrow> task \<times> world" where
  "complete t w = resume_pair (resume_pair (resume_pair (resume_pair (t, w))))"

section \<open>Pools and schedules\<close>

type_synonym pool = "task list \<times> world"

definition resume_at :: "nat \<Rightarrow> pool \<Rightarrow> pool" where
  "resume_at i c =
     (if i < length (fst c)
      then (case resume (fst c ! i) (snd c) of (t, w') \<Rightarrow> ((fst c)[i := t], w'))
      else c)"

fun run :: "nat list \<Rightarrow> pool \<Rightarrow> pool" where
  "run [] c = c"
| "run (i # sched) c = run sched (resume_at i c)"

text \<open>
  The scheduler is free: any unfinished task may be resumed, and a request may arrive
  at any time.
\<close>

inductive resumes :: "pool \<Rightarrow> pool \<Rightarrow> bool" where
  resumesI: "i < length ts \<Longrightarrow> \<not> finished (ts ! i) \<Longrightarrow> resume (ts ! i) w = (t, w')
     \<Longrightarrow> resumes (ts, w) (ts[i := t], w')"

inductive step :: "pool \<Rightarrow> pool \<Rightarrow> bool" where
  arrive: "step (ts, w) (ts @ [Pending op], w)"
| advance: "resumes c c' \<Longrightarrow> step c c'"

inductive_cases resumesE: "resumes (ts, w) c'"
inductive_cases stepE: "step (ts, w) c'"

text \<open>The number of resumptions a pool can still make, at most.\<close>

definition work :: "pool \<Rightarrow> nat" where
  "work c = sum_list (map remaining (fst c))"

text \<open>
  A relation on worlds that is a preorder and holds across every call to the outside
  holds across everything the resolvers do.
\<close>

definition call_invariant :: "(world \<Rightarrow> world \<Rightarrow> bool) \<Rightarrow> bool" where
  "call_invariant R \<longleftrightarrow>
     preorder_on_worlds R \<and> across R User_findAll \<and> (\<forall>wh. across R (User_findOne wh)) \<and>
     (\<forall>v. across R (User_create v)) \<and> (\<forall>opts. across R (axios opts)) \<and>
     (\<forall>e. across R (console_error e)) \<and> across R console_log"

text \<open>
  \<open>sequential k n\<close> serves the tasks \<open>k\<close> to \<open>k + n - 1\<close> one after the other, each to its
  end; \<open>lookups_first\<close> alternates between two tasks, so that both make their lookup
  before either creates.
\<close>

definition sequential :: "nat \<Rightarrow> nat \<Rightarrow> nat list" where
  "sequential k n = concat (map (replicate 4) [k..<k + n])"

definition lookups_first :: "nat list" where
  "lookups_first = [0, 1, 0, 1, 0, 1, 0, 1]"

text \<open>Two mutations for the same new account number, on the world of theory \<open>Schema\<close>.\<close>

definition example_pool :: pool where
  "example_pool =
     ([Pending (AddUser (example_args ''1234567890'' ''058'' ''Jon Doe'' False)),
       Pending (AddUser (example_args ''1234567890'' ''058'' ''John Doe'' True))],
      example_world)"

section \<open>Settlements and finished tasks\<close>

lemma settle_as_simps [simp]:
  "settle_as f (Fulfilled v, w) = (Done (Fulfilled (f v)), w)"
  "settle_as f (Rejected e, w) = (Done (Rejected e), w)"
  by (simp_all add: settle_as_def)

lemma snd_settle_as [simp]: "snd (settle_as f sw) = snd sw"
  by (cases sw; cases "fst sw") (auto simp: settle_as_def split: settled.split)

lemma finished_settle_as [simp]: "finished (fst (settle_as f sw))"
  by (cases sw; cases "fst sw") (auto simp: settle_as_def split: settled.split)

lemma resume_Done [simp]: "finished t \<Longrightarrow> resume t w = (t, w)"
  by (cases t) simp_all

lemma resume_pair_Done [simp]: "resume_pair (Done r, w) = (Done r, w)"
  by (simp add: resume_pair_def)

lemma resume_pair_settle_as [simp]: "resume_pair (settle_as f sw) = settle_as f sw"
  by (cases sw; cases "fst sw") (auto simp: resume_pair_def)

lemma settle_as_then:
  "settle_as f (p w) =
     (Done (fst (promise_then p (\<lambda>v. promise_resolve (f v)) w)),
      snd (promise_then p (\<lambda>v. promise_resolve (f v)) w))"
  by (cases "p w"; cases "fst (p w)") (auto simp: promise_defs)

lemma settle_as_reject [simp]: "settle_as f (promise_reject e w) = (Done (Rejected e), w)"
  by (simp add: promise_reject_def)

section \<open>A task run to its end is the resolver\<close>

text \<open>
  The callback of the service call, cut at the call of \<open>User.create\<close>, is the callback
  of theory \<open>Schema\<close>.
\<close>

lemma addUser_resolved_values:
  "addUser_resolved args n res =
     (case addUser_values args n res of
        Inl e \<Rightarrow> promise_reject e
      | Inr v \<Rightarrow> promise_then (User_create v) addUser_created)"
  by (simp add: addUser_resolved_def addUser_values_def split: option.split)

lemma two_A_axios:
  "resume_pair (resume_pair (A_axios args n opts, w)) =
     settle_as user_mutation
       (promise_catch (promise_then (axios opts) (addUser_resolved args n)) addUser_failed w)"
  by (cases "axios opts w"; cases "fst (axios opts w)")
     (auto simp: resume_pair_def addUser_resolved_values promise_defs addUser_failed_run
       split: sum.split settled.split prod.split)

lemma three_A_findOne:
  "resume_pair (resume_pair (resume_pair (A_findOne args n, w))) =
     settle_as user_mutation
       (promise_then (User_findOne (addUser_where n)) (addUser_checked args n) w)"
proof (cases "User_findOne (addUser_where n) w")
  case (Pair s w')
  show ?thesis
  proof (cases s)
    case (Fulfilled found)
    show ?thesis
    proof (cases found)
      case None
      with Pair Fulfilled have "resume_pair (A_findOne args n, w) =
          (A_axios args n (addUser_options n (user_bank_code_arg args) w'), w')"
        by (simp add: resume_pair_def)
      with Pair Fulfilled None show ?thesis
        by (simp add: two_A_axios) (simp add: promise_defs addUser_checked_def)
    next
      case (Some u)
      with Pair Fulfilled show ?thesis
        by (simp add: resume_pair_def promise_defs addUser_checked_def)
    qed
  next
    case (Rejected e)
    with Pair show ?thesis by (simp add: resume_pair_def promise_defs)
  qed
qed

lemma one_U_axios:
  "resume_pair (U_axios u opts, w) =
     settle_as UserResult (promise_catch (promise_then (axios opts) (user_resolved u)) user_failed w)"
  by (simp add: resume_pair_def)

lemma two_U_findOne:
  "resume_pair (resume_pair (U_findOne args n, w)) =
     settle_as UserResult
       (promise_then (User_findOne (user_where n (user_bank_code_arg args))) user_found w)"
proof (cases "User_findOne (user_where n (user_bank_code_arg args)) w")
  case (Pair s w')
  show ?thesis
  proof (cases s)
    case (Fulfilled found)
    show ?thesis
    proof (cases found)
      case None
      with Pair Fulfilled show ?thesis
        by (simp add: resume_pair_def promise_defs user_found_def)
    next
      case (Some u)
      show ?thesis
      proof (cases "truthy (user_account_name u)")
        case True
        with Pair Fulfilled Some show ?thesis
          by (simp add: resume_pair_def promise_defs user_found_def)
      next
        case False
        with Pair Fulfilled Some have "resume_pair (U_findOne args n, w) =
            (U_axios u (user_options u w'), w')"
          by (simp add: resume_pair_def)
        with Pair Fulfilled Some False show ?thesis
          by (simp add: one_U_axios) (simp add: promise_defs user_found_def)
      qed
    qed
  next
    case (Rejected e)
    with Pair show ?thesis by (simp add: resume_pair_def promise_defs)
  qed
qed

lemma complete_start:
  "complete (Pending op) w = resume_pair (resume_pair (resume_pair (start op, w)))"
  by (simp add: complete_def resume_pair_def)

lemma execute_reject: "promise_then (promise_reject e) f w = (Rejected e, w)"
  by (simp add: promise_defs)

lemma complete_settles:
  "complete (Pending op) w = (case execute op w of (r, w') \<Rightarrow> (Done r, w'))"
proof (cases op)
  case Users
  then show ?thesis
    by (simp add: complete_start resume_pair_def settle_as_then case_prod_beta)
next
  case (User args)
  show ?thesis
  proof (cases "user_account_number_arg args")
    case None
    with User show ?thesis
      by (simp add: complete_start user_resolve_def promise_defs)
  next
    case (Some n)
    with User show ?thesis
      by (simp add: complete_start user_resolve_def execute_reject two_U_findOne
          settle_as_then case_prod_beta promise_reject_def)
  qed
next
  case (AddUser args)
  show ?thesis
  proof (cases "user_account_number_arg args")
    case None
    with AddUser show ?thesis
      by (simp add: complete_start addUser_resolve_def promise_defs)
  next
    case (Some n)
    with AddUser show ?thesis
      by (simp add: complete_start addUser_resolve_def execute_reject three_A_findOne
          settle_as_then case_prod_beta user_mutation_def promise_reject_def)
  qed
qed

text \<open>
  Refinement. A request that is resumed four times in a row, with no other request
  in between, settles exactly as its resolver does in one piece, and leaves the same
  world: the same table and the same calls in the same order. So every theorem of
  theory \<open>Schema\<close> about a resolver is a theorem about the task that runs alone.
\<close>

theorem complete_refines_execute:
  "complete (Pending op) w = (Done (fst (execute op w)), snd (execute op w))"
  by (simp add: complete_settles case_prod_beta)

section \<open>Invariants under every interleaving\<close>

lemma call_invariants:
  "call_invariant frame" "call_invariant table_grows" "call_invariant keeps_ok"
  by (simp_all add: call_invariant_def preorders across_calls)

lemma call_invariant_refl: "call_invariant R \<Longrightarrow> R w w"
  by (simp add: call_invariant_def preorder_on_worlds_def)

lemma call_invariant_trans: "call_invariant R \<Longrightarrow> R u v \<Longrightarrow> R v w \<Longrightarrow> R u w"
  unfolding call_invariant_def preorder_on_worlds_def by blast

lemma across_addUser_failed: "call_invariant R \<Longrightarrow> across R (addUser_failed e)"
  unfolding addUser_failed_def call_invariant_def
  by (auto intro!: across_then across_reject)

lemma across_user_axios:
  "call_invariant R \<Longrightarrow>
     across R (promise_catch (promise_then (axios opts) (user_resolved u)) user_failed)"
  unfolding user_resolved_def user_failed_def call_invariant_def
  by (auto split: option.split intro!: across_then across_catch across_resolve across_reject)

lemma across_addUser_create:
  "call_invariant R \<Longrightarrow>
     across R (promise_catch (promise_then (User_create v) addUser_created) addUser_failed)"
  unfolding addUser_created_def
  by (auto simp: call_invariant_def
      intro!: across_then across_catch across_resolve across_addUser_failed)

lemma snd_resume_U_findOne:
  "snd (resume (U_findOne args n) w) =
     snd (User_findOne (user_where n (user_bank_code_arg args)) w)"
  by (simp split: prod.split settled.split option.split)

lemma snd_resume_A_findOne:
  "snd (resume (A_findOne args n) w) = snd (User_findOne (addUser_where n) w)"
  by (simp split: prod.split settled.split option.split)

lemma snd_resume_A_axios:
  "snd (resume (A_axios args n opts) w) = snd (axios opts w) \<or>
   (\<exists>e. snd (resume (A_axios args n opts) w) = snd (addUser_failed e (snd (axios opts w))))"
  by (auto split: prod.split settled.split sum.split)

lemma across_resume:
  assumes R: "call_invariant R"
  shows "R w (snd (resume t w))"
proof (cases t)
  case (Pending op)
  with R show ?thesis by (simp add: call_invariant_refl)
next
  case L_findAll
  with R show ?thesis
    by (simp add: users_resolve_def call_invariant_def acrossD)
next
  case (U_findOne args n)
  with R show ?thesis
    by (simp only: snd_resume_U_findOne) (simp add: call_invariant_def acrossD)
next
  case (U_axios u opts)
  with across_user_axios [OF R, of opts u] show ?thesis
    by (simp add: acrossD)
next
  case (A_findOne args n)
  with R show ?thesis
    by (simp only: snd_resume_A_findOne) (simp add: call_invariant_def acrossD)
next
  case (A_axios args n opts)
  from R have 1: "R w (snd (axios opts w))"
    by (simp add: call_invariant_def acrossD)
  from R have 2: "R (snd (axios opts w)) (snd (addUser_failed e (snd (axios opts w))))" for e
    by (simp add: across_addUser_failed acrossD)
  from snd_resume_A_axios [of args n opts w] 1 2 call_invariant_trans [OF R] A_axios
  show ?thesis by metis
next
  case (A_create v)
  with across_addUser_create [OF R, of v] show ?thesis
    by (simp add: acrossD)
next
  case (Done r)
  with R show ?thesis by (simp add: call_invariant_refl)
qed

lemma across_resumes:
  assumes "call_invariant R" and "resumes c c'"
  shows "R (snd c) (snd c')"
  using assms(2)
proof cases
  case (resumesI i ts w t w')
  with across_resume [OF assms(1), of w "ts ! i"] show ?thesis by simp
qed

lemma across_step: "call_invariant R \<Longrightarrow> step c c' \<Longrightarrow> R (snd c) (snd c')"
  by (erule step.cases) (auto simp: call_invariant_refl across_resumes)

lemma across_steps:
  assumes "call_invariant R" and "step\<^sup>*\<^sup>* c c'"
  shows "R (snd c) (snd c')"
  using assms(2)
proof (induction rule: rtranclp_induct)
  case base
  from assms(1) show ?case by (rule call_invariant_refl)
next
  case (step c' c'')
  with assms(1) show ?case
    by (blast intro: call_invariant_trans across_step)
qed

section \<open>Termination\<close>

lemma finished_iff: "finished t \<longleftrightarrow> remaining t = 0"
  by (cases t) simp_all

lemma remaining_start: "remaining (start op) < 4"
  by (cases op) (simp_all split: option.split)

lemma remaining_le_4: "remaining t \<le> 4"
  by (cases t) simp_all

lemma remaining_settle_as [simp]: "remaining (fst (settle_as f sw)) = 0"
  using finished_settle_as [of f sw] by (simp add: finished_iff)

lemma remaining_resume: "\<not> finished t \<Longrightarrow> remaining (fst (resume t w)) < remaining t"
  by (cases t)
     (auto simp: remaining_start split: prod.split settled.split option.split sum.split)

lemma sum_list_update_less:
  fixes xs :: "nat list"
  assumes "i < length xs" and "x < xs ! i"
  shows "sum_list (xs[i := x]) < sum_list xs"
  using assms
proof (induction xs arbitrary: i)
  case Nil
  then show ?case by simp
next
  case (Cons a xs)
  then show ?case by (cases i) auto
qed

lemma resumes_work: "resumes c c' \<Longrightarrow> work c' < work c"
proof (erule resumes.cases)
  fix i ts w t w'
  assume c: "c = (ts, w)" "c' = (ts[i := t], w')" and i: "i < length ts"
    and nf: "\<not> finished (ts ! i)" and r: "resume (ts ! i) w = (t, w')"
  from remaining_resume [OF nf, of w] r have "remaining t < remaining (ts ! i)" by simp
  with i show "work c' < work c"
    by (simp add: c work_def map_update sum_list_update_less)
qed

text \<open>
  C28: Termination. Without new arrivals no interleaving runs forever: every resumption
  of an unfinished task brings that task closer to its settlement, so the relation
  \<open>resumes\<close> is well-founded. No resolver contains a loop or a retry.
\<close>

theorem resumes_terminate: "wf {(c', c). resumes c c'}"
  by (rule wf_subset [OF wf_measure [of work]]) (auto simp: resumes_work)

section \<open>Schedules\<close>

lemma length_resume_at [simp]: "length (fst (resume_at i c)) = length (fst c)"
  by (simp add: resume_at_def split: prod.split)

lemma resume_at_pair:
  "resume_at i (ts, w) =
     (if i < length ts then (ts[i := fst (resume (ts ! i) w)], snd (resume (ts ! i) w))
      else (ts, w))"
  by (simp add: resume_at_def split: prod.split)

lemma resume_at_finished: "finished (fst c ! i) \<Longrightarrow> resume_at i c = c"
  by (simp add: resume_at_def)

lemma resume_at_resumes:
  "i < length (fst c) \<Longrightarrow> \<not> finished (fst c ! i) \<Longrightarrow> resumes c (resume_at i c)"
  by (cases c; cases "resume (fst c ! i) (snd c)") (auto simp: resume_at_def intro: resumesI)

lemma resume_at_steps: "resumes\<^sup>*\<^sup>* c (resume_at i c)"
proof (cases "i < length (fst c) \<and> \<not> finished (fst c ! i)")
  case True
  then show ?thesis by (simp add: resume_at_resumes r_into_rtranclp)
next
  case False
  then have "resume_at i c = c"
    by (auto simp: resume_at_finished) (simp add: resume_at_def)
  then show ?thesis by simp
qed

lemma run_append: "run (xs @ ys) c = run ys (run xs c)"
  by (induction xs arbitrary: c) simp_all

lemma length_run [simp]: "length (fst (run sched c)) = length (fst c)"
  by (induction sched arbitrary: c) simp_all

text \<open>Every schedule is an interleaving, and every interleaving is a schedule.\<close>

lemma run_resumes: "resumes\<^sup>*\<^sup>* c (run sched c)"
proof (induction sched arbitrary: c)
  case Nil
  show ?case by simp
next
  case (Cons i sched)
  from resume_at_steps [of c i] Cons [of "resume_at i c"] show ?case by simp
qed

lemma resumes_resume_at:
  assumes "resumes c c'"
  shows "\<exists>i. c' = resume_at i c"
  using assms
proof cases
  case (resumesI i ts w t w')
  then have "c' = resume_at i c" by (simp add: resume_at_def)
  then show ?thesis ..
qed

lemma resumes_run: "resumes\<^sup>*\<^sup>* c c' \<Longrightarrow> \<exists>sched. c' = run sched c"
proof (induction rule: rtranclp_induct)
  case base
  have "c = run [] c" by simp
  then show ?case ..
next
  case (step c' c'')
  then obtain sched i where "c' = run sched c" and "c'' = resume_at i c'"
    by (auto dest: resumes_resume_at)
  then have "c'' = run (sched @ [i]) c" by (simp add: run_append)
  then show ?case ..
qed

lemma resumes_step: "resumes\<^sup>*\<^sup>* c c' \<Longrightarrow> step\<^sup>*\<^sup>* c c'"
  by (induction rule: rtranclp_induct) (auto intro: advance rtranclp.rtrancl_into_rtrancl)

text \<open>
  Account numbers and identifiers stay unique under every interleaving. Whatever
  requests arrive, in whatever order their callbacks run, and whatever the service and
  the storage layer answer, a table that satisfies the invariant satisfies it in every
  pool that can be reached. With interleaving the duplicate lookup of the mutation no
  longer protects the table; the uniqueness constraint of \<open>create\<close> does.
\<close>

theorem interleaved_keeps_db_ok:
  assumes "step\<^sup>*\<^sup>* c c'" and "db_ok (database (snd c))"
  shows "db_ok (database (snd c'))"
  using across_steps [OF call_invariants(3) assms(1)] assms(2) by (simp add: keeps_ok_def)

theorem interleaved_keeps_db_ok_witness:
  "db_ok (database (snd (run lookups_first example_pool)))"
  using interleaved_keeps_db_ok [OF resumes_step [OF run_resumes], of example_pool lookups_first]
    db_ok_example
  by (simp add: example_pool_def)

text \<open>
  Under every interleaving records are only ever appended: the table of a pool is
  a prefix of the table of every pool reached from it.
\<close>

theorem interleaved_table_grows:
  assumes "step\<^sup>*\<^sup>* c c'"
  shows "prefix (rows (database (snd c))) (rows (database (snd c')))"
  using across_steps [OF call_invariants(2) assms] by (simp add: table_grows_def)

theorem interleaved_table_grows_witness:
  "prefix example_rows (rows (database (snd (run lookups_first example_pool))))"
  using interleaved_table_grows [OF resumes_step [OF run_resumes], of example_pool lookups_first]
  by (simp add: example_pool_def example_world_def)

text \<open>
  Under every interleaving the environment (the service, the credential, the
  availability of the storage layer) is unchanged and the trace of calls only grows.
\<close>

lemma interleaved_frame:
  assumes "step\<^sup>*\<^sup>* c c'"
  shows "db_fault (snd c') = db_fault (snd c) \<and> paystack (snd c') = paystack (snd c) \<and>
     PAYSTACK_SECRET_KEY (snd c') = PAYSTACK_SECRET_KEY (snd c) \<and>
     prefix (trace (snd c)) (trace (snd c'))"
  using across_steps [OF call_invariants(1) assms] by (simp add: frame_def)

section \<open>Fair schedules settle every request\<close>

lemma remaining_resume_at:
  assumes "i < length (fst c)"
  shows "remaining (fst (resume_at j c) ! i) \<le> remaining (fst c ! i) - (if j = i then 1 else 0)"
proof (cases "j = i")
  case ji: True
  obtain t w' where r: "resume (fst c ! i) (snd c) = (t, w')" by (cases "resume (fst c ! i) (snd c)")
  show ?thesis
  proof (cases "finished (fst c ! i)")
    case True
    with ji show ?thesis by (simp add: resume_at_finished finished_iff)
  next
    case False
    from remaining_resume [OF False, of "snd c"] r have "remaining t < remaining (fst c ! i)" by simp
    with assms ji r show ?thesis by (simp add: resume_at_def)
  qed
next
  case False
  with assms show ?thesis by (simp add: resume_at_def split: prod.split)
qed

lemma remaining_run:
  "i < length (fst c) \<Longrightarrow>
     remaining (fst (run sched c) ! i) \<le> remaining (fst c ! i) - count_list sched i"
proof (induction sched arbitrary: c)
  case Nil
  show ?case by simp
next
  case (Cons j sched)
  from Cons.prems have "i < length (fst (resume_at j c))" by simp
  from Cons.IH [OF this] remaining_resume_at [OF Cons.prems, of j]
  show ?case by auto
qed

text \<open>
  C29: Every request is answered. A schedule that resumes every task of the pool at
  least four times, in any order and with any interleaving, settles them all.
\<close>

theorem fair_schedule_completes:
  assumes "\<forall>i < length ts. 4 \<le> count_list sched i"
  shows "list_all finished (fst (run sched (ts, w)))"
proof -
  have "finished (fst (run sched (ts, w)) ! i)" if "i < length ts" for i
  proof -
    from that remaining_run [of i "(ts, w)" sched] remaining_le_4 [of "ts ! i"] assms
    have "remaining (fst (run sched (ts, w)) ! i) = 0" by fastforce
    then show ?thesis by (simp add: finished_iff)
  qed
  then show ?thesis
    by (simp add: list_all_length)
qed

theorem fair_schedule_completes_witness:
  "list_all finished (fst (run lookups_first example_pool))"
  using fair_schedule_completes [of "fst example_pool" lookups_first example_world]
  by (simp add: example_pool_def lookups_first_def All_less_Suc)

section \<open>Serving requests one after the other\<close>

lemma run_replicate_4:
  assumes "k < length ts"
  shows "run (replicate 4 k) (ts, w) = (ts[k := fst (complete (ts ! k) w)], snd (complete (ts ! k) w))"
  using assms
  by (simp add: numeral_eq_Suc resume_at_def complete_def resume_pair_def split: prod.split)

lemma sequential_Suc: "sequential k (Suc n) = replicate 4 k @ sequential (Suc k) n"
  by (simp add: sequential_def upt_rec [of k])

lemma sequential_serve:
  "run (sequential (length ds) (length ops)) (map Done ds @ map Pending ops, w) =
     (map Done (ds @ fst (serve ops w)), snd (serve ops w))"
proof (induction ops arbitrary: ds w)
  case Nil
  show ?case by (simp add: sequential_def)
next
  case (Cons op ops)
  obtain r w' where e: "execute op w = (r, w')" by (cases "execute op w")
  have "run (replicate 4 (length ds)) (map Done ds @ map Pending (op # ops), w) =
      (map Done (ds @ [r]) @ map Pending ops, w')"
    by (simp add: run_replicate_4 complete_settles e nth_append list_update_append)
  with Cons.IH [of "ds @ [r]" w'] e show ?case
    by (simp add: sequential_Suc run_append split: prod.split)
qed

text \<open>
  Serving requests one after the other is one of the schedules. The schedule that
  runs each task to its end before the next one starts gives the results and the world
  of \<open>serve\<close>.
\<close>

theorem sequential_schedule_is_serve:
  "run (sequential 0 (length ops)) (map Pending ops, w) =
     (map Done (fst (serve ops w)), snd (serve ops w))"
  using sequential_serve [of "[]" ops w] by simp

section \<open>The race of two mutations\<close>

text \<open>The steps of a mutation, one by one, on the branch that creates the record.\<close>

lemma addUser_options_frame [simp]:
  "addUser_options n b (w\<lparr>trace := t\<rparr>) = addUser_options n b w"
  "addUser_options n b (w\<lparr>database := d\<rparr>) = addUser_options n b w"
  by (simp_all add: addUser_options_def authorization_header_def)

lemma resume_Pending_AddUser:
  assumes "user_account_number_arg a = Some n" and "length n = 10"
  shows "resume (Pending (AddUser a)) w = (A_findOne a n, w)"
  using assms by (simp add: account_number_length_invalid_def)

lemma resume_A_findOne_fresh:
  assumes "\<not> db_fault w (length (trace w))" and "\<not> taken n (database w)"
  shows "resume (A_findOne a n) w =
     (A_axios a n (addUser_options n (user_bank_code_arg a) w),
      w\<lparr>trace := trace w @ [FindOne (addUser_where n)]\<rparr>)"
  using assms by (simp add: call_defs addUser_where_def)

lemma resume_A_axios_resolved:
  assumes "paystack w opts = Inr res" and "account_name res = Some resolved"
    and "user_account_name_arg a = Some claimed"
  shows "resume (A_axios a n opts) w =
     (A_create \<lparr>user_account_number = n, user_bank_code = user_bank_code_arg a,
         user_account_name = Some claimed,
         is_verified = (ld claimed resolved \<le> 2 \<or> is_verified_arg a)\<rparr>,
      w\<lparr>trace := trace w @ [Axios opts]\<rparr>)"
  using assms by (simp add: call_defs addUser_values_def)

lemma resume_A_create_fresh:
  assumes "\<not> db_fault w (length (trace w))" and "\<not> taken (user_account_number v) (database w)"
  shows "resume (A_create v) w =
     (Done (Fulfilled (UserResult (Some (new_row v (next_id (database w)))))),
      w\<lparr>database := (database w)\<lparr>rows := rows (database w) @ [new_row v (next_id (database w))],
            next_id := Suc (next_id (database w))\<rparr>,
        trace := trace w @ [Create v]\<rparr>)"
  using assms by (simp add: call_defs promise_defs create_def addUser_created_def user_mutation_def)

lemma resume_A_create_taken:
  assumes "\<not> db_fault w (length (trace w))" and "taken (user_account_number v) (database w)"
  shows "resume (A_create v) w =
     (Done (Rejected (Error SERVER_ERROR)),
      w\<lparr>trace := trace w @
         [Create v, ConsoleError (SequelizeError UniqueConstraintError), ConsoleLog]\<rparr>)"
  using assms by (simp add: call_defs promise_defs create_def addUser_failed_def)

lemmas resume_stages =
  resume_Pending_AddUser resume_A_findOne_fresh resume_A_axios_resolved
  resume_A_create_fresh resume_A_create_taken

text \<open>
  C11: The race of two mutations. Two requests for the same new account number whose
  lookups both run before either creation both pass the duplicate lookup and both call
  the service. The creation that runs first succeeds. The second is refused by the
  uniqueness constraint of the table, the \<open>catch\<close> of line 205 receives that failure,
  and the request fails with \<open>SERVER_ERROR\<close>, not with \<open>USER_ALREADY_EXISTS\<close>. The table
  gains exactly one record.
\<close>

theorem addUser_race:
  assumes "user_account_number_arg a = Some n" and "user_account_number_arg b = Some n"
    and "length n = 10"
    and "user_account_name_arg a = Some ca" and "user_account_name_arg b = Some cb"
    and "\<not> taken n (database w)"
    and "paystack w (addUser_options n (user_bank_code_arg a) w) = Inr ra"
    and "account_name ra = Some na"
    and "paystack w (addUser_options n (user_bank_code_arg b) w) = Inr rb"
    and "account_name rb = Some nb"
    and "\<not> db_fault w (length (trace w))" and "\<not> db_fault w (length (trace w) + 1)"
    and "\<not> db_fault w (length (trace w) + 4)" and "\<not> db_fault w (length (trace w) + 5)"
  shows "fst (run lookups_first ([Pending (AddUser a), Pending (AddUser b)], w)) =
      [Done (Fulfilled (UserResult (Some
         \<lparr>user_account_number = n, user_bank_code = user_bank_code_arg a,
          user_account_name = Some ca, is_verified = (ld ca na \<le> 2 \<or> is_verified_arg a),
          user_id = next_id (database w)\<rparr>))),
       Done (Rejected (Error SERVER_ERROR))]
     \<and> rows (database (snd (run lookups_first ([Pending (AddUser a), Pending (AddUser b)], w)))) =
       rows (database w) @
        [\<lparr>user_account_number = n, user_bank_code = user_bank_code_arg a,
          user_account_name = Some ca, is_verified = (ld ca na \<le> 2 \<or> is_verified_arg a),
          user_id = next_id (database w)\<rparr>]"
proof -
  let ?oa = "addUser_options n (user_bank_code_arg a) w"
  let ?ob = "addUser_options n (user_bank_code_arg b) w"
  let ?va = "\<lparr>user_account_number = n, user_bank_code = user_bank_code_arg a,
      user_account_name = Some ca, is_verified = (ld ca na \<le> 2 \<or> is_verified_arg a)\<rparr>"
  let ?vb = "\<lparr>user_account_number = n, user_bank_code = user_bank_code_arg b,
      user_account_name = Some cb, is_verified = (ld cb nb \<le> 2 \<or> is_verified_arg b)\<rparr>"
  let ?w2 = "w\<lparr>trace := trace w @ [FindOne (addUser_where n), FindOne (addUser_where n)]\<rparr>"
  let ?w3 = "w\<lparr>trace := trace w @ [FindOne (addUser_where n), FindOne (addUser_where n),
      Axios ?oa, Axios ?ob]\<rparr>"
  let ?w4 = "?w3\<lparr>database := (database w)\<lparr>rows := rows (database w) @
        [new_row ?va (next_id (database w))], next_id := Suc (next_id (database w))\<rparr>,
      trace := trace ?w3 @ [Create ?va]\<rparr>"
  from assms have f: "\<not> db_fault w (Suc (Suc (Suc (Suc (length (trace w))))))"
    "\<not> db_fault w (Suc (Suc (Suc (Suc (Suc (length (trace w)))))))"
    by (simp_all add: numeral_eq_Suc)
  have 1: "run [0, 1] ([Pending (AddUser a), Pending (AddUser b)], w) =
      ([A_findOne a n, A_findOne b n], w)"
    using assms by (simp add: resume_at_pair resume_stages del: resume.simps)
  have 2: "run [0, 1] ([A_findOne a n, A_findOne b n], w) = ([A_axios a n ?oa, A_axios b n ?ob], ?w2)"
    using assms by (simp add: resume_at_pair resume_stages del: resume.simps)
  have 3: "run [0, 1] ([A_axios a n ?oa, A_axios b n ?ob], ?w2) = ([A_create ?va, A_create ?vb], ?w3)"
    using assms by (simp add: resume_at_pair resume_stages del: resume.simps)
  have 4: "run [0] ([A_create ?va, A_create ?vb], ?w3) =
      ([Done (Fulfilled (UserResult (Some (new_row ?va (next_id (database w)))))), A_create ?vb],
       ?w4)"
    using assms f by (simp add: resume_at_pair resume_stages del: resume.simps)
  have 5: "resume (A_create ?vb) ?w4 =
      (Done (Rejected (Error SERVER_ERROR)),
       ?w4\<lparr>trace := trace ?w4 @
          [Create ?vb, ConsoleError (SequelizeError UniqueConstraintError), ConsoleLog]\<rparr>)"
    using f by (intro resume_A_create_taken) (simp_all add: taken_iff)
  have s: "lookups_first = [0, 1] @ [0, 1] @ [0, 1] @ [0] @ [1]"
    by (simp add: lookups_first_def)
  from 5 show ?thesis
    unfolding s run_append 1 2 3 4
    by (simp add: resume_at_pair new_row_def del: resume.simps)
qed

theorem addUser_race_witness:
  "fst (run lookups_first example_pool) =
     [Done (Fulfilled (UserResult (Some
        \<lparr>user_account_number = ''1234567890'', user_bank_code = ''058'',
         user_account_name = Some ''Jon Doe'', is_verified = True, user_id = 4\<rparr>))),
      Done (Rejected (Error SERVER_ERROR))]"
  using addUser_race [where a = "example_args ''1234567890'' ''058'' ''Jon Doe'' False"
      and b = "example_args ''1234567890'' ''058'' ''John Doe'' True"
      and w = example_world and n = "''1234567890''"
      and ca = "''Jon Doe''" and cb = "''John Doe''"
      and ra = "\<lparr>account_name = Some ''JOHN DOE''\<rparr>" and na = "''JOHN DOE''"
      and rb = "\<lparr>account_name = Some ''JOHN DOE''\<rparr>" and nb = "''JOHN DOE''"]
  by (simp add: example_pool_def example_defs object_defs ld_examples)

end
