(* ===== verification/Tracking.thy ===== *)
theory Tracking
  imports Interleaving
begin

text \<open>
  What holds of every request in every pool that can be reached, however the requests
  interleave. The theory holds the declared types of the three fields
  (\<open>graphql_type\<close>, \<open>field_type\<close>, \<open>has_type\<close>), the relation \<open>tracks\<close> between a request
  and the task that serves it, the invariant \<open>pool_ok\<close> of a pool, and the pools
  \<open>tracked\<close> from an initial world together with the requests that arrived. \<open>tracks\<close> is
  the typing of tasks: a task waits at a call of its own resolver, with the arguments
  of its request, after the tests the resolver made before that call; a fulfilled
  task holds a value of the declared type that the table accounts for. One resumption
  keeps a task on its request (\<open>resume_tracks\<close>), and the invariant is kept by every
  arrival and every resumption (\<open>tracked_pool_ok\<close>). From it follow: results have the
  declared type of their field, stored account numbers keep their 10 characters, the
  record of a fulfilled mutation is stored, and of the mutations for one account
  number at most one is fulfilled. The last section follows one query for a stored
  record through every interleaving (\<open>sees\<close>): it finds the record.
\<close>

section \<open>Declared types\<close>

text \<open>
  Lines 45--54, 61, 68 and 136: the types the schema declares for the three fields.
  None is wrapped in \<open>GraphQLNonNull\<close>, so null is a value of \<open>UserType\<close>.
\<close>

datatype graphql_type = UserType | GraphQLList graphql_type

fun field_type :: "operation \<Rightarrow> graphql_type" where
  "field_type Users = GraphQLList UserType"
| "field_type (User args) = UserType"
| "field_type (AddUser args) = UserType"

fun has_type :: "result \<Rightarrow> graphql_type \<Rightarrow> bool" where
  "has_type (UserList us) (GraphQLList UserType) = True"
| "has_type (UserResult u) UserType = True"
| "has_type r t = False"

section \<open>What a task is doing for its request\<close>

text \<open>
  \<open>requested arg n\<close>: the account number \<open>n\<close> is the argument and passed the length test of
  lines 77 and 152. \<open>stored_under a u d\<close>: the record \<open>u\<close> is a record of the table that the
  lookup of the query \<open>a\<close> matches. \<open>carries a n b name\<close>: these are the argument values
  of the mutation \<open>a\<close>, after the length test and the use of the name in line 180.
\<close>

definition requested :: "js_string option \<Rightarrow> js_string \<Rightarrow> bool" where
  "requested arg n \<longleftrightarrow> arg = Some n \<and> length n = 10"

definition stored_under :: "user_args \<Rightarrow> user \<Rightarrow> db \<Rightarrow> bool" where
  "stored_under a u d \<longleftrightarrow>
     u \<in> set (rows d) \<and> user_account_number_arg a = Some (user_account_number u) \<and>
     user_bank_code u = user_bank_code_arg a"

definition carries :: "addUser_args \<Rightarrow> js_string \<Rightarrow> js_string \<Rightarrow> js_string option \<Rightarrow> bool" where
  "carries a n b name \<longleftrightarrow>
     requested (user_account_number_arg a) n \<and> b = user_bank_code_arg a \<and>
     name = user_account_name_arg a \<and> name \<noteq> None"

fun tracks_users :: "task \<Rightarrow> db \<Rightarrow> bool" where
  "tracks_users (Pending op) d = (op = Users)"
| "tracks_users L_findAll d = True"
| "tracks_users (Done (Fulfilled (UserList us))) d = prefix us (rows d)"
| "tracks_users (Done (Rejected e)) d = True"
| "tracks_users t d = False"

fun tracks_user :: "user_args \<Rightarrow> task \<Rightarrow> db \<Rightarrow> bool" where
  "tracks_user a (Pending op) d = (op = User a)"
| "tracks_user a (U_findOne a' n) d = (a' = a \<and> requested (user_account_number_arg a) n)"
| "tracks_user a (U_axios u opts) d = stored_under a u d"
| "tracks_user a (Done (Fulfilled (UserResult None))) d = True"
| "tracks_user a (Done (Fulfilled (UserResult (Some u)))) d =
     (\<exists>r \<in> set (rows d). stored_under a r d \<and> u = r\<lparr>user_account_name := user_account_name u\<rparr>)"
| "tracks_user a (Done (Rejected e)) d = True"
| "tracks_user a t d = False"

fun tracks_addUser :: "addUser_args \<Rightarrow> task \<Rightarrow> db \<Rightarrow> bool" where
  "tracks_addUser a (Pending op) d = (op = AddUser a)"
| "tracks_addUser a (A_findOne a' n) d = (a' = a \<and> requested (user_account_number_arg a) n)"
| "tracks_addUser a (A_axios a' n opts) d = (a' = a \<and> requested (user_account_number_arg a) n)"
| "tracks_addUser a (A_create v) d =
     carries a (user_account_number v) (user_bank_code v) (user_account_name v)"
| "tracks_addUser a (Done (Fulfilled (UserResult (Some r)))) d =
     (r \<in> set (rows d) \<and>
      carries a (user_account_number r) (user_bank_code r) (user_account_name r))"
| "tracks_addUser a (Done (Rejected e)) d = True"
| "tracks_addUser a t d = False"

fun tracks :: "operation \<Rightarrow> task \<Rightarrow> db \<Rightarrow> bool" where
  "tracks Users t d = tracks_users t d"
| "tracks (User a) t d = tracks_user a t d"
| "tracks (AddUser a) t d = tracks_addUser a t d"

text \<open>The record a mutation has been fulfilled with, if it has.\<close>

fun created :: "operation \<Rightarrow> task \<Rightarrow> user option" where
  "created (AddUser a) (Done (Fulfilled (UserResult (Some r)))) = Some r"
| "created op t = None"

definition numbers_ok :: "db \<Rightarrow> bool" where
  "numbers_ok d \<longleftrightarrow> list_all (\<lambda>r. length (user_account_number r) = 10) (rows d)"

text \<open>
  The invariant of a pool serving the requests \<open>ops\<close>: one task per request, each on its
  request, and the records that distinct mutations were fulfilled with have distinct
  account numbers.
\<close>

definition pool_ok :: "operation list \<Rightarrow> pool \<Rightarrow> bool" where
  "pool_ok ops c \<longleftrightarrow>
     length (fst c) = length ops \<and>
     (\<forall>i < length ops. tracks (ops ! i) (fst c ! i) (database (snd c))) \<and>
     (\<forall>i < length ops. \<forall>j < length ops. i \<noteq> j \<longrightarrow>
        (case (created (ops ! i) (fst c ! i), created (ops ! j) (fst c ! j)) of
           (Some r, Some s) \<Rightarrow> user_account_number r \<noteq> user_account_number s
         | _ \<Rightarrow> True))"

text \<open>
  The pools reached from the world \<open>w0\<close> with no request, together with the requests
  that arrived: the steps of \<open>step\<close>, with the list of requests as history.
\<close>

inductive tracked :: "world \<Rightarrow> operation list \<Rightarrow> pool \<Rightarrow> bool" for w0 where
  tracked_start: "tracked w0 [] ([], w0)"
| tracked_arrive: "tracked w0 ops (ts, w) \<Longrightarrow> tracked w0 (ops @ [op]) (ts @ [Pending op], w)"
| tracked_resumes: "tracked w0 ops c \<Longrightarrow> resumes c c' \<Longrightarrow> tracked w0 ops c'"

text \<open>
  A query for a record that is stored, and what its task can be from its arrival on:
  it waits with that record in hand, or it has settled with it. \<open>asks_for q r\<close>: the
  query \<open>q\<close> names the account number and the bank code of the record \<open>r\<close>.
\<close>

fun sees :: "user_args \<Rightarrow> user \<Rightarrow> task \<Rightarrow> bool" where
  "sees q r (Pending op) = (op = User q)"
| "sees q r (U_findOne q' n) = (q' = q \<and> n = user_account_number r)"
| "sees q r (U_axios u opts) = (u = r \<and> \<not> truthy (user_account_name r))"
| "sees q r (Done (Fulfilled (UserResult (Some u)))) =
     (u = r\<lparr>user_account_name := user_account_name u\<rparr> \<and> user_account_name u \<noteq> None)"
| "sees q r (Done (Fulfilled (UserResult None))) = (\<not> truthy (user_account_name r))"
| "sees q r (Done (Rejected e)) = (e = SequelizeError ConnectionError)"
| "sees q r t = False"

definition asks_for :: "user_args \<Rightarrow> user \<Rightarrow> bool" where
  "asks_for q r \<longleftrightarrow>
     user_account_number_arg q = Some (user_account_number r) \<and>
     user_bank_code_arg q = user_bank_code r \<and> length (user_account_number r) = 10"

section \<open>Monotonicity\<close>

lemma stored_under_mono:
  "stored_under a u d \<Longrightarrow> prefix (rows d) (rows d') \<Longrightarrow> stored_under a u d'"
  by (auto simp: stored_under_def dest: set_mono_prefix)

lemma tracks_users_mono:
  "tracks_users t d \<Longrightarrow> prefix (rows d) (rows d') \<Longrightarrow> tracks_users t d'"
  by (induction t d rule: tracks_users.induct) auto

lemma tracks_user_mono:
  "tracks_user a t d \<Longrightarrow> prefix (rows d) (rows d') \<Longrightarrow> tracks_user a t d'"
  by (induction a t d rule: tracks_user.induct)
     (auto intro: stored_under_mono dest: set_mono_prefix)

lemma tracks_addUser_mono:
  "tracks_addUser a t d \<Longrightarrow> prefix (rows d) (rows d') \<Longrightarrow> tracks_addUser a t d'"
  by (induction a t d rule: tracks_addUser.induct) (auto dest: set_mono_prefix)

lemma tracks_mono: "tracks op t d \<Longrightarrow> prefix (rows d) (rows d') \<Longrightarrow> tracks op t d'"
  by (cases op) (auto intro: tracks_users_mono tracks_user_mono tracks_addUser_mono)


section \<open>One resumption keeps a task on its request\<close>

lemma resume_tracks_users:
  "tracks_users t (database w) \<Longrightarrow>
     tracks_users (fst (resume t w)) (database (snd (resume t w)))"
  by (induction t "database w" rule: tracks_users.induct)
     (auto simp: users_resolve_def call_defs findAll_def)

lemma start_tracks_user: "tracks_user a (start (User a)) d"
  by (simp add: requested_def account_number_length_invalid_def split: option.split)

lemma start_tracks_addUser: "tracks_addUser a (start (AddUser a)) d"
  by (simp add: requested_def account_number_length_invalid_def split: option.split)

lemma U_findOne_tracks:
  assumes "requested (user_account_number_arg a) n"
  shows "tracks_user a (fst (resume (U_findOne a n) w)) (database (snd (resume (U_findOne a n) w)))"
proof (cases "faulty w")
  case True
  then show ?thesis by (simp add: User_findOne_def)
next
  case False
  show ?thesis
  proof (cases "findOne (user_where n (user_bank_code_arg a)) (database w)")
    case None
    with False show ?thesis by (simp add: User_findOne_def record_call_def)
  next
    case (Some u)
    then have "stored_under a u (database w)"
      using assms by (auto simp: stored_under_def requested_def user_where_def matches_def
          dest!: findOne_Some)
    with False Some show ?thesis
      by (auto simp: User_findOne_def record_call_def stored_under_def)
  qed
qed

lemma U_axios_tracks:
  assumes "stored_under a u (database w)"
  shows "tracks_user a (fst (resume (U_axios u opts) w)) (database (snd (resume (U_axios u opts) w)))"
  using assms
  by (auto simp: promise_defs call_defs user_resolved_def user_failed_def stored_under_def
      split: sum.split option.split)

lemma resume_tracks_user:
  "tracks_user a t (database w) \<Longrightarrow>
     tracks_user a (fst (resume t w)) (database (snd (resume t w)))"
proof (induction a t "database w" rule: tracks_user.induct)
  case (1 a op)
  then show ?case using start_tracks_user [of a "database w"] by simp
next
  case (2 a a' n)
  then show ?case using U_findOne_tracks [of a n w] by simp
next
  case (3 a u opts)
  then show ?case using U_axios_tracks [of a u w opts] by simp
qed simp_all


text \<open>The three waiting points of the mutation.\<close>

lemma A_findOne_tracks:
  assumes "requested (user_account_number_arg a) n"
  shows "tracks_addUser a (fst (resume (A_findOne a n) w))
     (database (snd (resume (A_findOne a n) w)))"
  using assms
  by (cases "faulty w"; cases "findOne (addUser_where n) (database w)")
     (auto simp: User_findOne_def record_call_def)

lemma A_axios_tracks:
  assumes "requested (user_account_number_arg a) n"
  shows "tracks_addUser a (fst (resume (A_axios a n opts) w))
     (database (snd (resume (A_axios a n opts) w)))"
  using assms
  by (auto simp: axios_def addUser_failed_run addUser_values_def carries_def
      split: sum.split option.split)

lemma A_create_tracks:
  assumes "carries a (user_account_number v) (user_bank_code v) (user_account_name v)"
  shows "tracks_addUser a (fst (resume (A_create v) w)) (database (snd (resume (A_create v) w)))"
  using assms
  by (auto simp: promise_defs User_create_def create_def addUser_created_def addUser_failed_run
      user_mutation_def record_call_def)

lemma resume_tracks_addUser:
  "tracks_addUser a t (database w) \<Longrightarrow>
     tracks_addUser a (fst (resume t w)) (database (snd (resume t w)))"
proof (induction a t "database w" rule: tracks_addUser.induct)
  case (1 a op)
  then show ?case using start_tracks_addUser [of a "database w"] by simp
next
  case (2 a a' n)
  then show ?case using A_findOne_tracks [of a n w] by simp
next
  case (3 a a' n opts)
  then show ?case using A_axios_tracks [of a n opts w] by simp
next
  case (4 a v)
  then show ?case using A_create_tracks [of a v w] by simp
qed simp_all

lemma resume_tracks:
  "tracks op t (database w) \<Longrightarrow> tracks op (fst (resume t w)) (database (snd (resume t w)))"
  by (cases op) (simp_all add: resume_tracks_users resume_tracks_user resume_tracks_addUser)

text \<open>
  A mutation becomes fulfilled in one way only: its creation succeeds, so its account
  number was not in the table.
\<close>

lemma created_finished: "created op t = Some r \<Longrightarrow> finished t"
  by (induction op t rule: created.induct) simp_all

lemma created_resume:
  assumes "tracks op t (database w)" and "\<not> finished t"
    and "created op (fst (resume t w)) = Some r"
  shows "\<not> taken (user_account_number r) (database w)"
proof (cases op)
  case Users
  with assms(3) show ?thesis by simp
next
  case (User a)
  with assms(3) show ?thesis by simp
next
  case (AddUser a)
  with assms(1) have "tracks_addUser a t (database w)" by simp
  then show ?thesis
    using assms(2,3) AddUser
  proof (induction a t "database w" rule: tracks_addUser.induct)
    case (1 a op)
    then show ?case by (auto split: option.splits if_splits)
  next
    case (2 a a' n)
    then show ?case
      by (cases "faulty w"; cases "findOne (addUser_where n) (database w)")
         (auto simp: User_findOne_def)
  next
    case (3 a a' n opts)
    then show ?case
      by (auto simp: axios_def addUser_failed_run split: sum.splits)
  next
    case (4 a v)
    then show ?case
      by (auto simp: promise_defs User_create_def create_def addUser_created_def
          addUser_failed_run user_mutation_def split: if_splits)
  qed simp_all
qed


lemma created_stored:
  "tracks op t d \<Longrightarrow> created op t = Some r \<Longrightarrow>
     r \<in> set (rows d) \<and> (\<exists>a. op = AddUser a \<and>
       carries a (user_account_number r) (user_bank_code r) (user_account_name r))"
  by (induction op t rule: created.induct) simp_all

section \<open>The invariant of the pool\<close>

lemma distinct_created_iff:
  "(case (x, y) of (Some r, Some s) \<Rightarrow> P r s | _ \<Rightarrow> True) \<longleftrightarrow>
     (\<forall>r s. x = Some r \<longrightarrow> y = Some s \<longrightarrow> P r s)"
  by (auto split: option.split)

lemma pool_okI:
  assumes "length ts = length ops"
    and "\<And>i. i < length ops \<Longrightarrow> tracks (ops ! i) (ts ! i) (database w)"
    and "\<And>i j r s. i < length ops \<Longrightarrow> j < length ops \<Longrightarrow> i \<noteq> j \<Longrightarrow>
       created (ops ! i) (ts ! i) = Some r \<Longrightarrow> created (ops ! j) (ts ! j) = Some s \<Longrightarrow>
       user_account_number r \<noteq> user_account_number s"
  shows "pool_ok ops (ts, w)"
  using assms unfolding pool_ok_def distinct_created_iff by auto

lemma pool_okD:
  assumes "pool_ok ops (ts, w)"
  shows "length ts = length ops"
    and "i < length ops \<Longrightarrow> tracks (ops ! i) (ts ! i) (database w)"
    and "i < length ops \<Longrightarrow> j < length ops \<Longrightarrow> i \<noteq> j \<Longrightarrow>
       created (ops ! i) (ts ! i) = Some r \<Longrightarrow> created (ops ! j) (ts ! j) = Some s \<Longrightarrow>
       user_account_number r \<noteq> user_account_number s"
  using assms unfolding pool_ok_def distinct_created_iff by auto

lemma pool_ok_start: "pool_ok [] ([], w)"
  by (simp add: pool_ok_def)

lemma pool_ok_arrive:
  assumes "pool_ok ops (ts, w)"
  shows "pool_ok (ops @ [op]) (ts @ [Pending op], w)"
proof (rule pool_okI)
  from assms show "length (ts @ [Pending op]) = length (ops @ [op])"
    by (simp add: pool_okD(1))
next
  fix i assume "i < length (ops @ [op])"
  with assms show "tracks ((ops @ [op]) ! i) ((ts @ [Pending op]) ! i) (database w)"
    by (cases op) (auto simp: nth_append pool_okD(1,2) less_Suc_eq)
next
  fix i j r s
  assume "i < length (ops @ [op])" "j < length (ops @ [op])" "i \<noteq> j"
    and "created ((ops @ [op]) ! i) ((ts @ [Pending op]) ! i) = Some r"
    and "created ((ops @ [op]) ! j) ((ts @ [Pending op]) ! j) = Some s"
  with pool_okD(1) [OF assms] pool_okD(3) [OF assms, of i j r s]
  show "user_account_number r \<noteq> user_account_number s"
    by (auto simp: nth_append less_Suc_eq split: if_splits)
qed

lemma grows_resume: "prefix (rows (database w)) (rows (database (snd (resume t w))))"
  using across_resume [OF call_invariants(2), of w t] by (simp add: table_grows_def)

lemma created_old:
  assumes "pool_ok ops (ts, w)" and "k < length ops" and "created (ops ! k) (ts ! k) = Some s"
  shows "taken (user_account_number s) (database w)"
  using created_stored [OF pool_okD(2) [OF assms(1,2)] assms(3)] by (auto simp: taken_iff)

lemma created_new:
  assumes "pool_ok ops (ts, w)" and "i < length ts" and "\<not> finished (ts ! i)"
    and "created (ops ! i) (fst (resume (ts ! i) w)) = Some r"
  shows "\<not> taken (user_account_number r) (database w)"
proof (rule created_resume)
  from assms(1,2) show "tracks (ops ! i) (ts ! i) (database w)"
    by (simp add: pool_okD(1,2))
qed (rule assms(3), rule assms(4))

lemma pool_ok_update:
  assumes ok: "pool_ok ops (ts, w)" and i: "i < length ts" and nf: "\<not> finished (ts ! i)"
  shows "pool_ok ops (ts[i := fst (resume (ts ! i) w)], snd (resume (ts ! i) w))"
proof (rule pool_okI)
  note len = pool_okD(1) [OF ok]
  let ?t = "fst (resume (ts ! i) w)" and ?w = "snd (resume (ts ! i) w)"
  show "length (ts[i := ?t]) = length ops" using len by simp
  show "tracks (ops ! k) (ts[i := ?t] ! k) (database ?w)" if k: "k < length ops" for k
  proof (cases "k = i")
    case True
    with k len pool_okD(2) [OF ok k] show ?thesis
      by (simp add: resume_tracks)
  next
    case False
    with k len tracks_mono [OF pool_okD(2) [OF ok k] grows_resume] show ?thesis by simp
  qed
  show "user_account_number r \<noteq> user_account_number s"
    if jk: "j < length ops" "k < length ops" "j \<noteq> k"
      and r: "created (ops ! j) (ts[i := ?t] ! j) = Some r"
      and s: "created (ops ! k) (ts[i := ?t] ! k) = Some s" for j k r s
  proof (cases "j = i")
    case True
    with jk r s len created_new [OF ok i nf, of r] created_old [OF ok, of k s]
    show ?thesis by auto
  next
    case nj: False
    show ?thesis
    proof (cases "k = i")
      case True
      with jk r s len created_new [OF ok i nf, of s] created_old [OF ok, of j r]
      show ?thesis by auto
    next
      case False
      with nj jk r s pool_okD(3) [OF ok, of j k r s] show ?thesis by simp
    qed
  qed
qed

lemma pool_ok_resumes:
  assumes "pool_ok ops c" and "resumes c c'"
  shows "pool_ok ops c'"
  using assms(2)
proof cases
  case (resumesI i ts w t w')
  with assms(1) pool_ok_update [of ops ts w i] show ?thesis
    by (cases "resume (ts ! i) w") simp
qed

lemma tracked_pool_ok: "tracked w0 ops c \<Longrightarrow> pool_ok ops c"
  by (induction rule: tracked.induct) (auto intro: pool_ok_start pool_ok_arrive pool_ok_resumes)

lemma tracked_tracks:
  assumes "tracked w0 ops (ts, w)" and "i < length ts"
  shows "tracks (ops ! i) (ts ! i) (database w)"
  using tracked_pool_ok [OF assms(1)] assms(2) by (simp add: pool_okD(1,2))


lemma carriesD:
  assumes "carries a n b name"
  shows "user_account_number_arg a = Some n" and "length n = 10"
    and "b = user_bank_code_arg a" and "name = user_account_name_arg a" and "name \<noteq> None"
  using assms unfolding carries_def requested_def by blast+

section \<open>What one resumption writes\<close>

lemma rows_resume:
  "rows (database (snd (resume t w))) = rows (database w) \<or>
   (\<exists>v. t = A_create v \<and>
      rows (database (snd (resume t w))) = rows (database w) @ [new_row v (next_id (database w))])"
proof (cases t)
  case (Pending op)
  then show ?thesis by simp
next
  case L_findAll
  then show ?thesis
    by (simp add: users_resolve_def call_defs)
next
  case (U_findOne a n)
  then show ?thesis
    by (simp only: snd_resume_U_findOne) (simp add: call_defs)
next
  case (U_axios u opts)
  then show ?thesis
    by (auto simp: call_defs promise_defs user_resolved_def user_failed_run
        split: sum.split option.split)
next
  case (A_findOne a n)
  then show ?thesis
    by (simp only: snd_resume_A_findOne) (simp add: call_defs)
next
  case (A_axios a n opts)
  then show ?thesis
    by (auto simp: call_defs addUser_failed_run split: sum.split)
next
  case (A_create v)
  then show ?thesis
    by (auto simp: call_defs promise_defs create_def addUser_created_run addUser_failed_run)
next
  case (Done r)
  then show ?thesis by simp
qed

lemma numbers_ok_resume:
  assumes "tracks op t (database w)" and "numbers_ok (database w)"
  shows "numbers_ok (database (snd (resume t w)))"
proof -
  have "length (user_account_number v) = 10" if "t = A_create v" for v
    using assms(1) that by (cases op) (auto dest: carriesD(2))
  with rows_resume [of t w] assms(2) show ?thesis
    by (auto simp: numbers_ok_def)
qed

lemma numbers_ok_resumes:
  assumes "pool_ok ops c" and "resumes c c'" and "numbers_ok (database (snd c))"
  shows "numbers_ok (database (snd c'))"
  using assms(2)
proof cases
  case (resumesI i ts w t w')
  with assms(1,3) numbers_ok_resume [of "ops ! i" "ts ! i" w] show ?thesis
    by (cases "resume (ts ! i) w") (simp add: pool_okD(1,2))
qed

lemma tracked_numbers_ok:
  "tracked w0 ops c \<Longrightarrow> numbers_ok (database w0) \<Longrightarrow> numbers_ok (database (snd c))"
proof (induction rule: tracked.induct)
  case (tracked_resumes ops c c')
  with numbers_ok_resumes [OF tracked_pool_ok] show ?case by blast
qed simp_all

section \<open>Tracked pools are the reachable pools\<close>

lemma tracked_steps: "tracked w0 ops c \<Longrightarrow> step\<^sup>*\<^sup>* ([], w0) c"
  by (induction rule: tracked.induct)
     (auto intro: arrive advance rtranclp.rtrancl_into_rtrancl)

lemma steps_tracked: "step\<^sup>*\<^sup>* ([], w0) c \<Longrightarrow> \<exists>ops. tracked w0 ops c"
proof (induction rule: rtranclp_induct)
  case base
  show ?case by (blast intro: tracked_start)
next
  case (step c c')
  then obtain ops where t: "tracked w0 ops c" by blast
  from step.hyps(2) show ?case
  proof cases
    case (arrive ts w op)
    with t show ?thesis by (blast intro: tracked_arrive)
  next
    case advance
    with t show ?thesis by (blast intro: tracked_resumes)
  qed
qed

lemma tracked_arrivals: "tracked w ops (map Pending ops, w)"
proof (induction ops rule: rev_induct)
  case Nil
  show ?case by (simp add: tracked_start)
next
  case (snoc op ops)
  from tracked_arrive [OF snoc, of op] show ?case by simp
qed

lemma tracked_resumes_star:
  "resumes\<^sup>*\<^sup>* c c' \<Longrightarrow> tracked w0 ops c \<Longrightarrow> tracked w0 ops c'"
  by (induction rule: rtranclp_induct) (auto intro: tracked_resumes)

lemma tracked_run: "tracked w ops (run sched (map Pending ops, w))"
  using tracked_resumes_star [OF run_resumes tracked_arrivals] .

section \<open>The example pool\<close>

text \<open>
  The two mutations of \<open>example_pool\<close> under the schedule \<open>lookups_first\<close>, evaluated:
  the first is fulfilled, the second is refused by the table.
\<close>

lemma example_race_tasks:
  "fst (run lookups_first example_pool) =
     [Done (Fulfilled (UserResult (Some
        \<lparr>user_account_number = ''1234567890'', user_bank_code = ''058'',
         user_account_name = Some ''Jon Doe'', is_verified = True, user_id = 4\<rparr>))),
      Done (Rejected (Error SERVER_ERROR))]"
  by (simp add: lookups_first_def example_pool_def resume_at_pair resume_stages taken_iff
      example_defs object_defs ld_examples new_row_def addUser_values_def del: resume.simps)

lemma example_tracked:
  "tracked example_world
     [AddUser (example_args ''1234567890'' ''058'' ''Jon Doe'' False),
      AddUser (example_args ''1234567890'' ''058'' ''John Doe'' True)]
     (fst (run lookups_first example_pool), snd (run lookups_first example_pool))"
  using tracked_run [of example_world
      "[AddUser (example_args ''1234567890'' ''058'' ''Jon Doe'' False),
        AddUser (example_args ''1234567890'' ''058'' ''John Doe'' True)]" lookups_first]
  by (simp add: example_pool_def)

lemma numbers_ok_example: "numbers_ok (database example_world)"
  by (simp add: numbers_ok_def example_defs)

section \<open>Results have the declared type of their field\<close>

lemma tracks_typed:
  assumes "tracks op (Done (Fulfilled r)) d"
  shows "has_type r (field_type op) \<and>
     (case op of AddUser a \<Rightarrow> r \<noteq> UserResult None | _ \<Rightarrow> True)"
proof (cases op)
  case Users
  with assms show ?thesis
    by (cases r) (auto elim: tracks_users.elims)
next
  case (User a)
  with assms show ?thesis
    by (cases r) (auto elim: tracks_user.elims)
next
  case (AddUser a)
  with assms show ?thesis
    by (cases r) (auto elim: tracks_addUser.elims)
qed

text \<open>
  Every result has the type its field declares. In every pool that can be reached,
  whatever requests arrived and in whatever order their callbacks ran, a request that
  is fulfilled is fulfilled with a value of the type of its field: a list of records
  for \<open>users\<close>, a record or null for \<open>user\<close>, and for \<open>addUser\<close> a record, never null.
\<close>

theorem results_typed:
  assumes "tracked w0 ops (ts, w)" and "i < length ts" and "ts ! i = Done (Fulfilled r)"
  shows "has_type r (field_type (ops ! i)) \<and>
     (case ops ! i of AddUser a \<Rightarrow> r \<noteq> UserResult None | _ \<Rightarrow> True)"
  using tracked_tracks [OF assms(1,2)] assms(3) by (simp add: tracks_typed)

theorem results_typed_witness:
  "case fst (run lookups_first example_pool) ! 0 of
     Done (Fulfilled r) \<Rightarrow> has_type r UserType \<and> r \<noteq> UserResult None
   | _ \<Rightarrow> False"
  using results_typed [OF example_tracked, of 0] example_race_tasks
  by simp

section \<open>Stored account numbers\<close>

text \<open>
  C13: Stored account numbers have exactly 10 characters. The table accepts any
  string; it is the length test of the mutation, made before its first call, that
  keeps the table well formed: when every stored account number has 10 characters,
  so has every account number of every pool that can be reached, whatever requests
  arrive and however their callbacks interleave.
\<close>

theorem stored_numbers_valid:
  assumes "tracked w0 ops (ts, w)" and "numbers_ok (database w0)"
  shows "numbers_ok (database w)"
  using tracked_numbers_ok [OF assms] by simp

theorem stored_numbers_valid_witness:
  "numbers_ok (database (snd (run lookups_first example_pool)))"
  using stored_numbers_valid [OF example_tracked numbers_ok_example] .

section \<open>One winner\<close>

text \<open>
  C12: At most one mutation per account number is ever fulfilled. Of the mutations
  that ask for the same account number, in any number, arriving at any time and with
  their callbacks interleaved in any order, at most one is fulfilled: when one of
  them is fulfilled, no other is, in this pool or in any later one.
\<close>

theorem one_winner:
  assumes "tracked w0 ops (ts, w)" and "i < length ts" and "j < length ts" and "i \<noteq> j"
    and "ops ! i = AddUser a" and "ops ! j = AddUser b"
    and "user_account_number_arg a = user_account_number_arg b"
    and "ts ! i = Done (Fulfilled r)"
  shows "\<forall>s. ts ! j \<noteq> Done (Fulfilled s)"
proof
  fix s
  from assms(1) have ok: "pool_ok ops (ts, w)" by (rule tracked_pool_ok)
  note len = pool_okD(1) [OF ok]
  show "ts ! j \<noteq> Done (Fulfilled s)"
  proof
    assume s: "ts ! j = Done (Fulfilled s)"
    from tracked_tracks [OF assms(1,2)] assms(5,8)
    obtain r' where r: "r = UserResult (Some r')"
      and cr: "carries a (user_account_number r') (user_bank_code r') (user_account_name r')"
      by (auto elim: tracks_addUser.elims)
    from tracked_tracks [OF assms(1,3)] assms(6) s
    obtain s' where s': "s = UserResult (Some s')"
      and cs: "carries b (user_account_number s') (user_bank_code s') (user_account_name s')"
      by (auto elim: tracks_addUser.elims)
    from cr cs assms(7) have "user_account_number r' = user_account_number s'"
      by (auto dest!: carriesD(1))
    moreover from pool_okD(3) [OF ok, of i j r' s'] assms(2-6,8) s r s' len
    have "user_account_number r' \<noteq> user_account_number s'" by simp
    ultimately show False by simp
  qed
qed

theorem one_winner_witness:
  "\<forall>s. fst (run lookups_first example_pool) ! 1 \<noteq> Done (Fulfilled s)"
  using one_winner [OF example_tracked, of 0 1] example_race_tasks
  by (simp add: example_args_def)

section \<open>What a fulfilled request has seen\<close>

text \<open>
  A fulfilled mutation is stored. In every pool that can be reached, the record
  a fulfilled mutation returned is in the table, whatever ran since: it has the
  account number of the request, of 10 characters, its bank code and its claimed
  name, which is not missing.
\<close>

theorem fulfilled_is_stored:
  assumes "tracked w0 ops (ts, w)" and "i < length ts" and "ops ! i = AddUser a"
    and "ts ! i = Done (Fulfilled (UserResult (Some r)))"
  shows "r \<in> set (rows (database w)) \<and>
     user_account_number_arg a = Some (user_account_number r) \<and>
     length (user_account_number r) = 10 \<and>
     user_bank_code r = user_bank_code_arg a \<and>
     user_account_name r = user_account_name_arg a \<and> user_account_name r \<noteq> None"
proof -
  from tracked_tracks [OF assms(1,2)] assms(3,4) have stored: "r \<in> set (rows (database w))"
    and c: "carries a (user_account_number r) (user_bank_code r) (user_account_name r)"
    by simp_all
  from stored carriesD [OF c] show ?thesis by blast
qed

theorem fulfilled_is_stored_witness:
  "\<lparr>user_account_number = ''1234567890'', user_bank_code = ''058'',
    user_account_name = Some ''Jon Doe'', is_verified = True, user_id = 4\<rparr>
     \<in> set (rows (database (snd (run lookups_first example_pool))))"
  using fulfilled_is_stored [OF example_tracked, of 0] example_race_tasks
  by (simp add: example_args_def)

text \<open>
  A fulfilled query returned a record of the table, up to the name it resolved; the
  list \<open>users\<close> returned is the table as it was, a prefix of the table as it is.
\<close>

lemma query_result_stored:
  assumes "tracked w0 ops (ts, w)" and "i < length ts" and "ops ! i = User a"
    and "ts ! i = Done (Fulfilled (UserResult (Some u)))"
  shows "\<exists>r \<in> set (rows (database w)).
     user_account_number_arg a = Some (user_account_number r) \<and>
     user_bank_code r = user_bank_code_arg a \<and> u = r\<lparr>user_account_name := user_account_name u\<rparr>"
  using tracked_tracks [OF assms(1,2)] assms(3,4) by (auto simp: stored_under_def)

lemma users_result_prefix:
  assumes "tracked w0 ops (ts, w)" and "i < length ts" and "ops ! i = Users"
    and "ts ! i = Done (Fulfilled (UserList us))"
  shows "prefix us (rows (database w))"
  using tracked_tracks [OF assms(1,2)] assms(3,4) by simp

section \<open>Reading what is stored\<close>

lemma asks_forD:
  assumes "asks_for q r"
  shows "user_account_number_arg q = Some (user_account_number r)"
    and "user_bank_code_arg q = user_bank_code r" and "length (user_account_number r) = 10"
  using assms unfolding asks_for_def by blast+

lemma truthyD: "truthy x \<Longrightarrow> \<exists>s. x = Some s"
  by (cases x) simp_all

lemma findOne_stored:
  assumes "db_ok d" and "r \<in> set (rows d)"
  shows "findOne (user_where (user_account_number r) (user_bank_code r)) d = Some r"
proof -
  from assms(1) have dist: "distinct (map user_account_number (rows d))"
    by (simp add: db_ok_def)
  have "find (matches (user_where (user_account_number r) (user_bank_code r))) (rows d) =
      find (\<lambda>y. user_account_number y = user_account_number r) (rows d)"
  proof (rule find_cong_set)
    fix x assume "x \<in> set (rows d)"
    with dist assms(2) have "user_account_number x = user_account_number r \<Longrightarrow> x = r"
      by (auto simp: distinct_map inj_on_def)
    then show "matches (user_where (user_account_number r) (user_bank_code r)) x =
        (user_account_number x = user_account_number r)"
      by (auto simp: matches_def user_where_def)
  qed
  with find_unique [OF dist assms(2)] show ?thesis by (simp add: findOne_def)
qed

lemma sees_resume:
  assumes "sees q r t" and "asks_for q r" and "db_ok (database w)" and "r \<in> set (rows (database w))"
  shows "sees q r (fst (resume t w))"
  using assms
proof (induction q r t rule: sees.induct)
  case (1 q r op)
  then show ?case
    by (simp add: asks_for_def account_number_length_invalid_def)
next
  case (2 q r q' n)
  then show ?case
    by (cases "faulty w")
       (auto simp: asks_for_def findOne_stored User_findOne_def dest: truthyD)
next
  case (3 q r u opts)
  then show ?case
    by (auto simp: axios_def promise_defs user_resolved_def user_failed_run
        split: sum.splits option.splits)
qed simp_all

lemma sees_step:
  assumes "step c c'" and "j < length (fst c)" and "sees q r (fst c ! j)" and "asks_for q r"
    and "db_ok (database (snd c))" and "r \<in> set (rows (database (snd c)))"
  shows "j < length (fst c') \<and> sees q r (fst c' ! j) \<and>
     db_ok (database (snd c')) \<and> r \<in> set (rows (database (snd c')))"
proof -
  from across_step [OF call_invariants(3) assms(1)] assms(5)
  have ok: "db_ok (database (snd c'))" by (simp add: keeps_ok_def)
  from across_step [OF call_invariants(2) assms(1)] assms(6)
  have stored: "r \<in> set (rows (database (snd c')))"
    by (auto simp: table_grows_def dest: set_mono_prefix)
  from assms(1) have "j < length (fst c') \<and> sees q r (fst c' ! j)"
  proof cases
    case (arrive ts w op)
    with assms(2,3) show ?thesis by (simp add: nth_append)
  next
    case (advance)
    then show ?thesis
    proof cases
      case (resumesI i ts w t w')
      with assms(2-6) sees_resume [of q r "ts ! i" w] show ?thesis
        by (cases "i = j") auto
    qed
  qed
  with ok stored show ?thesis by simp
qed


lemma sees_steps:
  assumes "step\<^sup>*\<^sup>* c c'" and "j < length (fst c)" and "sees q r (fst c ! j)" and "asks_for q r"
    and "db_ok (database (snd c))" and "r \<in> set (rows (database (snd c)))"
  shows "j < length (fst c') \<and> sees q r (fst c' ! j) \<and>
     db_ok (database (snd c')) \<and> r \<in> set (rows (database (snd c')))"
  using assms(1)
proof (induction rule: rtranclp_induct)
  case base
  from assms(2,3,5,6) show ?case by simp
next
  case (step c' c'')
  with sees_step [OF step.hyps(2) _ _ assms(4), of j] show ?case by blast
qed

text \<open>
  C16: A stored record is read, whatever else runs. A query that arrives for the
  account number and the bank code of a stored record is never answered with
  \<open>USER_DOESNT_EXIST\<close>, in any pool reached from there by any arrivals and any
  interleaving: when it is fulfilled with a record, this is the stored record up to
  its name, with a name, and it is fulfilled with null only when the stored name was
  missing or empty. With the record of a fulfilled mutation this is read-your-writes
  for requests in flight.
\<close>

theorem stored_is_read:
  assumes "step\<^sup>*\<^sup>* (ts, w) (ts', w')" and "db_ok (database w)"
    and "r \<in> set (rows (database w))" and "length (user_account_number r) = 10"
    and "j < length ts" and "ts ! j = Pending (User q)"
    and "user_account_number_arg q = Some (user_account_number r)"
    and "user_bank_code_arg q = user_bank_code r"
  shows "ts' ! j \<noteq> Done (Rejected (Error USER_DOESNT_EXIST)) \<and>
     (\<forall>u. ts' ! j = Done (Fulfilled (UserResult (Some u))) \<longrightarrow>
        u = r\<lparr>user_account_name := user_account_name u\<rparr> \<and> user_account_name u \<noteq> None) \<and>
     (ts' ! j = Done (Fulfilled (UserResult None)) \<longrightarrow> \<not> truthy (user_account_name r))"
proof -
  from assms(4,7,8) have "asks_for q r" by (simp add: asks_for_def)
  with sees_steps [OF assms(1), of j q r] assms(2,3,5,6)
  have "sees q r (ts' ! j)" by simp
  then show ?thesis
    by (cases "(q, r, ts' ! j)" rule: sees.cases) auto
qed

theorem stored_is_read_witness:
  "fst (run [0, 0] ([Pending (User (example_query ''1111111111'' ''058''))], example_world)) ! 0
     \<noteq> Done (Rejected (Error USER_DOESNT_EXIST))"
  using stored_is_read [of "[Pending (User (example_query ''1111111111'' ''058''))]" example_world
      "fst (run [0, 0] ([Pending (User (example_query ''1111111111'' ''058''))], example_world))"
      "snd (run [0, 0] ([Pending (User (example_query ''1111111111'' ''058''))], example_world))"
      "\<lparr>user_account_number = ''1111111111'', user_bank_code = ''058'',
        user_account_name = Some ''ada   obi'', is_verified = True, user_id = 1\<rparr>"
      0 "example_query ''1111111111'' ''058''"]
    resumes_step [OF run_resumes, of
      "([Pending (User (example_query ''1111111111'' ''058''))], example_world)" "[0, 0]"]
    db_ok_example
  by (simp add: example_world_def example_rows_def example_query_def del: run.simps)

end
