(* ===== verification/Serial.thy ===== *)
theory Serial
  imports Tracking "HOL-Library.Multiset"
begin

text \<open>
  Interleaved requests against requests served one after the other. A request takes
  effect on the table at one moment, the moment it finishes: a mutation writes only in
  its last step, and whatever a request has read before is still true then, because
  the table only grows. \<open>finishing\<close> lists the requests of a schedule in the order in
  which they finish. The relation \<open>course\<close> says of a task that it holds what its
  resolver would compute on the current world (the reply of the service depends on
  the request alone), \<open>agree\<close> relates the world of the pool to the world of the serial
  run, and \<open>finish_agrees\<close> is the step of the simulation: a task that finishes
  leaves the table that serving its request leaves. The theorem follows by induction
  on the schedule (\<open>run_serial\<close>); the last section applies it to two mutations that
  ask for one new account number. It is about the table, not about the results, and
  it assumes that the storage layer does not fail, since a failure is tied to the
  position of a call in the trace and the serial run makes its calls at other
  positions.
\<close>

section \<open>Worlds, tasks and the order of finishing\<close>

definition fault_free :: "world \<Rightarrow> bool" where
  "fault_free w \<longleftrightarrow> (\<forall>k. \<not> db_fault w k)"

text \<open>The world of the pool and the world of the serial run agree on all a resolver reads.\<close>

definition agree :: "world \<Rightarrow> world \<Rightarrow> bool" where
  "agree w u \<longleftrightarrow>
     database u = database w \<and> paystack u = paystack w \<and>
     PAYSTACK_SECRET_KEY u = PAYSTACK_SECRET_KEY w \<and> fault_free w \<and> fault_free u"

text \<open>Lines 165--177: the reply of the service to the request of a mutation.\<close>

definition reply :: "world \<Rightarrow> addUser_args \<Rightarrow> js_string \<Rightarrow> axios_error + axios_response" where
  "reply w a n = paystack w (addUser_options n (user_bank_code_arg a) w)"

fun course :: "world \<Rightarrow> operation \<Rightarrow> task \<Rightarrow> bool" where
  "course w op (Pending op') = (op' = op)"
| "course w op L_findAll = (op = Users)"
| "course w op (U_findOne a n) = (op = User a)"
| "course w op (U_axios u opts) = (case op of User a \<Rightarrow> True | _ \<Rightarrow> False)"
| "course w op (A_findOne a n) = (op = AddUser a \<and> requested (user_account_number_arg a) n)"
| "course w op (A_axios a n opts) =
     (op = AddUser a \<and> requested (user_account_number_arg a) n \<and>
      opts = addUser_options n (user_bank_code_arg a) w)"
| "course w op (A_create v) =
     (case op of
        AddUser a \<Rightarrow>
          (case user_account_number_arg a of
             None \<Rightarrow> False
           | Some n \<Rightarrow>
               length n = 10 \<and>
               (case reply w a n of
                  Inl e \<Rightarrow> False
                | Inr res \<Rightarrow> addUser_values a n res = Inr v))
      | _ \<Rightarrow> False)"
| "course w op (Done r) = True"

text \<open>Every task of the pool is on the course of its request.\<close>

definition on_course :: "operation list \<Rightarrow> pool \<Rightarrow> bool" where
  "on_course ops c \<longleftrightarrow>
     length (fst c) = length ops \<and> (\<forall>i < length ops. course (snd c) (ops ! i) (fst c ! i))"

text \<open>The tasks that a schedule brings to their end, in the order in which they end.\<close>

fun finishing :: "nat list \<Rightarrow> pool \<Rightarrow> nat list" where
  "finishing [] c = []"
| "finishing (i # sched) c =
     (if i < length (fst c) \<and> \<not> finished (fst c ! i) \<and> finished (fst (resume_at i c) ! i)
      then i # finishing sched (resume_at i c)
      else finishing sched (resume_at i c))"

section \<open>Frames\<close>

lemma fault_freeD: "fault_free w \<Longrightarrow> \<not> faulty w"
  by (simp add: fault_free_def faulty_def)

lemma frame_fault_free: "frame w w' \<Longrightarrow> fault_free w' = fault_free w"
  by (simp add: frame_def fault_free_def)

lemma frame_options: "frame w w' \<Longrightarrow> addUser_options n b w' = addUser_options n b w"
  by (simp add: frame_def addUser_options_def authorization_header_def)

lemma frame_reply: "frame w w' \<Longrightarrow> reply w' a n = reply w a n"
  by (simp add: reply_def frame_options) (simp add: frame_def)

lemma course_frame: "frame w w' \<Longrightarrow> course w' op t = course w op t"
  by (cases t) (auto simp: frame_options frame_reply split: operation.split option.split)

lemma frame_resume: "frame w (snd (resume t w))"
  by (rule across_resume [OF call_invariants(1)])

lemma fault_free_resume [simp]: "fault_free (snd (resume t w)) = fault_free w"
  by (rule frame_fault_free [OF frame_resume])

lemma course_after_resume [simp]: "course (snd (resume t' w)) op t = course w op t"
  by (rule course_frame [OF frame_resume])

text \<open>A resumption writes the table only when it creates a record, and then it finishes.\<close>

lemma database_resume:
  "database (snd (resume t w)) = database w \<or>
   (\<exists>v. t = A_create v \<and> \<not> faulty w \<and> \<not> taken (user_account_number v) (database w) \<and>
      fst (resume t w) = Done (Fulfilled (UserResult (Some (new_row v (next_id (database w)))))) \<and>
      database (snd (resume t w)) =
        (database w)\<lparr>rows := rows (database w) @ [new_row v (next_id (database w))],
          next_id := Suc (next_id (database w))\<rparr>)"
proof (cases t)
  case (Pending op)
  then show ?thesis by simp
next
  case L_findAll
  then show ?thesis by (simp add: users_resolve_def call_defs)
next
  case (U_findOne a n)
  then show ?thesis
    by (simp only: snd_resume_U_findOne) (simp add: call_defs)
next
  case (U_axios u opts)
  then show ?thesis
    by (auto simp: call_defs promise_defs user_resolved_def user_failed_run
        split: sum.split option.split)
next
  case (A_findOne a n)
  then show ?thesis
    by (simp only: snd_resume_A_findOne) (simp add: call_defs)
next
  case (A_axios a n opts)
  then show ?thesis
    by (auto simp: call_defs addUser_failed_run split: sum.split)
next
  case (A_create v)
  then show ?thesis
    by (auto simp: call_defs promise_defs create_def addUser_created_run addUser_failed_run
        user_mutation_def)
next
  case (Done r)
  then show ?thesis by simp
qed

lemma quiet_resume:
  "\<not> finished (fst (resume t w)) \<Longrightarrow> database (snd (resume t w)) = database w"
  using database_resume [of t w] by auto

section \<open>One resumption keeps a task on its course\<close>

lemma course_resume:
  assumes "course w op t"
  shows "course w op (fst (resume t w))"
proof (cases t)
  case (Pending op')
  with assms show ?thesis
    by (cases op) (auto simp: requested_def account_number_length_invalid_def split: option.split)
next
  case (U_findOne a n)
  with assms show ?thesis
    by (auto simp: call_defs split: option.split)
next
  case (A_findOne a n)
  with assms show ?thesis
    by (auto simp: call_defs frame_options split: option.split)
next
  case (A_axios a n opts)
  with assms show ?thesis
    by (auto simp: call_defs requested_def addUser_failed_run reply_def split: sum.split)
qed (simp_all add: settle_as_def split: prod.split settled.split)

section \<open>What serving a request writes\<close>

lemma agree_reply: "agree w u \<Longrightarrow> reply u a n = reply w a n"
  by (simp add: agree_def reply_def addUser_options_def authorization_header_def)

lemma snd_then_resolve:
  "snd (promise_then p (\<lambda>x. promise_resolve (f x)) w) = snd (p w)"
  by (cases "p w") (auto simp: promise_defs split: settled.split)

lemma execute_query_table:
  "database (snd (execute Users u)) = database u"
  "database (snd (execute (User a) u)) = database u"
proof -
  have "across same_table (user_resolve a)"
    by (intro across_user_resolve preorder_same_table same_table_calls)
  from acrossD [OF this, of u] show "database (snd (execute (User a) u)) = database u"
    by (simp add: same_table_def snd_then_resolve)
  show "database (snd (execute Users u)) = database u"
    by (simp add: users_resolve_def call_defs snd_then_resolve)
qed

lemma execute_mutation_table:
  assumes "fault_free u"
  shows "database (snd (execute (AddUser a) u)) =
     (case user_account_number_arg a of
        None \<Rightarrow> database u
      | Some n \<Rightarrow>
          if length n \<noteq> 10 \<or> taken n (database u) then database u
          else (case reply u a n of
                  Inl e \<Rightarrow> database u
                | Inr res \<Rightarrow>
                    (case addUser_values a n res of
                       Inl e \<Rightarrow> database u
                     | Inr v \<Rightarrow>
                         (database u)\<lparr>rows := rows (database u) @ [new_row v (next_id (database u))],
                           next_id := Suc (next_id (database u))\<rparr>)))"
  using assms
  by (simp add: snd_then_resolve addUser_resolve_run fault_free_def reply_def addUser_values_def
      Let_def addUser_where_def findOne_number_only new_row_def
      split: option.split sum.split)


section \<open>A request that finishes has written what serving it writes\<close>

lemma finish_query:
  assumes "course w op t" and "\<forall>a. op \<noteq> AddUser a" and "agree w u"
  shows "database (snd (execute op u)) = database (snd (resume t w))"
proof -
  from assms(1,2) have "\<forall>v. t \<noteq> A_create v"
    by (cases op) (auto split: operation.splits)
  with database_resume [of t w] have "database (snd (resume t w)) = database w" by auto
  with assms(2,3) show ?thesis
    by (cases op) (simp_all add: execute_query_table agree_def del: execute.simps)
qed

lemma finish_start:
  assumes "finished (start (AddUser a))" and "agree w u"
  shows "database (snd (execute (AddUser a) u)) = database w"
  using assms
  by (auto simp: execute_mutation_table agree_def account_number_length_invalid_def
      simp del: execute.simps split: option.splits if_splits)

lemma finish_A_findOne:
  assumes "finished (fst (resume (A_findOne a n) w))" and "agree w u"
    and "requested (user_account_number_arg a) n"
  shows "database (snd (execute (AddUser a) u)) = database (snd (resume (A_findOne a n) w))"
proof -
  from assms(2) have nf: "\<not> faulty w" by (simp add: agree_def fault_freeD)
  with assms(1) findOne_number_only [of n "database w"] have "taken n (database w)"
    by (auto simp: User_findOne_def addUser_where_def split: option.splits)
  with assms(2,3) nf show ?thesis
    by (simp only: snd_resume_A_findOne)
       (simp add: execute_mutation_table agree_def requested_def User_findOne_def
         del: execute.simps)
qed

lemma finish_A_axios:
  assumes "finished (fst (resume (A_axios a n (addUser_options n (user_bank_code_arg a) w)) w))"
    and "agree w u" and "requested (user_account_number_arg a) n"
  shows "database (snd (execute (AddUser a) u)) =
     database (snd (resume (A_axios a n (addUser_options n (user_bank_code_arg a) w)) w))"
  using assms agree_reply [OF assms(2), of a n]
  by (auto simp: execute_mutation_table agree_def requested_def axios_def reply_def
      addUser_failed_run simp del: execute.simps split: sum.splits)

lemma addUser_values_number:
  "addUser_values a n res = Inr v \<Longrightarrow> user_account_number v = n"
  by (auto simp: addUser_values_def split: option.splits if_splits)

lemma finish_A_create:
  assumes "agree w u" and "user_account_number_arg a = Some n" and "length n = 10"
    and "reply w a n = Inr res" and "addUser_values a n res = Inr v"
  shows "database (snd (execute (AddUser a) u)) = database (snd (resume (A_create v) w))"
proof -
  from assms(5) have n: "user_account_number v = n"
    by (auto simp: addUser_values_def split: option.splits if_splits)
  from assms(1) have nf: "\<not> db_fault w (length (trace w))"
    by (simp add: agree_def fault_free_def)
  show ?thesis
  proof (cases "taken n (database w)")
    case True
    with assms n show ?thesis
      by (simp add: resume_A_create_taken [OF nf] execute_mutation_table agree_def
          del: execute.simps resume.simps)
  next
    case False
    with assms n agree_reply [OF assms(1), of a n] show ?thesis
      by (simp add: resume_A_create_fresh [OF nf] execute_mutation_table agree_def
          del: execute.simps resume.simps)
  qed
qed

lemma finish_mutation:
  assumes "course w (AddUser a) t" and "\<not> finished t" and "finished (fst (resume t w))"
    and "agree w u"
  shows "database (snd (execute (AddUser a) u)) = database (snd (resume t w))"
proof (cases t)
  case (Pending op')
  with assms show ?thesis by (simp add: finish_start del: execute.simps start.simps)
next
  case (A_findOne a' n)
  with assms show ?thesis by (simp add: finish_A_findOne del: execute.simps resume.simps)
next
  case (A_axios a' n opts)
  with assms show ?thesis by (simp add: finish_A_axios del: execute.simps resume.simps)
next
  case (A_create v)
  with assms show ?thesis
    by (auto simp: finish_A_create simp del: execute.simps resume.simps
        split: option.splits sum.splits)
qed (insert assms, simp_all)

lemma finish_agrees:
  assumes "course w op t" and "\<not> finished t" and "finished (fst (resume t w))"
    and "agree w u"
  shows "database (snd (execute op u)) = database (snd (resume t w))"
proof (cases "\<exists>a. op = AddUser a")
  case False
  with assms(1,4) show ?thesis by (simp add: finish_query)
next
  case True
  with assms show ?thesis by (auto simp: finish_mutation simp del: execute.simps resume.simps)
qed


section \<open>Every schedule is serial for the table\<close>

lemma frame_execute: "frame u (snd (execute op u))"
  by (intro acrossD across_execute preorder_frame frame_calls)

lemma fault_free_execute: "fault_free (snd (execute op u)) = fault_free u"
  by (rule frame_fault_free [OF frame_execute])

lemma agree_quiet:
  assumes "agree w u" and "\<not> finished (fst (resume t w))"
  shows "agree (snd (resume t w)) u"
  using assms frame_resume [where w = w and t = t] quiet_resume [of t w]
  by (simp add: agree_def frame_def del: resume.simps)

lemma agree_finish:
  assumes "course w op t" and "\<not> finished t" and "finished (fst (resume t w))"
    and "agree w u"
  shows "agree (snd (resume t w)) (snd (execute op u))"
  using finish_agrees [OF assms] assms(4) frame_resume [where w = w and t = t]
    frame_execute [where u = u and op = op] frame_fault_free [OF frame_execute, of op u]
  by (simp add: agree_def frame_def del: execute.simps resume.simps)

lemma on_course_resume_at:
  assumes "on_course ops c"
  shows "on_course ops (resume_at i c)"
proof (cases "i < length (fst c)")
  case False
  with assms show ?thesis by (simp add: resume_at_def)
next
  case True
  obtain ts w where c: "c = (ts, w)" by (cases c)
  have "course (snd (resume (ts ! i) w)) (ops ! k) (ts[i := fst (resume (ts ! i) w)] ! k)"
    if "k < length ops" for k
  proof (cases "k = i")
    case True
    with that assms c show ?thesis
      by (simp add: on_course_def course_resume del: resume.simps)
  next
    case False
    with that assms c show ?thesis by (simp add: on_course_def del: resume.simps)
  qed
  with True assms c show ?thesis
    by (simp add: on_course_def resume_at_pair del: resume.simps)
qed

lemma snd_serve_Cons: "snd (serve (op # ops) u) = snd (serve ops (snd (execute op u)))"
  by (simp split: prod.split)

lemma run_serial:
  assumes "on_course ops c" and "agree (snd c) u"
  shows "database (snd (run sched c)) =
     database (snd (serve (map ((!) ops) (finishing sched c)) u))"
  using assms
proof (induction sched arbitrary: c u)
  case Nil
  then show ?case by (simp add: agree_def)
next
  case (Cons i sched)
  obtain ts w where c: "c = (ts, w)" by (cases c)
  from on_course_resume_at [OF Cons.prems(1), of i] c
  have next_ok: "on_course ops (resume_at i (ts, w))" by simp
  show ?case
  proof (cases "i < length ts \<and> \<not> finished (ts ! i)")
    case False
    with c have "resume_at i c = c" by (auto simp: resume_at_def)
    with False c Cons.IH [OF Cons.prems] show ?thesis by auto
  next
    case True
    then have r: "resume_at i (ts, w) = (ts[i := fst (resume (ts ! i) w)], snd (resume (ts ! i) w))"
      by (simp add: resume_at_pair)
    from True Cons.prems(1) c have co: "course w (ops ! i) (ts ! i)"
      by (simp add: on_course_def)
    show ?thesis
    proof (cases "finished (fst (resume (ts ! i) w))")
      case fin: True
      with co True Cons.prems(2) c
      have "agree (snd (resume_at i (ts, w))) (snd (execute (ops ! i) u))"
        by (simp add: r agree_finish del: execute.simps resume.simps)
      from Cons.IH [OF next_ok this] True fin c r show ?thesis
        by (simp add: snd_serve_Cons del: execute.simps resume.simps serve.simps)
    next
      case nfin: False
      with Cons.prems(2) c have "agree (snd (resume_at i (ts, w))) u"
        by (simp add: r agree_quiet del: resume.simps)
      from Cons.IH [OF next_ok this] True nfin c r show ?thesis
        by (simp del: resume.simps)
    qed
  qed
qed


section \<open>The order in which requests finish\<close>

lemma nth_resume_at_other: "j \<noteq> i \<Longrightarrow> fst (resume_at j c) ! i = fst c ! i"
  by (simp add: resume_at_def split: prod.split del: resume.simps)

lemma finished_resume_at:
  "finished (fst c ! i) \<Longrightarrow> finished (fst (resume_at j c) ! i)"
  by (cases "j = i") (simp_all add: resume_at_finished nth_resume_at_other del: resume.simps)

lemma finishing_unfinished:
  "i \<in> set (finishing sched c) \<Longrightarrow> i < length (fst c) \<and> \<not> finished (fst c ! i)"
proof (induction sched arbitrary: c)
  case Nil
  then show ?case by simp
next
  case (Cons j sched)
  show ?case
  proof (cases "i \<in> set (finishing sched (resume_at j c))")
    case True
    with Cons.IH [of "resume_at j c"] finished_resume_at [of c i j] show ?thesis
      by (auto simp del: resume.simps)
  next
    case False
    with Cons.prems show ?thesis by (auto simp del: resume.simps split: if_splits)
  qed
qed

lemma distinct_finishing: "distinct (finishing sched c)"
proof (induction sched arbitrary: c)
  case Nil
  show ?case by simp
next
  case (Cons j sched)
  with finishing_unfinished [of j sched "resume_at j c"] show ?case
    by (auto simp del: resume.simps)
qed

lemma finishing_complete:
  assumes "i < length (fst c)" and "\<not> finished (fst c ! i)" and "finished (fst (run sched c) ! i)"
  shows "i \<in> set (finishing sched c)"
  using assms
proof (induction sched arbitrary: c)
  case Nil
  then show ?case by simp
next
  case (Cons j sched)
  show ?case
  proof (cases "finished (fst (resume_at j c) ! i)")
    case True
    with Cons.prems(2) nth_resume_at_other [of j i c] have "j = i" by metis
    with True Cons.prems(1,2) show ?thesis by (simp del: resume.simps)
  next
    case False
    with Cons.IH [of "resume_at j c"] Cons.prems show ?thesis by (simp del: resume.simps)
  qed
qed

lemma finishing_all:
  assumes "list_all finished (fst (run sched (map Pending ops, w)))"
  shows "set (finishing sched (map Pending ops, w)) = {..<length ops}"
proof (intro equalityI subsetI)
  fix i assume "i \<in> set (finishing sched (map Pending ops, w))"
  from finishing_unfinished [OF this] show "i \<in> {..<length ops}" by simp
next
  fix i assume "i \<in> {..<length ops}"
  then have i: "i < length ops" by simp
  show "i \<in> set (finishing sched (map Pending ops, w))"
  proof (rule finishing_complete)
    from i show "i < length (fst (map Pending ops, w))" by simp
    from i show "\<not> finished (fst (map Pending ops, w) ! i)" by simp
    from i assms show "finished (fst (run sched (map Pending ops, w)) ! i)"
      by (simp add: list_all_length)
  qed
qed

lemma mset_map_nth:
  assumes "distinct xs" and "set xs = {..<length ys}"
  shows "mset (map ((!) ys) xs) = mset ys"
proof -
  from assms(2) have "set xs = set [0..<length ys]"
    by (simp only: set_upt atLeast0LessThan)
  with set_eq_iff_mset_eq_distinct [OF assms(1) distinct_upt, of 0 "length ys"]
  have eq: "mset xs = mset [0..<length ys]" by (rule iffD1)
  have "mset (map ((!) ys) xs) = image_mset ((!) ys) (mset xs)"
    by (simp only: mset_map)
  also have "\<dots> = image_mset ((!) ys) (mset [0..<length ys])"
    by (simp only: eq)
  also have "\<dots> = mset (map ((!) ys) [0..<length ys])"
    by (simp only: mset_map)
  also have "\<dots> = mset ys"
    by (simp only: map_nth)
  finally show ?thesis .
qed

section \<open>The example pool\<close>

lemma example_finishing: "finishing lookups_first example_pool = [0, 1]"
  by (simp add: lookups_first_def example_pool_def resume_at_pair resume_stages taken_iff
      example_defs object_defs ld_examples new_row_def addUser_values_def del: resume.simps)

lemma fault_free_example: "fault_free example_world"
  by (simp add: fault_free_def example_world_def)

section \<open>Serialisability\<close>

text \<open>
  C14: Every interleaving is serial for the table. When the storage layer does not
  fail, the table that any schedule leaves, once it has settled every request, is
  the table that serving the same requests one after the other leaves, in the order
  in which they finished: that order is a permutation of the requests. The results
  need not be those of the serial order: the loser of a race is told
  \<open>SERVER_ERROR\<close> where the serial order says \<open>USER_ALREADY_EXISTS\<close>.
\<close>

theorem interleaving_serializable:
  assumes "fault_free w" and "list_all finished (fst (run sched (map Pending ops, w)))"
  shows "mset (map ((!) ops) (finishing sched (map Pending ops, w))) = mset ops \<and>
     database (snd (run sched (map Pending ops, w))) =
       database (snd (serve (map ((!) ops) (finishing sched (map Pending ops, w))) w))"
proof
  from finishing_all [OF assms(2)] show
    "mset (map ((!) ops) (finishing sched (map Pending ops, w))) = mset ops"
    by (intro mset_map_nth distinct_finishing)
  from assms(1) show "database (snd (run sched (map Pending ops, w))) =
      database (snd (serve (map ((!) ops) (finishing sched (map Pending ops, w))) w))"
    by (intro run_serial) (simp_all add: on_course_def agree_def)
qed

theorem interleaving_serializable_witness:
  "database (snd (run lookups_first example_pool)) =
     database (snd (serve
       [AddUser (example_args ''1234567890'' ''058'' ''Jon Doe'' False),
        AddUser (example_args ''1234567890'' ''058'' ''John Doe'' True)] example_world))"
  using interleaving_serializable [of example_world lookups_first
      "[AddUser (example_args ''1234567890'' ''058'' ''Jon Doe'' False),
        AddUser (example_args ''1234567890'' ''058'' ''John Doe'' True)]"]
    fault_free_example example_finishing example_race_tasks
  by (simp add: example_pool_def del: serve.simps)

section \<open>Two mutations for one account number, under every schedule\<close>

lemma two_orders:
  assumes "distinct xs" and "set xs = {..<2::nat}"
  shows "xs = [0, 1] \<or> xs = [1, 0]"
proof -
  from distinct_card [OF assms(1)] assms(2) have "length xs = 2" by simp
  then obtain x y where xs: "xs = [x, y]"
    by (auto simp: length_Suc_conv numeral_2_eq_2)
  with assms show ?thesis
    by (auto simp: numeral_2_eq_2 lessThan_Suc doubleton_eq_iff)
qed

lemma serve_two_mutations:
  assumes "fault_free w" and "user_account_number_arg a = Some n"
    and "user_account_number_arg b = Some n" and "length n = 10"
    and "\<not> taken n (database w)" and "reply w a n = Inr ra"
    and "addUser_values a n ra = Inr va"
  shows "database (snd (serve [AddUser a, AddUser b] w)) =
     (database w)\<lparr>rows := rows (database w) @ [new_row va (next_id (database w))],
       next_id := Suc (next_id (database w))\<rparr>"
proof -
  let ?u = "snd (execute (AddUser a) w)"
  from assms have 1: "database ?u =
      (database w)\<lparr>rows := rows (database w) @ [new_row va (next_id (database w))],
        next_id := Suc (next_id (database w))\<rparr>"
    by (simp add: execute_mutation_table del: execute.simps)
  from addUser_values_number [OF assms(7)] have "taken n (database ?u)"
    by (simp add: 1 taken_iff del: execute.simps)
  with assms(1,3,4) have "database (snd (execute (AddUser b) ?u)) = database ?u"
    by (simp add: execute_mutation_table fault_free_execute del: execute.simps)
  with 1 show ?thesis
    by (simp add: snd_serve_Cons del: execute.simps serve.simps) simp
qed

text \<open>
  C15: The race of two mutations, under every schedule. Two requests for the same new
  account number, whose service calls both succeed, on storage that does not fail:
  whatever the schedule, once it has settled both requests the table is the old table
  with exactly one new record, the record of the request that finished first, and
  the counter is advanced by one.
\<close>

theorem race_any_schedule:
  assumes "fault_free w" and "user_account_number_arg a = Some n"
    and "user_account_number_arg b = Some n" and "length n = 10"
    and "\<not> taken n (database w)"
    and "paystack w (addUser_options n (user_bank_code_arg a) w) = Inr ra"
    and "addUser_values a n ra = Inr va"
    and "paystack w (addUser_options n (user_bank_code_arg b) w) = Inr rb"
    and "addUser_values b n rb = Inr vb"
    and "list_all finished (fst (run sched ([Pending (AddUser a), Pending (AddUser b)], w)))"
  shows "database (snd (run sched ([Pending (AddUser a), Pending (AddUser b)], w))) =
     (database w)\<lparr>rows := rows (database w) @
         [new_row (if hd (finishing sched ([Pending (AddUser a), Pending (AddUser b)], w)) = 0
                   then va else vb) (next_id (database w))],
       next_id := Suc (next_id (database w))\<rparr>"
proof -
  let ?ops = "[AddUser a, AddUser b]"
  let ?c = "([Pending (AddUser a), Pending (AddUser b)], w)"
  have serial: "database (snd (run sched ?c)) =
      database (snd (serve (map ((!) ?ops) (finishing sched ?c)) w))"
    using assms(1) by (intro run_serial) (simp_all add: on_course_def agree_def less_Suc_eq)
  from finishing_all [of sched ?ops w] assms(10)
  have "set (finishing sched ?c) = {..<2}" by simp
  from two_orders [OF distinct_finishing this] show ?thesis
  proof
    assume o: "finishing sched ?c = [0, 1]"
    from serve_two_mutations [OF assms(1,2,3,4,5) _ assms(7)] assms(6) serial
    show ?thesis by (simp add: o reply_def del: serve.simps)
  next
    assume o: "finishing sched ?c = [1, 0]"
    from serve_two_mutations [OF assms(1,3,2,4,5) _ assms(9)] assms(8) serial
    show ?thesis by (simp add: o reply_def del: serve.simps)
  qed
qed

theorem race_any_schedule_witness:
  "database (snd (run lookups_first example_pool)) =
     \<lparr>rows = example_rows @
        [\<lparr>user_account_number = ''1234567890'', user_bank_code = ''058'',
          user_account_name = Some ''Jon Doe'', is_verified = True, user_id = 4\<rparr>],
      next_id = 5\<rparr>"
  using race_any_schedule [where w = example_world and n = "''1234567890''"
      and a = "example_args ''1234567890'' ''058'' ''Jon Doe'' False"
      and b = "example_args ''1234567890'' ''058'' ''John Doe'' True"
      and ra = "\<lparr>account_name = Some ''JOHN DOE''\<rparr>"
      and rb = "\<lparr>account_name = Some ''JOHN DOE''\<rparr>"
      and va = "\<lparr>user_account_number = ''1234567890'', user_bank_code = ''058'',
          user_account_name = Some ''Jon Doe'', is_verified = True\<rparr>"
      and vb = "\<lparr>user_account_number = ''1234567890'', user_bank_code = ''058'',
          user_account_name = Some ''John Doe'', is_verified = True\<rparr>"
      and sched = lookups_first]
    fault_free_example example_finishing example_race_tasks
  by (simp add: example_pool_def example_defs object_defs ld_examples addUser_values_def
      taken_iff new_row_def)

end
