(* ===== verification/Spec2Isabelle.thy ===== *)
theory Spec2Isabelle
  imports Serial
begin

text \<open>
  \<^bold>\<open>The program.\<close> The repository is a GraphQL service that keeps a table of bank
  accounts and verifies the name a user claims for an account against the name the
  bank reports. All of its logic is in \<open>src/schema/schema.js\<close>: the object type
  \<open>UserType\<close>, the queries \<open>users\<close> and \<open>user\<close>, and the mutation \<open>addUser\<close>. The
  resolvers call four things that are not under \<open>src/\<close>: the Sequelize model \<open>User\<close>
  (\<open>findAll\<close>, \<open>findOne\<close>, \<open>create\<close>), the HTTP client \<open>axios\<close> against the
  endpoint \<open>https://api.paystack.co/bank/resolve\<close>, the package \<open>js-levenshtein\<close>, and
  the helper \<open>toTitleCase\<close>. A resolver is a chain of promises: a storage call, then a
  callback that may call the service, then a callback that may write the table, with
  a \<open>catch\<close> around the last two.

  \<^bold>\<open>The theories.\<close>

  \<^item> \<open>Prelude\<close>: the fact collections, the type name \<open>js_string\<close>, and generic facts on
    \<open>find\<close>, \<open>distinct\<close> and the minimum of three numbers.
  \<^item> \<open>JsString\<close>: \<open>toLowerCase\<close> (called in lines 180 and 182) and \<open>toTitleCase\<close> (called
    in lines 95 and 113) with the algebra of the case maps: length, idempotence,
    absorption.
  \<^item> \<open>Levenshtein\<close>: the edit distance called in line 183, as the reference recursion
    \<open>lev\<close> and the row-by-row routine \<open>levenshtein\<close>, their equality, and the metric
    laws (zero exactly on equal sequences, symmetry, triangle inequality, bounds by the
    lengths).
  \<^item> \<open>Storage\<close>: the records of the table with the fields of \<open>UserType\<close> (lines 45--54),
    the values of a \<open>create\<close> (lines 186--191), the filters (lines 81--86 and
    156--160), and the three operations of the model \<open>User\<close>. The invariant \<open>db_ok\<close>
    (unique account numbers, unique identifiers below the counter) with its
    preservation, and the refinement of the finite map \<open>accounts\<close> from account numbers
    to records.
  \<^item> \<open>Effects\<close>: what a resolver can observe and change, as the record \<open>world\<close>: the
    table, the reply of the service to each request, the environment variable
    \<open>PAYSTACK_SECRET_KEY\<close>, and the trace of the outside calls made so far. A promise
    is a function from a world to a settlement (\<open>Fulfilled\<close> or \<open>Rejected\<close>) and the next
    world; \<open>promise_then\<close> and \<open>promise_catch\<close> are \<open>.then\<close> and \<open>.catch\<close>. The errors
    are values: \<open>Error\<close> with one of the five names of \<open>errorName\<close> that the source
    throws (lines 78, 88, 153, 162, 213, 215), \<open>TypeError\<close> for a property read on \<open>null\<close>
    or \<open>undefined\<close>, \<open>AxiosError\<close> with the part of the failure that lines 208--212
    inspect, and \<open>SequelizeError\<close>. The theory also holds the rules for proving that a
    relation between the world before and the world after holds \<open>across\<close> a promise,
    the tool of every invariant below.
  \<^item> \<open>Schema\<close>: the resolvers, one definition per function or callback of the source.
    \<open>users_resolve\<close> is lines 62--64. \<open>user_resolve\<close> is lines 73--127, with
    \<open>user_found\<close> for the callback of line 86, \<open>user_resolved\<close> for that of line 112 and
    \<open>user_failed\<close> for the \<open>catch\<close> of line 121. \<open>addUser_resolve\<close> is lines 143--219,
    with \<open>addUser_checked\<close> for the callback of line 160, \<open>addUser_resolved\<close> for that of
    line 178, \<open>addUser_created\<close> for those of lines 191 and 200, \<open>addUser_failed\<close> with
    \<open>error_of_failure\<close> for the \<open>catch\<close> of line 205. \<open>execute\<close> is the schema of lines
    224--227 as a dispatch over the datatype \<open>operation\<close>, and \<open>serve\<close> runs a sequence
    of requests one after the other.
  \<^item> \<open>Interleaving\<close>: requests in flight. A \<open>task\<close> is a request with the place where it
    waits for a promise (the calls of lines 63, 81, 111, 156, 177, 186 and 195);
    \<open>resume\<close> completes that call and runs the callback up to the next one; a pool of
    tasks shares one world, and \<open>resumes\<close>, \<open>step\<close> and \<open>run\<close> interleave them.
  \<^item> \<open>Tracking\<close>: what every request of every reachable pool satisfies. The types the
    schema declares for its fields (\<open>field_type\<close>, lines 61, 68 and 136), the relation
    \<open>tracks\<close> between a request and the task that serves it, the invariant \<open>pool_ok\<close>,
    and the pools \<open>tracked\<close> with the requests that arrived as their history.
  \<^item> \<open>Serial\<close>: interleaved requests against \<open>serve\<close>. \<open>finishing\<close> is the order in which
    a schedule brings the requests to their end; \<open>course\<close> and \<open>agree\<close> are the simulation
    between the pool and the serial run.
  \<^item> This theory: the properties that relate the mutation, the query and the abstract
    map of accounts.

  \<^bold>\<open>What is proved.\<close>

  \<^item> The name matcher \<open>ld\<close> is the edit distance of the two names in lower case; it is
    symmetric, blind to letter case, satisfies the triangle inequality, is zero exactly
    on names equal up to case, and is at least the difference of the lengths. The
    examples of the specification evaluate to 0, 1 and more than 2.
  \<^item> The mutation on every branch: a wrong length is rejected before any outside call;
    a stored account number is rejected after the lookup alone; a name within distance
    2 of the resolved name is stored as verified whatever the caller's flag; any other
    name is stored with the caller's flag; a reply of status 422 whose body has status
    \<open>false\<close> gives \<open>INVALID_BANK_DETAILS\<close>, every other failure of the service gives
    \<open>SERVER_ERROR\<close>; a failure of \<open>create\<close> gives \<open>SERVER_ERROR\<close>; a failure of the
    first lookup leaves the resolver as it is. The mutation either fulfils with exactly
    one new record or rejects with the table unchanged; its outside calls are always a
    prefix-closed sequence lookup, service, write.
  \<^item> The query on every branch: a stored non-empty name is returned in title case with
    no call to the service; an absent or empty name makes exactly one call to the
    service; a failure of that call is logged and turned into \<open>null\<close>; the table is
    never written.
  \<^item> Every sequence of requests preserves \<open>db_ok\<close>, only ever appends to the table, and
    leaves the service, the environment and the fault schedule alone.
  \<^item> Interleaved requests: a task that runs alone is its resolver (the refinement that
    carries the theorems above over to tasks); \<open>db_ok\<close> and the growth of the table hold
    in every pool that any interleaving and any arrivals reach; every interleaving ends,
    and a schedule that resumes each task four times settles all of them; the schedule
    that serves one request after the other is \<open>serve\<close>; and two mutations for one
    account number whose lookups both precede the creations end with one record and
    with \<open>SERVER_ERROR\<close> for the loser.
  \<^item> Every request of every reachable pool: a task stays on the request it was
    started for, at a call of its own resolver and past the tests made before that
    call. Hence a fulfilled request holds a value of the type its field declares (a
    mutation never null), stored account numbers keep their 10 characters although
    the table accepts any string, the record of a fulfilled mutation is in the table
    with the arguments of its request, the record of a fulfilled query is a record of
    the table up to its name, and of any number of mutations for one account number
    at most one is fulfilled. A query that arrives for a stored record finds it under
    every interleaving: it is never answered with \<open>USER_DOESNT_EXIST\<close>.
  \<^item> Serialisability: when the storage layer does not fail, the table that a schedule
    leaves is the table that \<open>serve\<close> leaves on the same requests in the order in which
    they finished, and once every request has settled that order is a permutation of
    the requests. The results need not agree: the race above is the counterexample.
    For two mutations that ask for one new account number it follows that every
    schedule that settles both stores exactly one record, that of the mutation that
    finished first.
  \<^item> Across resolvers: after a successful \<open>addUser\<close> the query for the same account
    returns the new record, a second \<open>addUser\<close> for the same account number is
    rejected, and the mutation refines the update of the abstract map at a key that
    was not in its domain.

  \<^bold>\<open>Bounds and assumptions.\<close> No definition needs fuel: a resolver is a finite
  composition of calls and every definition is a total function that evaluates on
  concrete arguments. A task settles after at most four resumptions (start, lookup,
  service, creation), which is why \<open>complete\<close> resumes four times and a fair schedule
  needs four turns per task. A call to the storage layer or to the service takes effect
  at the moment its promise settles. Storage can fail at any call: \<open>db_fault\<close> says, for each length of
  the trace, whether the storage call made at that point fails with
  \<open>ConnectionError\<close>; a theorem about a branch past a storage call assumes that this call
  does not fail, and the failure branches have theorems of their own. The service is an
  arbitrary function from requests to replies, so every theorem holds for every
  such service; its reply depends on the request alone, so a service that answers
  one request differently at different times is outside the model, and the theorems
  on serialisability rely on that. Strings are lists of \<open>char\<close>; the case maps are those of
  ECMAScript on ASCII letters and the identity elsewhere. The bank code and the flag
  \<open>is_verified\<close> are taken to be present (the flag has a default in line 141, which
  the GraphQL library applies to a request without it; a request that passes
  \<open>null\<close> for the flag is outside the model); the account number and the claimed name
  may be absent, because the source calls a method on each and so decides what their
  absence does. The length test of lines 77 and 152 counts characters: the theorems
  hold for every string of 10 characters, digits or not.

  \<^bold>\<open>Not modelled.\<close> The GraphQL transport (parsing of a request, coercion of
  arguments, serialisation of a result and of an error), the HTTP server, the text that
  \<open>console.error\<close> prints, and the commented-out fetch of the bank list in lines
  22--42. A call that never returns is not modelled: the service and the storage layer
  always answer, with a result or with a failure. Every statement of
  \<open>src/schema/schema.js\<close> that runs is modelled; what is left of the file are the
  \<open>require\<close> lines 1--20, which bind the libraries named above, and the dead code of
  lines 22--42. The files those lines load (the model \<open>User\<close>, the helper
  \<open>toTitleCase\<close>, the table \<open>errorName\<close>) are not under \<open>src/\<close> and are modelled from
  the specification.
\<close>

section \<open>The abstract view of a sequence of mutations\<close>

text \<open>
  Abstractly the service keeps a finite map from account numbers to records, and a
  mutation that fulfils with a record registers it under its account number;
  a mutation that rejects changes nothing.
\<close>

definition register :: "(js_string \<rightharpoonup> user) \<Rightarrow> user settled \<Rightarrow> (js_string \<rightharpoonup> user)" where
  "register m s = (case s of Fulfilled r \<Rightarrow> m(user_account_number r \<mapsto> r) | Rejected e \<Rightarrow> m)"

text \<open>The arguments of the query that asks for the account a mutation was about.\<close>

definition query_of :: "addUser_args \<Rightarrow> user_args" where
  "query_of a = \<lparr>user_account_number_arg = user_account_number_arg a,
                 user_bank_code_arg = user_bank_code_arg a\<rparr>"

section \<open>The mutation followed by the query\<close>

text \<open>
  C30: Round trip from the mutation to the query. When \<open>addUser\<close> has fulfilled with a
  record and storage is reachable, the query \<open>user\<close> for the same account number and
  bank code fulfils with that record, its name in title case, and its only outside
  call is the lookup: the service is not called. The claimed name must not be empty.
\<close>

theorem addUser_then_user:
  assumes "addUser_resolve a w = (Fulfilled r, w')"
    and "\<not> db_fault w' (length (trace w'))"
    and "user_account_name_arg a = Some claimed" and "claimed \<noteq> []"
  shows "user_resolve (query_of a) w' =
     (Fulfilled (Some (r\<lparr>user_account_name := Some (toTitleCase claimed)\<rparr>)),
      w'\<lparr>trace := trace w' @
         [FindOne (user_where (user_account_number r) (user_bank_code r))]\<rparr>)"
proof -
  from assms(1) obtain n v where n: "user_account_number_arg a = Some n" "length n = 10"
    and v: "create v (database w) = Inr (r, database w')"
      "user_account_number v = n" "user_bank_code v = user_bank_code_arg a"
    and r: "user_account_name r = user_account_name_arg a"
      "user_account_number r = n" "user_bank_code r = user_bank_code_arg a"
    by (rule addUser_fulfilledE) fastforce
  from v have "findOne (user_where n (user_bank_code_arg a)) (database w') = Some r"
    using findOne_after_create [of v "database w" r "database w'"] by (simp add: user_where_def)
  with n r assms(2-4) show ?thesis
    by (simp add: user_resolve_run query_of_def)
qed

theorem addUser_then_user_witness:
  "fst (user_resolve (query_of (example_args ''1234567890'' ''058'' ''Jon Doe'' False))
        (snd (addUser_resolve (example_args ''1234567890'' ''058'' ''Jon Doe'' False)
           example_world))) =
     Fulfilled (Some \<lparr>user_account_number = ''1234567890'', user_bank_code = ''058'',
        user_account_name = Some ''Jon Doe'', is_verified = True, user_id = 4\<rparr>)"
  using addUser_then_user [OF example_addUser, where claimed = "''Jon Doe''"]
  by (simp add: example_addUser) (simp add: example_world_def example_args_def js_eval)

section \<open>The mutation twice\<close>

text \<open>
  C31: Account numbers stay unique across mutations. When \<open>addUser\<close> has fulfilled, a
  later \<open>addUser\<close> with the same account number, whatever its other arguments, is
  rejected with \<open>USER_ALREADY_EXISTS\<close> as long as storage is reachable.
\<close>

theorem addUser_twice:
  assumes "addUser_resolve a w = (Fulfilled r, w')"
    and "user_account_number_arg b = user_account_number_arg a"
    and "\<not> db_fault w' (length (trace w'))"
  shows "fst (addUser_resolve b w') = Rejected (Error USER_ALREADY_EXISTS)"
proof -
  from assms(1) obtain n v where n: "user_account_number_arg a = Some n" "length n = 10"
    and v: "create v (database w) = Inr (r, database w')" "user_account_number v = n"
    by (rule addUser_fulfilledE) fastforce
  from v have "findOne (addUser_where n) (database w') \<noteq> None"
    by (auto simp: create_Inr addUser_where_def findOne_number_only taken_iff)
  with n assms(2,3) show ?thesis
    by (simp add: addUser_resolve_run)
qed

theorem addUser_twice_witness:
  "fst (addUser_resolve (example_args ''1234567890'' ''999'' ''Ada Obi'' True)
        (snd (addUser_resolve (example_args ''1234567890'' ''058'' ''Jon Doe'' False)
           example_world))) = Rejected (Error USER_ALREADY_EXISTS)"
  using addUser_twice [OF example_addUser,
      where b = "example_args ''1234567890'' ''999'' ''Ada Obi'' True"]
  by (simp add: example_addUser) (simp add: example_world_def example_args_def)

section \<open>The mutation refines the abstract map\<close>

text \<open>
  C32: Refinement. Seen through \<open>accounts\<close>, the mutation is \<open>register\<close>: the map after
  the mutation is the map before it, updated with the record the mutation fulfilled
  with, and unchanged when it rejected. A record is only ever registered under a key
  that was not in the map: the mutation never overwrites an account.
\<close>

theorem addUser_refines_register:
  "accounts (database (snd (addUser_resolve a w))) =
     register (accounts (database w)) (fst (addUser_resolve a w))
   \<and> (case fst (addUser_resolve a w) of
        Fulfilled r \<Rightarrow> user_account_number r \<notin> dom (accounts (database w))
      | Rejected e \<Rightarrow> True)"
proof (cases "addUser_resolve a w")
  case (Pair s w')
  show ?thesis
  proof (cases s)
    case (Fulfilled r)
    with Pair obtain v where v: "create v (database w) = Inr (r, database w')"
      by (auto elim: addUser_fulfilledE)
    then have "user_account_number r = user_account_number v"
      and "\<not> taken (user_account_number v) (database w)"
      by (auto simp: create_Inr)
    with v Pair Fulfilled show ?thesis
      by (simp add: register_def create_refines_update taken_refines_dom)
  next
    case (Rejected e)
    with Pair have "database w' = database w"
      by (auto simp: addUser_resolve_run Let_def split: option.splits sum.splits if_splits)
    with Pair Rejected show ?thesis
      by (simp add: register_def)
  qed
qed

end
